(* ===== verification/Prelude.thy ===== *)
theory Prelude
  imports Main "HOL-Library.Word" "HOL-Library.Sublist"
begin

text \<open>
  Shared vocabulary of the development: the machine types of the simulator and the
  assembler, the rendering of numbers by the standard library (\<open>std::to_string\<close> and the
  default \<open>std::format\<close>), the reading of numbers by \<open>std::from_chars\<close>, and the generic
  lemmas on lists and words that several components use.
\<close>

unbundle bit_operations_syntax

section \<open>Machine types\<close>

text \<open>
  Verilator's \<open>CData\<close> is \<open>uint8_t\<close> and \<open>IData\<close> is \<open>uint32_t\<close>. The assembler's
  \<open>word_type\<close> is \<open>int32_t\<close>: the same 32 bits, read with \<^const>\<open>sint\<close>.
\<close>

type_synonym cdata = "8 word"
type_synonym idata = "32 word"
type_synonym word_type = "32 word"

named_theorems instr_simps \<open>the tables of the instruction set, unfolded\<close>
named_theorems field_simps_bits \<open>reading one bit field of an instruction word\<close>
named_theorems lex_len \<open>how much input the lexer's operations consume\<close>
named_theorems parse_defs \<open>the parser's operations, unfolded\<close>

section \<open>Characters as numbers\<close>

definition ord :: "char \<Rightarrow> int" where
  "ord c = of_char c"

text \<open>
  The value of a digit character in bases up to 36, as \<open>std::from_chars\<close> reads it, and the
  value of a string of digits, most significant first.
\<close>

definition digit_value :: "char \<Rightarrow> int option" where
  "digit_value c =
     (if 48 \<le> ord c \<and> ord c \<le> 57 then Some (ord c - 48)
      else if 65 \<le> ord c \<and> ord c \<le> 90 then Some (ord c - 55)
      else if 97 \<le> ord c \<and> ord c \<le> 122 then Some (ord c - 87)
      else None)"

definition is_base_digit :: "int \<Rightarrow> char \<Rightarrow> bool" where
  "is_base_digit base c =
     (case digit_value c of None \<Rightarrow> False | Some d \<Rightarrow> d < base)"

definition digits_value :: "int \<Rightarrow> string \<Rightarrow> int" where
  "digits_value base cs =
     foldl (\<lambda>acc c. base * acc + (case digit_value c of None \<Rightarrow> 0 | Some d \<Rightarrow> d)) 0 cs"

section \<open>std::from_chars for int32_t\<close>

text \<open>
  \<open>std::from_chars(first, last, value, base)\<close> matches the longest prefix that is an
  optional minus sign followed by at least one digit of the base. It reports
  \<open>invalid_argument\<close> when there is no such prefix and \<open>result_out_of_range\<close> when the
  number does not fit the type; it does not skip white space and does not accept a plus
  sign or a base prefix. The result is the value and the unread rest (\<open>ptr\<close>).
\<close>

datatype errc = Invalid_argument | Result_out_of_range

fun errc_message :: "errc \<Rightarrow> string" where
  "errc_message Invalid_argument = ''Invalid argument''"
| "errc_message Result_out_of_range = ''Numerical result out of range''"

definition fits_int32 :: "int \<Rightarrow> bool" where
  "fits_int32 n \<longleftrightarrow> - (2 ^ 31) \<le> n \<and> n < 2 ^ 31"

definition from_chars :: "int \<Rightarrow> string \<Rightarrow> errc + (word_type \<times> string)" where
  "from_chars base str =
     (let neg = (case str of [] \<Rightarrow> False | c # _ \<Rightarrow> c = CHR ''-'');
          body = (if neg then tl str else str);
          ds = takeWhile (is_base_digit base) body;
          rest = dropWhile (is_base_digit base) body;
          n = (if neg then - digits_value base ds else digits_value base ds)
      in if ds = [] then Inl Invalid_argument
         else if fits_int32 n then Inr (word_of_int n, rest)
         else Inl Result_out_of_range)"

section \<open>Rendering numbers\<close>

definition digit_char :: "int \<Rightarrow> char" where
  "digit_char d = char_of (48 + d)"

function show_digits :: "int \<Rightarrow> string" where
  "show_digits n = (if n < 10 then [digit_char n]
                    else show_digits (n div 10) @ [digit_char (n mod 10)])"
  by pat_completeness auto
termination
  by (relation "measure nat") auto

declare show_digits.simps [simp del]

definition show_int :: "int \<Rightarrow> string" where
  "show_int i = (if i < 0 then CHR ''-'' # show_digits (- i) else show_digits i)"

definition show_idata :: "idata \<Rightarrow> string" where
  "show_idata w = show_int (uint w)"

definition show_word_type :: "word_type \<Rightarrow> string" where
  "show_word_type w = show_int (sint w)"

text \<open>Single quotes around a part of an error message.\<close>

definition quoted :: "string \<Rightarrow> string" where
  "quoted s = CHR 0x27 # s @ [CHR 0x27]"

text \<open>\<open>std::bitset<7>(v).to_string()\<close>: the low seven bits, most significant first.\<close>

definition bitset7_string :: "idata \<Rightarrow> string" where
  "bitset7_string w = map (\<lambda>i. if bit w i then CHR ''1'' else CHR ''0'') [6, 5, 4, 3, 2, 1, 0]"

section \<open>Lemmas on digits\<close>

lemma ord_digit_char [simp]: "0 \<le> d \<Longrightarrow> d < 10 \<Longrightarrow> ord (digit_char d) = 48 + d"
  by (simp add: ord_def digit_char_def)

lemma digit_value_digit_char [simp]: "0 \<le> d \<Longrightarrow> d < 10 \<Longrightarrow> digit_value (digit_char d) = Some d"
  by (simp add: digit_value_def)

lemma is_base_digit_digit_char [simp]: "0 \<le> d \<Longrightarrow> d < 10 \<Longrightarrow> is_base_digit 10 (digit_char d)"
  by (simp add: is_base_digit_def)

lemma digits_value_Nil [simp]: "digits_value base [] = 0"
  by (simp add: digits_value_def)

lemma digits_value_snoc:
  "digits_value base (cs @ [c])
     = base * digits_value base cs + (case digit_value c of None \<Rightarrow> 0 | Some d \<Rightarrow> d)"
  by (simp add: digits_value_def)

lemma digit_value_nonneg: "digit_value c = Some d \<Longrightarrow> 0 \<le> d"
  by (auto simp: digit_value_def split: if_splits)

lemma digits_value_nonneg: "0 \<le> base \<Longrightarrow> 0 \<le> digits_value base cs"
  by (induction cs rule: rev_induct)
    (auto simp: digits_value_snoc digit_value_nonneg split: option.splits)

lemma show_digits_nonempty [simp]: "show_digits n \<noteq> []"
  by (subst show_digits.simps) simp

lemma digits_value_show_digits [simp]: "0 \<le> n \<Longrightarrow> digits_value 10 (show_digits n) = n"
proof (induction n rule: show_digits.induct)
  case (1 n)
  show ?case
  proof (cases "n < 10")
    case True
    with "1.prems" show ?thesis
      by (subst show_digits.simps) (simp add: digits_value_def)
  next
    case False
    with 1 have "digits_value 10 (show_digits (n div 10)) = n div 10" by simp
    with False show ?thesis
      by (subst show_digits.simps) (simp add: digits_value_snoc)
  qed
qed

lemma show_digits_chars: "0 \<le> n \<Longrightarrow> c \<in> set (show_digits n) \<Longrightarrow> \<exists>d \<in> {0..<10}. c = digit_char d"
proof (induction n rule: show_digits.induct)
  case (1 n)
  show ?case
  proof (cases "n < 10")
    case True
    with "1.prems" show ?thesis by (subst (asm) show_digits.simps) auto
  next
    case False
    with "1.prems" consider "c \<in> set (show_digits (n div 10))" | "c = digit_char (n mod 10)"
      by (subst (asm) show_digits.simps) auto
    then show ?thesis
    proof cases
      case 1
      with "1.IH" False show ?thesis by simp
    next
      case 2
      then show ?thesis by (intro bexI [of _ "n mod 10"]) simp_all
    qed
  qed
qed

section \<open>Lemmas on words\<close>

lemma sint_word_of_int_fits: "fits_int32 n \<Longrightarrow> sint (word_of_int n :: word_type) = n"
  by (simp add: fits_int32_def sint_word_ariths signed_take_bit_int_eq_self sint_sbintrunc')

lemma fits_int32_sint [simp]: "fits_int32 (sint (w :: word_type))"
  using sint_range_size [of w] by (simp add: fits_int32_def word_size)

end
