(* ===== verification/Errors.thy ===== *)
theory Errors
  imports Prelude
begin

text \<open>
  \<open>sim/simlib/error.hpp\<close>: the error value of the assembler and the simulator, and what
  happens when a check fails. Reporting an error with \<open>print_error\<close> ends in
  \<open>assert(false)\<close>, so a failed check is the left side of a sum: the program has printed
  the error and aborted.
\<close>

record error =
  message :: string
  column :: idata
  line :: idata

text \<open>The constructor's default arguments: no column and no line.\<close>

definition Error :: "string \<Rightarrow> error" where
  "Error msg = \<lparr>message = msg, column = 0, line = 0\<rparr>"

definition with_column :: "idata \<Rightarrow> error \<Rightarrow> error" where
  "with_column col e = e\<lparr>column := col\<rparr>"

definition with_line :: "idata \<Rightarrow> error \<Rightarrow> error" where
  "with_line ln e = e\<lparr>line := ln\<rparr>"

text \<open>The line on the error stream; then the program aborts.\<close>

definition print_error :: "error \<Rightarrow> string" where
  "print_error e =
     ''Error:'' @ show_idata (line e) @ '':'' @ show_idata (column e) @ '': '' @ message e @ ''.''"

definition assert_or_err :: "bool \<Rightarrow> error \<Rightarrow> error + unit" where
  "assert_or_err condition e = (if condition then Inr () else Inl e)"

text \<open>Sequencing of checked steps: the first failing check ends the computation.\<close>

definition and_then :: "'e + 'a \<Rightarrow> ('a \<Rightarrow> 'e + 'b) \<Rightarrow> 'e + 'b" where
  "and_then m k = (case m of Inl e \<Rightarrow> Inl e | Inr x \<Rightarrow> k x)"

lemma and_then_simps [simp]:
  "and_then (Inl e) k = Inl e"
  "and_then (Inr x) k = k x"
  by (simp_all add: and_then_def)

lemma and_then_Inr_iff: "and_then m k = Inr y \<longleftrightarrow> (\<exists>x. m = Inr x \<and> k x = Inr y)"
  by (cases m) simp_all

lemma and_then_assoc: "and_then (and_then m k) l = and_then m (\<lambda>x. and_then (k x) l)"
  by (cases m) simp_all

lemma assert_or_err_Inr_iff [simp]: "assert_or_err b e = Inr u \<longleftrightarrow> b"
  by (simp add: assert_or_err_def)

end
