(* ===== verification/Isa.thy ===== *)
theory Isa
  imports Errors
begin

text \<open>
  The instruction set tables of \<open>sim/simlib/instructions.hpp\<close>: the enumerations, the
  predicates on opcodes, registers, and mnemonics with their string forms. Enumerators of
  the C++ scoped enums carry the enum as a prefix (\<open>Op_\<close>, \<open>F3_\<close>, \<open>F7_\<close>, \<open>Mn_\<close>).
  C++ compares enumerators of one enum by value and \<open>Funct3\<close>, \<open>Funct7\<close> have several
  names for one value, so the model compares them through \<open>funct3_bits\<close> and \<open>funct7_bits\<close>.
\<close>

section \<open>Opcodes\<close>

datatype opcode =
    Op_LUI | Op_AUIPC | Op_ITYPE | Op_RTYPE | Op_LOAD | Op_STYPE
  | Op_JTYPE | Op_JALR | Op_BTYPE | Op_HALT | Op_SX_SLT | Op_SX_SLTI

fun opcode_bits :: "opcode \<Rightarrow> idata" where
  "opcode_bits Op_LUI = 0b110111"
| "opcode_bits Op_AUIPC = 0b010111"
| "opcode_bits Op_ITYPE = 0b010011"
| "opcode_bits Op_RTYPE = 0b110011"
| "opcode_bits Op_LOAD = 0b000011"
| "opcode_bits Op_STYPE = 0b100011"
| "opcode_bits Op_JTYPE = 0b1101111"
| "opcode_bits Op_JALR = 0b1100111"
| "opcode_bits Op_BTYPE = 0b1100011"
| "opcode_bits Op_HALT = 0b1111111"
| "opcode_bits Op_SX_SLT = 0b1111110"
| "opcode_bits Op_SX_SLTI = 0b1111101"

definition opcodes :: "opcode list" where
  [instr_simps]: "opcodes = [
     Op_LUI, Op_AUIPC, Op_ITYPE, Op_RTYPE, Op_LOAD, Op_STYPE,
     Op_JTYPE, Op_JALR, Op_BTYPE, Op_HALT, Op_SX_SLT, Op_SX_SLTI]"

definition is_of_type :: "idata \<Rightarrow> opcode \<Rightarrow> bool" where
  "is_of_type opc type =
     (if type \<in> {Op_LUI, Op_AUIPC, Op_ITYPE, Op_RTYPE, Op_LOAD, Op_STYPE}
      then opc AND 0b111111 = opcode_bits type
      else opc = opcode_bits type)"

definition is_scalar :: "idata \<Rightarrow> bool" where
  "is_scalar opc \<longleftrightarrow> opc AND push_bit 6 1 \<noteq> 0"

definition is_vector :: "idata \<Rightarrow> bool" where
  "is_vector opc \<longleftrightarrow> \<not> is_scalar opc"

definition to_scalar :: "idata \<Rightarrow> idata" where
  "to_scalar opc = opc OR push_bit 6 1"

text \<open>
  The chain of string comparisons of \<open>str_to_opcode\<close>, first match first, and the
  removal of the scalar prefix before it.
\<close>

definition opcode_table :: "(string \<times> opcode) list" where
  [instr_simps]: "opcode_table = [
     (''lui'', Op_LUI),
     (''auipc'', Op_AUIPC),
     (''addi'', Op_ITYPE),
     (''add'', Op_RTYPE),
     (''sub'', Op_RTYPE),
     (''slli'', Op_ITYPE),
     (''slti'', Op_ITYPE),
     (''sltiu'', Op_ITYPE),
     (''xori'', Op_ITYPE),
     (''srli'', Op_ITYPE),
     (''srai'', Op_ITYPE),
     (''ori'', Op_ITYPE),
     (''andi'', Op_ITYPE),
     (''lb'', Op_LOAD),
     (''lh'', Op_LOAD),
     (''lw'', Op_LOAD),
     (''sb'', Op_STYPE),
     (''sh'', Op_STYPE),
     (''sw'', Op_STYPE),
     (''beq'', Op_BTYPE),
     (''bne'', Op_BTYPE),
     (''blt'', Op_BTYPE),
     (''bge'', Op_BTYPE),
     (''jal'', Op_JTYPE),
     (''jalr'', Op_JALR),
     (''halt'', Op_HALT),
     (''sx.slt'', Op_SX_SLT),
     (''sx.slti'', Op_SX_SLTI)]"

definition str_to_opcode :: "string \<Rightarrow> idata option" where
  "str_to_opcode str =
     (let scalar = prefix ''s.'' str;
          str = (if scalar then drop 2 str else str)
      in case map_of opcode_table str of
           None \<Rightarrow> None
         | Some opc \<Rightarrow> Some (if scalar then to_scalar (opcode_bits opc) else opcode_bits opc))"

definition opcode_to_str :: "idata \<Rightarrow> string" where
  "opcode_to_str opc =
     (if opc = opcode_bits Op_LUI then (if is_scalar opc then ''s.lui'' else ''lui'')
      else if opc = opcode_bits Op_AUIPC then (if is_scalar opc then ''s.auipc'' else ''auipc'')
      else if opc = opcode_bits Op_ITYPE then (if is_scalar opc then ''s.<itype>'' else ''<itype>'')
      else if opc = opcode_bits Op_RTYPE then (if is_scalar opc then ''s.<rtype>'' else ''<rtype>'')
      else if opc = opcode_bits Op_LOAD then (if is_scalar opc then ''s.<load>'' else ''<load>'')
      else if opc = opcode_bits Op_STYPE then (if is_scalar opc then ''s.<store>'' else ''<store>'')
      else if opc = opcode_bits Op_JTYPE then ''jal''
      else if opc = opcode_bits Op_JALR then ''jalr''
      else if opc = opcode_bits Op_BTYPE then ''beq''
      else if opc = opcode_bits Op_HALT then ''halt''
      else if opc = opcode_bits Op_SX_SLT then ''sx.slt''
      else if opc = opcode_bits Op_SX_SLTI then ''sx.slti''
      else ''unknown'')"

section \<open>Function codes\<close>

datatype funct3 =
    F3_ADDI | F3_SLTI | F3_XORI | F3_ORI | F3_ANDI | F3_SLLI | F3_SRLI
  | F3_SRAI | F3_ADD | F3_SUB | F3_SLL | F3_SLT | F3_XOR | F3_SRL
  | F3_SRA | F3_OR | F3_AND | F3_LB | F3_LH | F3_LW | F3_SB
  | F3_SH | F3_SW | F3_JALR | F3_BEQ | F3_BNE | F3_BLT | F3_BGE

fun funct3_bits :: "funct3 \<Rightarrow> idata" where
  "funct3_bits F3_ADDI = 0b000"
| "funct3_bits F3_SLTI = 0b010"
| "funct3_bits F3_XORI = 0b100"
| "funct3_bits F3_ORI = 0b110"
| "funct3_bits F3_ANDI = 0b111"
| "funct3_bits F3_SLLI = 0b001"
| "funct3_bits F3_SRLI = 0b101"
| "funct3_bits F3_SRAI = 0b101"
| "funct3_bits F3_ADD = 0b000"
| "funct3_bits F3_SUB = 0b000"
| "funct3_bits F3_SLL = 0b001"
| "funct3_bits F3_SLT = 0b010"
| "funct3_bits F3_XOR = 0b100"
| "funct3_bits F3_SRL = 0b101"
| "funct3_bits F3_SRA = 0b101"
| "funct3_bits F3_OR = 0b110"
| "funct3_bits F3_AND = 0b111"
| "funct3_bits F3_LB = 0b000"
| "funct3_bits F3_LH = 0b001"
| "funct3_bits F3_LW = 0b010"
| "funct3_bits F3_SB = 0b000"
| "funct3_bits F3_SH = 0b001"
| "funct3_bits F3_SW = 0b010"
| "funct3_bits F3_JALR = 0b000"
| "funct3_bits F3_BEQ = 0b000"
| "funct3_bits F3_BNE = 0b001"
| "funct3_bits F3_BLT = 0b100"
| "funct3_bits F3_BGE = 0b101"

definition funct3s :: "funct3 list" where
  [instr_simps]: "funct3s = [
     F3_ADDI, F3_SLTI, F3_XORI, F3_ORI, F3_ANDI, F3_SLLI, F3_SRLI,
     F3_SRAI, F3_ADD, F3_SUB, F3_SLL, F3_SLT, F3_XOR, F3_SRL,
     F3_SRA, F3_OR, F3_AND, F3_LB, F3_LH, F3_LW, F3_SB,
     F3_SH, F3_SW, F3_JALR, F3_BEQ, F3_BNE, F3_BLT, F3_BGE]"

datatype funct7 =
    F7_SLLI | F7_SRLI | F7_SRAI | F7_ADD | F7_SUB | F7_SLL | F7_SLT
  | F7_XOR | F7_SRL | F7_SRA | F7_OR | F7_AND

fun funct7_bits :: "funct7 \<Rightarrow> idata" where
  "funct7_bits F7_SLLI = 0b0000000"
| "funct7_bits F7_SRLI = 0b0000000"
| "funct7_bits F7_SRAI = 0b0100000"
| "funct7_bits F7_ADD = 0b0000000"
| "funct7_bits F7_SUB = 0b0100000"
| "funct7_bits F7_SLL = 0b0000000"
| "funct7_bits F7_SLT = 0b0000000"
| "funct7_bits F7_XOR = 0b0000000"
| "funct7_bits F7_SRL = 0b0000000"
| "funct7_bits F7_SRA = 0b0100000"
| "funct7_bits F7_OR = 0b0000000"
| "funct7_bits F7_AND = 0b0000000"

definition funct7s :: "funct7 list" where
  [instr_simps]: "funct7s = [
     F7_SLLI, F7_SRLI, F7_SRAI, F7_ADD, F7_SUB, F7_SLL,
     F7_SLT, F7_XOR, F7_SRL, F7_SRA, F7_OR, F7_AND]"

text \<open>
  A value-initialised \<open>Funct3\<close> or \<open>Funct7\<close> (written \<open>{}\<close> in the source) has the value 0,
  which is the value of these enumerators.
\<close>

abbreviation F3_zero :: funct3 where "F3_zero \<equiv> F3_ADDI"
abbreviation F7_zero :: funct7 where "F7_zero \<equiv> F7_SLLI"

section \<open>Registers\<close>

datatype register_type = VECTOR | SCALAR

record register =
  register_number :: idata
  type :: register_type

definition register_bits :: "register \<Rightarrow> idata" where
  "register_bits r = register_number r"

definition reg_is_scalar :: "register \<Rightarrow> bool" where
  "reg_is_scalar r \<longleftrightarrow> type r = SCALAR"

definition reg_is_vector :: "register \<Rightarrow> bool" where
  "reg_is_vector r \<longleftrightarrow> type r = VECTOR"

definition reg_to_str :: "register \<Rightarrow> string" where
  "reg_to_str r = (case type r of
       VECTOR \<Rightarrow> CHR ''x'' # show_idata (register_number r)
     | SCALAR \<Rightarrow> CHR ''s'' # show_idata (register_number r))"

definition validate :: "register \<Rightarrow> bool" where
  "validate r \<longleftrightarrow> register_number r < 32"

definition validate_register :: "register \<Rightarrow> error + unit" where
  "validate_register reg =
     assert_or_err (validate reg) (Error (''Invalid register: '' @ quoted (reg_to_str reg) @ ''.''))"

text \<open>The literal suffixes \<open>_s\<close> and \<open>_x\<close>.\<close>

definition scalar_reg :: "nat \<Rightarrow> register" where
  "scalar_reg n = \<lparr>register_number = word_of_nat n, type = SCALAR\<rparr>"

definition vector_reg :: "nat \<Rightarrow> register" where
  "vector_reg n = \<lparr>register_number = word_of_nat n, type = VECTOR\<rparr>"

section \<open>Mnemonics\<close>

datatype mnemonic_name =
    Mn_LUI | Mn_AUIPC | Mn_ADDI | Mn_SLTI | Mn_XORI | Mn_ORI | Mn_ANDI
  | Mn_SLLI | Mn_SRLI | Mn_SRAI | Mn_ADD | Mn_SUB | Mn_SLL | Mn_SLT
  | Mn_XOR | Mn_SRL | Mn_SRA | Mn_OR | Mn_AND | Mn_LB | Mn_LH
  | Mn_LW | Mn_SB | Mn_SH | Mn_SW | Mn_JAL | Mn_JALR | Mn_BEQ
  | Mn_BNE | Mn_BLT | Mn_BGE | Mn_HALT | Mn_SX_SLT | Mn_SX_SLTI

text \<open>The chain of string comparisons of \<open>str_to_mnemonic_name\<close>, first match first.\<close>

definition mnemonic_table :: "(string \<times> mnemonic_name) list" where
  [instr_simps]: "mnemonic_table = [
     (''lui'', Mn_LUI),
     (''auipc'', Mn_AUIPC),
     (''addi'', Mn_ADDI),
     (''slti'', Mn_SLTI),
     (''xori'', Mn_XORI),
     (''ori'', Mn_ORI),
     (''andi'', Mn_ANDI),
     (''slli'', Mn_SLLI),
     (''srli'', Mn_SRLI),
     (''srai'', Mn_SRAI),
     (''add'', Mn_ADD),
     (''sub'', Mn_SUB),
     (''sll'', Mn_SLL),
     (''slt'', Mn_SLT),
     (''xor'', Mn_XOR),
     (''srl'', Mn_SRL),
     (''sra'', Mn_SRA),
     (''or'', Mn_OR),
     (''and'', Mn_AND),
     (''lb'', Mn_LB),
     (''lh'', Mn_LH),
     (''lw'', Mn_LW),
     (''sb'', Mn_SB),
     (''sh'', Mn_SH),
     (''sw'', Mn_SW),
     (''jal'', Mn_JAL),
     (''jalr'', Mn_JALR),
     (''beq'', Mn_BEQ),
     (''bne'', Mn_BNE),
     (''blt'', Mn_BLT),
     (''bge'', Mn_BGE),
     (''halt'', Mn_HALT),
     (''sx.slt'', Mn_SX_SLT),
     (''sx.slti'', Mn_SX_SLTI)]"

definition str_to_mnemonic_name :: "string \<Rightarrow> mnemonic_name option" where
  "str_to_mnemonic_name name = map_of mnemonic_table name"

fun mn_to_string :: "mnemonic_name \<Rightarrow> string" where
  "mn_to_string Mn_LUI = ''lui''"
| "mn_to_string Mn_AUIPC = ''auipc''"
| "mn_to_string Mn_ADDI = ''addi''"
| "mn_to_string Mn_SLTI = ''slti''"
| "mn_to_string Mn_XORI = ''xori''"
| "mn_to_string Mn_ORI = ''ori''"
| "mn_to_string Mn_ANDI = ''andi''"
| "mn_to_string Mn_SLLI = ''slli''"
| "mn_to_string Mn_SRLI = ''srli''"
| "mn_to_string Mn_SRAI = ''srai''"
| "mn_to_string Mn_ADD = ''add''"
| "mn_to_string Mn_SUB = ''sub''"
| "mn_to_string Mn_SLL = ''sll''"
| "mn_to_string Mn_SLT = ''slt''"
| "mn_to_string Mn_XOR = ''xor''"
| "mn_to_string Mn_SRL = ''srl''"
| "mn_to_string Mn_SRA = ''sra''"
| "mn_to_string Mn_OR = ''or''"
| "mn_to_string Mn_AND = ''and''"
| "mn_to_string Mn_LB = ''lb''"
| "mn_to_string Mn_LH = ''lh''"
| "mn_to_string Mn_LW = ''lw''"
| "mn_to_string Mn_SB = ''sb''"
| "mn_to_string Mn_SH = ''sh''"
| "mn_to_string Mn_SW = ''sw''"
| "mn_to_string Mn_JAL = ''jal''"
| "mn_to_string Mn_JALR = ''jalr''"
| "mn_to_string Mn_BEQ = ''beq''"
| "mn_to_string Mn_BNE = ''bne''"
| "mn_to_string Mn_BLT = ''blt''"
| "mn_to_string Mn_BGE = ''bge''"
| "mn_to_string Mn_HALT = ''halt''"
| "mn_to_string Mn_SX_SLT = ''sx.slt''"
| "mn_to_string Mn_SX_SLTI = ''sx.slti''"

fun mnemonic_name_to_opcode :: "mnemonic_name \<Rightarrow> opcode" where
  "mnemonic_name_to_opcode Mn_LUI = Op_LUI"
| "mnemonic_name_to_opcode Mn_AUIPC = Op_AUIPC"
| "mnemonic_name_to_opcode Mn_ADDI = Op_ITYPE"
| "mnemonic_name_to_opcode Mn_SLTI = Op_ITYPE"
| "mnemonic_name_to_opcode Mn_XORI = Op_ITYPE"
| "mnemonic_name_to_opcode Mn_ORI = Op_ITYPE"
| "mnemonic_name_to_opcode Mn_ANDI = Op_ITYPE"
| "mnemonic_name_to_opcode Mn_SLLI = Op_ITYPE"
| "mnemonic_name_to_opcode Mn_SRLI = Op_ITYPE"
| "mnemonic_name_to_opcode Mn_SRAI = Op_ITYPE"
| "mnemonic_name_to_opcode Mn_ADD = Op_RTYPE"
| "mnemonic_name_to_opcode Mn_SUB = Op_RTYPE"
| "mnemonic_name_to_opcode Mn_SLL = Op_RTYPE"
| "mnemonic_name_to_opcode Mn_SLT = Op_RTYPE"
| "mnemonic_name_to_opcode Mn_XOR = Op_RTYPE"
| "mnemonic_name_to_opcode Mn_SRL = Op_RTYPE"
| "mnemonic_name_to_opcode Mn_SRA = Op_RTYPE"
| "mnemonic_name_to_opcode Mn_OR = Op_RTYPE"
| "mnemonic_name_to_opcode Mn_AND = Op_RTYPE"
| "mnemonic_name_to_opcode Mn_LB = Op_LOAD"
| "mnemonic_name_to_opcode Mn_LH = Op_LOAD"
| "mnemonic_name_to_opcode Mn_LW = Op_LOAD"
| "mnemonic_name_to_opcode Mn_SB = Op_STYPE"
| "mnemonic_name_to_opcode Mn_SH = Op_STYPE"
| "mnemonic_name_to_opcode Mn_SW = Op_STYPE"
| "mnemonic_name_to_opcode Mn_JAL = Op_JTYPE"
| "mnemonic_name_to_opcode Mn_JALR = Op_JALR"
| "mnemonic_name_to_opcode Mn_BEQ = Op_BTYPE"
| "mnemonic_name_to_opcode Mn_BNE = Op_BTYPE"
| "mnemonic_name_to_opcode Mn_BLT = Op_BTYPE"
| "mnemonic_name_to_opcode Mn_BGE = Op_BTYPE"
| "mnemonic_name_to_opcode Mn_HALT = Op_HALT"
| "mnemonic_name_to_opcode Mn_SX_SLT = Op_SX_SLT"
| "mnemonic_name_to_opcode Mn_SX_SLTI = Op_SX_SLTI"

record mnemonic =
  name :: mnemonic_name
  has_s_prefix :: bool

definition mnemonic_to_str :: "mnemonic \<Rightarrow> string" where
  "mnemonic_to_str m = (if has_s_prefix m then ''s.'' else []) @ mn_to_string (name m)"

definition mnemonic_to_opcode :: "mnemonic \<Rightarrow> idata" where
  "mnemonic_to_opcode m =
     (let opc = opcode_bits (mnemonic_name_to_opcode (name m))
      in if has_s_prefix m then opc OR push_bit 6 1 else opc)"

definition is_vector_scalar :: "mnemonic \<Rightarrow> bool" where
  "is_vector_scalar m \<longleftrightarrow> name m = Mn_SX_SLT \<or> name m = Mn_SX_SLTI"

definition is_branch :: "mnemonic \<Rightarrow> bool" where
  "is_branch m \<longleftrightarrow> name m = Mn_BEQ \<or> name m = Mn_BNE \<or> name m = Mn_BLT \<or> name m = Mn_BGE"

definition is_jump :: "mnemonic \<Rightarrow> bool" where
  "is_jump m \<longleftrightarrow> name m = Mn_JAL \<or> name m = Mn_JALR"

definition mnemonic_is_scalar :: "mnemonic \<Rightarrow> bool" where
  "mnemonic_is_scalar m \<longleftrightarrow> has_s_prefix m \<or> is_vector_scalar m \<or> is_branch m \<or> is_jump m"

text \<open>\<open>Mnemonic::operator==\<close> compares names and scalarity, not the prefix itself.\<close>

definition mnemonic_eq :: "mnemonic \<Rightarrow> mnemonic \<Rightarrow> bool" where
  "mnemonic_eq m other \<longleftrightarrow> name m = name other \<and> mnemonic_is_scalar m = mnemonic_is_scalar other"

definition str_to_mnemonic :: "string \<Rightarrow> mnemonic option" where
  "str_to_mnemonic str =
     (let scalar = prefix ''s.'' str;
          str = (if scalar then drop 2 str else str)
      in case str_to_mnemonic_name str of
           None \<Rightarrow> None
         | Some nm \<Rightarrow> Some \<lparr>name = nm, has_s_prefix = scalar\<rparr>)"

record instruction_determinant =
  det_opcode :: opcode
  det_funct3 :: funct3
  det_funct7 :: funct7

fun name_to_determinant :: "mnemonic_name \<Rightarrow> instruction_determinant" where
  "name_to_determinant Mn_LUI = \<lparr>det_opcode = Op_LUI, det_funct3 = F3_zero, det_funct7 = F7_zero\<rparr>"
| "name_to_determinant Mn_AUIPC = \<lparr>det_opcode = Op_AUIPC, det_funct3 = F3_zero, det_funct7 = F7_zero\<rparr>"
| "name_to_determinant Mn_ADDI = \<lparr>det_opcode = Op_ITYPE, det_funct3 = F3_ADDI, det_funct7 = F7_zero\<rparr>"
| "name_to_determinant Mn_SLTI = \<lparr>det_opcode = Op_ITYPE, det_funct3 = F3_SLTI, det_funct7 = F7_zero\<rparr>"
| "name_to_determinant Mn_XORI = \<lparr>det_opcode = Op_ITYPE, det_funct3 = F3_XORI, det_funct7 = F7_zero\<rparr>"
| "name_to_determinant Mn_ORI = \<lparr>det_opcode = Op_ITYPE, det_funct3 = F3_ORI, det_funct7 = F7_zero\<rparr>"
| "name_to_determinant Mn_ANDI = \<lparr>det_opcode = Op_ITYPE, det_funct3 = F3_ANDI, det_funct7 = F7_zero\<rparr>"
| "name_to_determinant Mn_SLLI = \<lparr>det_opcode = Op_ITYPE, det_funct3 = F3_SLLI, det_funct7 = F7_SLLI\<rparr>"
| "name_to_determinant Mn_SRLI = \<lparr>det_opcode = Op_ITYPE, det_funct3 = F3_SRLI, det_funct7 = F7_SRLI\<rparr>"
| "name_to_determinant Mn_SRAI = \<lparr>det_opcode = Op_ITYPE, det_funct3 = F3_SRAI, det_funct7 = F7_SRAI\<rparr>"
| "name_to_determinant Mn_ADD = \<lparr>det_opcode = Op_RTYPE, det_funct3 = F3_ADD, det_funct7 = F7_ADD\<rparr>"
| "name_to_determinant Mn_SUB = \<lparr>det_opcode = Op_RTYPE, det_funct3 = F3_SUB, det_funct7 = F7_SUB\<rparr>"
| "name_to_determinant Mn_SLL = \<lparr>det_opcode = Op_RTYPE, det_funct3 = F3_SLL, det_funct7 = F7_SLL\<rparr>"
| "name_to_determinant Mn_SLT = \<lparr>det_opcode = Op_RTYPE, det_funct3 = F3_SLT, det_funct7 = F7_SLT\<rparr>"
| "name_to_determinant Mn_XOR = \<lparr>det_opcode = Op_RTYPE, det_funct3 = F3_XOR, det_funct7 = F7_XOR\<rparr>"
| "name_to_determinant Mn_SRL = \<lparr>det_opcode = Op_RTYPE, det_funct3 = F3_SRL, det_funct7 = F7_SRL\<rparr>"
| "name_to_determinant Mn_SRA = \<lparr>det_opcode = Op_RTYPE, det_funct3 = F3_SRA, det_funct7 = F7_SRA\<rparr>"
| "name_to_determinant Mn_OR = \<lparr>det_opcode = Op_RTYPE, det_funct3 = F3_OR, det_funct7 = F7_OR\<rparr>"
| "name_to_determinant Mn_AND = \<lparr>det_opcode = Op_RTYPE, det_funct3 = F3_AND, det_funct7 = F7_AND\<rparr>"
| "name_to_determinant Mn_LB = \<lparr>det_opcode = Op_LOAD, det_funct3 = F3_LB, det_funct7 = F7_zero\<rparr>"
| "name_to_determinant Mn_LH = \<lparr>det_opcode = Op_LOAD, det_funct3 = F3_LH, det_funct7 = F7_zero\<rparr>"
| "name_to_determinant Mn_LW = \<lparr>det_opcode = Op_LOAD, det_funct3 = F3_LW, det_funct7 = F7_zero\<rparr>"
| "name_to_determinant Mn_SB = \<lparr>det_opcode = Op_STYPE, det_funct3 = F3_SB, det_funct7 = F7_zero\<rparr>"
| "name_to_determinant Mn_SH = \<lparr>det_opcode = Op_STYPE, det_funct3 = F3_SH, det_funct7 = F7_zero\<rparr>"
| "name_to_determinant Mn_SW = \<lparr>det_opcode = Op_STYPE, det_funct3 = F3_SW, det_funct7 = F7_zero\<rparr>"
| "name_to_determinant Mn_JAL = \<lparr>det_opcode = Op_JTYPE, det_funct3 = F3_zero, det_funct7 = F7_zero\<rparr>"
| "name_to_determinant Mn_JALR = \<lparr>det_opcode = Op_JALR, det_funct3 = F3_JALR, det_funct7 = F7_zero\<rparr>"
| "name_to_determinant Mn_BEQ = \<lparr>det_opcode = Op_BTYPE, det_funct3 = F3_BEQ, det_funct7 = F7_zero\<rparr>"
| "name_to_determinant Mn_BNE = \<lparr>det_opcode = Op_BTYPE, det_funct3 = F3_BNE, det_funct7 = F7_zero\<rparr>"
| "name_to_determinant Mn_BLT = \<lparr>det_opcode = Op_BTYPE, det_funct3 = F3_BLT, det_funct7 = F7_zero\<rparr>"
| "name_to_determinant Mn_BGE = \<lparr>det_opcode = Op_BTYPE, det_funct3 = F3_BGE, det_funct7 = F7_zero\<rparr>"
| "name_to_determinant Mn_HALT = \<lparr>det_opcode = Op_HALT, det_funct3 = F3_zero, det_funct7 = F7_zero\<rparr>"
| "name_to_determinant Mn_SX_SLT = \<lparr>det_opcode = Op_SX_SLT, det_funct3 = F3_SLT, det_funct7 = F7_SLT\<rparr>"
| "name_to_determinant Mn_SX_SLTI = \<lparr>det_opcode = Op_SX_SLTI, det_funct3 = F3_SLTI, det_funct7 = F7_zero\<rparr>"

definition determinant_bits :: "instruction_determinant \<Rightarrow> idata \<times> idata \<times> idata" where
  "determinant_bits d =
     (opcode_bits (det_opcode d), funct3_bits (det_funct3 d), funct7_bits (det_funct7 d))"

section \<open>Mnemonic strings\<close>

lemma prefix_s_dot_iff: "prefix ''s.'' s \<longleftrightarrow> (\<exists>t. s = ''s.'' @ t)"
  by (auto simp: prefix_def)

lemma str_to_mnemonic_name_mn_to_string: "str_to_mnemonic_name (mn_to_string n) = Some n"
  by (cases n) (simp_all add: str_to_mnemonic_name_def mnemonic_table_def)

lemma mn_to_string_no_prefix: "\<not> prefix ''s.'' (mn_to_string n)"
  by (cases n) simp_all

lemma str_to_mnemonic_name_sound: "str_to_mnemonic_name s = Some n \<Longrightarrow> s = mn_to_string n"
  by (auto simp: str_to_mnemonic_name_def mnemonic_table_def split: if_splits)

lemma str_to_mnemonic_to_str [simp]: "str_to_mnemonic (mnemonic_to_str m) = Some m"
  by (cases m)
    (simp add: str_to_mnemonic_def mnemonic_to_str_def mn_to_string_no_prefix
      str_to_mnemonic_name_mn_to_string)

lemma str_to_mnemonic_sound: "str_to_mnemonic s = Some m \<Longrightarrow> s = mnemonic_to_str m"
  by (auto simp: str_to_mnemonic_def mnemonic_to_str_def Let_def prefix_s_dot_iff
      dest!: str_to_mnemonic_name_sound split: option.splits if_splits)

text \<open>Reading a mnemonic is exactly the inverse of printing it: \<open>str_to_mnemonic\<close>
  accepts the printed form of each mnemonic, with or without the scalar prefix, and nothing
  else.\<close>

theorem str_to_mnemonic_iff: "str_to_mnemonic s = Some m \<longleftrightarrow> s = mnemonic_to_str m"
  by (auto dest: str_to_mnemonic_sound)

lemma map_of_opcode_table:
  "map_of opcode_table (mn_to_string n) =
     (if n \<in> {Mn_SLL, Mn_SLT, Mn_XOR, Mn_SRL, Mn_SRA, Mn_OR, Mn_AND} then None
      else Some (mnemonic_name_to_opcode n))"
  by (cases n) (simp_all add: opcode_table_def)

text \<open>The two ways from a mnemonic string to its opcode agree wherever \<open>str_to_opcode\<close>
  knows the string; it does not know the R-type shifts, comparisons and logical operations.\<close>

theorem str_to_opcode_of_mnemonic:
  "str_to_opcode (mnemonic_to_str m) =
     (if name m \<in> {Mn_SLL, Mn_SLT, Mn_XOR, Mn_SRL, Mn_SRA, Mn_OR, Mn_AND} then None
      else Some (mnemonic_to_opcode m))"
  by (simp add: str_to_opcode_def mnemonic_to_str_def mn_to_string_no_prefix map_of_opcode_table
      mnemonic_to_opcode_def to_scalar_def Let_def del: insert_iff)

section \<open>Opcodes, scalarity and determinants\<close>

lemma is_scalar_iff_bit: "is_scalar w \<longleftrightarrow> bit w 6"
  using and_exp_eq_0_iff_not_bit [of w 6] by (simp add: is_scalar_def)

text \<open>The scalar bit of a mnemonic's opcode is set exactly for the mnemonics that
  \<open>Mnemonic::is_scalar\<close> calls scalar, and for \<open>halt\<close>, which it calls vector.\<close>

theorem scalar_bit_of_opcode:
  "is_scalar (mnemonic_to_opcode m) \<longleftrightarrow> mnemonic_is_scalar m \<or> name m = Mn_HALT"
proof -
  have "bit (opcode_bits (mnemonic_name_to_opcode n)) 6 \<longleftrightarrow>
      n \<in> {Mn_SX_SLT, Mn_SX_SLTI, Mn_BEQ, Mn_BNE, Mn_BLT, Mn_BGE, Mn_JAL, Mn_JALR, Mn_HALT}" for n
    by (cases n) simp_all
  then show ?thesis
    by (auto simp: is_scalar_iff_bit mnemonic_to_opcode_def mnemonic_is_scalar_def Let_def bit_simps
        is_vector_scalar_def is_branch_def is_jump_def)
qed

text \<open>Opcode, funct3 and funct7 together identify the instruction: no two mnemonics
  share a determinant.\<close>

theorem determinant_identifies_instruction:
  "determinant_bits (name_to_determinant n) = determinant_bits (name_to_determinant n') \<longleftrightarrow> n = n'"
  by (cases n; cases n'; simp add: determinant_bits_def)

lemma det_opcode_name [simp]: "det_opcode (name_to_determinant n) = mnemonic_name_to_opcode n"
  by (cases n) simp_all

text \<open>Making an opcode scalar keeps opcodes apart, except that the scalar form of the
  store opcode is the branch opcode.\<close>

theorem scalar_opcode_clashes:
  "to_scalar (opcode_bits opc) = to_scalar (opcode_bits opc') \<longleftrightarrow>
     opc = opc' \<or> opc = Op_STYPE \<and> opc' = Op_BTYPE \<or> opc = Op_BTYPE \<and> opc' = Op_STYPE"
  by (cases opc; cases opc'; simp add: to_scalar_def)

text \<open>\<open>opcode_to_str\<close> never prints a scalar form: for the opcodes that have one, the
  scalar opcode is reported as unknown, and the scalar store as a branch.\<close>

theorem opcode_to_str_scalar:
  "opcode_to_str (to_scalar (opcode_bits opc)) =
     (case opc of
        Op_STYPE \<Rightarrow> ''beq''
      | Op_LUI \<Rightarrow> ''unknown'' | Op_AUIPC \<Rightarrow> ''unknown'' | Op_ITYPE \<Rightarrow> ''unknown''
      | Op_RTYPE \<Rightarrow> ''unknown'' | Op_LOAD \<Rightarrow> ''unknown''
      | _ \<Rightarrow> opcode_to_str (opcode_bits opc))"
  by (cases opc) (simp_all add: opcode_to_str_def to_scalar_def)

end
