(* ===== verification/Encoding.thy ===== *)
theory Encoding
  imports Isa
begin

text \<open>
  The instruction encoder of \<open>sim/simlib/instructions.hpp\<close>: \<open>struct InstructionBits\<close> with
  its setters, the format helpers \<open>create_*_instruction\<close> and the instruction constructors of
  namespace \<open>sim::instructions\<close> (here with the prefix \<open>i_\<close>). A setter takes the bits
  gathered so far and returns the new bits, or the error of the check that failed. The
  locale \<open>instruction_field\<close> states what a setter promises for the bit range it owns; every
  setter that owns one interprets it, and the format theorems rest on the interpretations.
\<close>

section \<open>Setters\<close>

definition validate_instr_id :: "string \<Rightarrow> idata \<Rightarrow> idata list \<Rightarrow> error + unit" where
  "validate_instr_id id_name i possible_ids =
     assert_or_err (i \<in> set possible_ids)
       (Error (''Unknown '' @ id_name @ '': '' @ quoted (''0b'' @ bitset7_string i)))"

definition set_opcode :: "opcode \<Rightarrow> idata \<Rightarrow> error + idata" where
  "set_opcode opc bits =
     and_then (validate_instr_id ''opcode'' (opcode_bits opc) (map opcode_bits opcodes))
       (\<lambda>_. Inr (bits OR opcode_bits opc))"

definition set_rd :: "register \<Rightarrow> idata \<Rightarrow> error + idata" where
  "set_rd rd bits =
     and_then (validate_register rd) (\<lambda>_. Inr (bits OR push_bit 7 (register_bits rd)))"

definition set_funct3 :: "funct3 \<Rightarrow> idata \<Rightarrow> error + idata" where
  "set_funct3 f bits =
     and_then (validate_instr_id ''funct3'' (funct3_bits f) (map funct3_bits funct3s))
       (\<lambda>_. Inr (bits OR push_bit 12 (funct3_bits f)))"

definition set_rs1 :: "register \<Rightarrow> idata \<Rightarrow> error + idata" where
  "set_rs1 rs1 bits =
     and_then (validate_register rs1) (\<lambda>_. Inr (bits OR push_bit 15 (register_bits rs1)))"

definition set_rs2 :: "register \<Rightarrow> idata \<Rightarrow> error + idata" where
  "set_rs2 rs2 bits =
     and_then (validate_register rs2) (\<lambda>_. Inr (bits OR push_bit 20 (register_bits rs2)))"

definition set_imm12 :: "idata \<Rightarrow> idata \<Rightarrow> error + idata" where
  "set_imm12 imm bits =
     and_then (assert_or_err (imm < 4096)
         (Error (''Invalid immediate: '' @ quoted (show_idata imm) @ '', expected 12-bit.'')))
       (\<lambda>_. Inr (bits OR push_bit 20 imm))"

definition set_funct7 :: "funct7 \<Rightarrow> idata \<Rightarrow> error + idata" where
  "set_funct7 f bits =
     and_then (validate_instr_id ''funct7'' (funct7_bits f) (map funct7_bits funct7s))
       (\<lambda>_. Inr (bits OR push_bit 25 (funct7_bits f)))"

definition set_imm20 :: "idata \<Rightarrow> idata \<Rightarrow> error + idata" where
  "set_imm20 imm20 bits =
     and_then (assert_or_err (imm20 < 1048576)
         (Error (''Invalid immediate: '' @ quoted (show_idata imm20) @ '', expected 20-bit.'')))
       (\<lambda>_. Inr (bits OR push_bit 12 imm20))"

text \<open>
  \<open>std::bitset<n>\<close> as the list of its bits, lowest first. \<open>imm21_bits\<close> is the body of
  \<open>set_imm21\<close> between the check and the final or.
\<close>

definition bitset :: "nat \<Rightarrow> idata \<Rightarrow> bool list" where
  "bitset n w = map (bit w) [0..<n]"

definition bitset_to_ulong :: "bool list \<Rightarrow> idata" where
  "bitset_to_ulong bs = horner_sum of_bool 2 bs"

definition imm21_bits :: "idata \<Rightarrow> idata" where
  "imm21_bits imm21 =
     (let imm_j = replicate 32 False;
          imm = bitset 21 imm21;
          imm_j = imm_j[31 := imm ! 20];
          imm_j = foldl (\<lambda>b i. b[i := imm ! (i - 20)]) imm_j [21..<31];
          imm_j = imm_j[20 := imm ! 11];
          imm_j = foldl (\<lambda>b i. b[i := imm ! i]) imm_j [12..<20];
          imm_j = imm_j[0 := False]
      in bitset_to_ulong imm_j)"

definition set_imm21 :: "idata \<Rightarrow> idata \<Rightarrow> error + idata" where
  "set_imm21 imm21 bits =
     and_then (assert_or_err (imm21 < 2097152)
         (Error (''Invalid immediate: '' @ quoted (show_idata imm21) @ '', expected 21-bit.'')))
       (\<lambda>_. Inr (bits OR imm21_bits imm21))"

definition make_scalar :: "idata \<Rightarrow> idata" where
  "make_scalar bits = bits OR push_bit 6 1"

definition make_vector :: "idata \<Rightarrow> idata" where
  "make_vector bits = bits AND NOT (push_bit 6 1)"

section \<open>Instruction formats\<close>

definition create_utype_instruction :: "opcode \<Rightarrow> register \<Rightarrow> idata \<Rightarrow> error + idata" where
  "create_utype_instruction opc rd imm20 =
     and_then (set_opcode opc 0) (\<lambda>b. and_then (set_rd rd b) (set_imm20 imm20))"

definition create_itype_instruction ::
    "opcode \<Rightarrow> funct3 \<Rightarrow> register \<Rightarrow> register \<Rightarrow> idata \<Rightarrow> error + idata" where
  "create_itype_instruction opc f3 rd rs1 imm12 =
     and_then (set_opcode opc 0) (\<lambda>b. and_then (set_funct3 f3 b) (\<lambda>b. and_then (set_rd rd b)
       (\<lambda>b. and_then (set_rs1 rs1 b) (set_imm12 imm12))))"

definition create_itype_shift_instruction ::
    "opcode \<Rightarrow> funct3 \<Rightarrow> funct7 \<Rightarrow> register \<Rightarrow> register \<Rightarrow> idata \<Rightarrow> error + idata" where
  "create_itype_shift_instruction opc f3 f7 rd rs1 imm12 =
     and_then (assert_or_err (imm12 < 32)
         (Error (''Invalid immediate: '' @ quoted (show_idata imm12)
           @ '', expected 5-bit immediate in shift instruction.'')))
       (\<lambda>_. and_then (set_opcode opc 0) (\<lambda>b. and_then (set_funct3 f3 b)
         (\<lambda>b. and_then (set_funct7 f7 b) (\<lambda>b. and_then (set_rd rd b)
           (\<lambda>b. and_then (set_rs1 rs1 b) (set_imm12 imm12))))))"

definition create_rtype_instruction ::
    "opcode \<Rightarrow> funct3 \<Rightarrow> funct7 \<Rightarrow> register \<Rightarrow> register \<Rightarrow> register \<Rightarrow> error + idata" where
  "create_rtype_instruction opc f3 f7 rd rs1 rs2 =
     and_then (set_opcode opc 0) (\<lambda>b. and_then (set_funct3 f3 b)
       (\<lambda>b. and_then (set_funct7 f7 b) (\<lambda>b. and_then (set_rd rd b)
         (\<lambda>b. and_then (set_rs1 rs1 b) (set_rs2 rs2)))))"

definition create_jtype_instruction :: "opcode \<Rightarrow> register \<Rightarrow> idata \<Rightarrow> error + idata" where
  "create_jtype_instruction opc rd imm21 =
     and_then (set_opcode opc 0) (\<lambda>b. and_then (set_rd rd b) (set_imm21 imm21))"

text \<open>The source leaves the branch format unimplemented: it returns empty bits.\<close>

definition create_btype_instruction ::
    "opcode \<Rightarrow> funct3 \<Rightarrow> register \<Rightarrow> register \<Rightarrow> idata \<Rightarrow> error + idata" where
  "create_btype_instruction opc f3 rs1 rs2 imm12 = Inr 0"

definition create_stype_instruction ::
    "opcode \<Rightarrow> funct3 \<Rightarrow> register \<Rightarrow> register \<Rightarrow> idata \<Rightarrow> error + idata" where
  "create_stype_instruction opc f3 rs1 rs2 imm12 =
     and_then (set_opcode opc 0) (\<lambda>b. and_then (set_funct3 f3 b) (\<lambda>b. and_then (set_rs1 rs1 b)
       (\<lambda>b. and_then (set_rs2 rs2 b) (set_imm12 imm12))))"

section \<open>Instruction constructors\<close>

definition i_lui :: "register \<Rightarrow> idata \<Rightarrow> error + idata" where
  "i_lui rd imm20 = create_utype_instruction Op_LUI rd imm20"

definition i_auipc :: "register \<Rightarrow> idata \<Rightarrow> error + idata" where
  "i_auipc rd imm20 = create_utype_instruction Op_AUIPC rd imm20"

definition i_addi :: "register \<Rightarrow> register \<Rightarrow> idata \<Rightarrow> error + idata" where
  "i_addi rd rs1 imm12 = create_itype_instruction Op_ITYPE F3_ADDI rd rs1 imm12"

definition i_slti :: "register \<Rightarrow> register \<Rightarrow> idata \<Rightarrow> error + idata" where
  "i_slti rd rs1 imm12 = create_itype_instruction Op_ITYPE F3_SLTI rd rs1 imm12"

definition i_xori :: "register \<Rightarrow> register \<Rightarrow> idata \<Rightarrow> error + idata" where
  "i_xori rd rs1 imm = create_itype_instruction Op_ITYPE F3_XORI rd rs1 imm"

definition i_ori :: "register \<Rightarrow> register \<Rightarrow> idata \<Rightarrow> error + idata" where
  "i_ori rd rs1 imm = create_itype_instruction Op_ITYPE F3_ORI rd rs1 imm"

definition i_andi :: "register \<Rightarrow> register \<Rightarrow> idata \<Rightarrow> error + idata" where
  "i_andi rd rs1 imm = create_itype_instruction Op_ITYPE F3_ANDI rd rs1 imm"

definition i_slli :: "register \<Rightarrow> register \<Rightarrow> idata \<Rightarrow> error + idata" where
  "i_slli rd rs1 imm = create_itype_shift_instruction Op_ITYPE F3_SLLI F7_SLLI rd rs1 imm"

definition i_srli :: "register \<Rightarrow> register \<Rightarrow> idata \<Rightarrow> error + idata" where
  "i_srli rd rs1 imm = create_itype_shift_instruction Op_ITYPE F3_SRLI F7_SRLI rd rs1 imm"

definition i_srai :: "register \<Rightarrow> register \<Rightarrow> idata \<Rightarrow> error + idata" where
  "i_srai rd rs1 imm = create_itype_shift_instruction Op_ITYPE F3_SRAI F7_SRAI rd rs1 imm"

definition i_add :: "register \<Rightarrow> register \<Rightarrow> register \<Rightarrow> error + idata" where
  "i_add rd rs1 rs2 = create_rtype_instruction Op_RTYPE F3_ADD F7_ADD rd rs1 rs2"

definition i_sub :: "register \<Rightarrow> register \<Rightarrow> register \<Rightarrow> error + idata" where
  "i_sub rd rs1 rs2 = create_rtype_instruction Op_RTYPE F3_SUB F7_SUB rd rs1 rs2"

definition i_sll :: "register \<Rightarrow> register \<Rightarrow> register \<Rightarrow> error + idata" where
  "i_sll rd rs1 rs2 = create_rtype_instruction Op_RTYPE F3_SLL F7_SLL rd rs1 rs2"

definition i_slt :: "register \<Rightarrow> register \<Rightarrow> register \<Rightarrow> error + idata" where
  "i_slt rd rs1 rs2 = create_rtype_instruction Op_RTYPE F3_SLT F7_SLT rd rs1 rs2"

definition i_xor :: "register \<Rightarrow> register \<Rightarrow> register \<Rightarrow> error + idata" where
  "i_xor rd rs1 rs2 = create_rtype_instruction Op_RTYPE F3_XOR F7_XOR rd rs1 rs2"

definition i_srl :: "register \<Rightarrow> register \<Rightarrow> register \<Rightarrow> error + idata" where
  "i_srl rd rs1 rs2 = create_rtype_instruction Op_RTYPE F3_SRL F7_SRL rd rs1 rs2"

definition i_sra :: "register \<Rightarrow> register \<Rightarrow> register \<Rightarrow> error + idata" where
  "i_sra rd rs1 rs2 = create_rtype_instruction Op_RTYPE F3_SRA F7_SRA rd rs1 rs2"

definition i_or :: "register \<Rightarrow> register \<Rightarrow> register \<Rightarrow> error + idata" where
  "i_or rd rs1 rs2 = create_rtype_instruction Op_RTYPE F3_OR F7_OR rd rs1 rs2"

definition i_and :: "register \<Rightarrow> register \<Rightarrow> register \<Rightarrow> error + idata" where
  "i_and rd rs1 rs2 = create_rtype_instruction Op_RTYPE F3_AND F7_AND rd rs1 rs2"

definition i_lb :: "register \<Rightarrow> register \<Rightarrow> idata \<Rightarrow> error + idata" where
  "i_lb rd rs1 imm12 = create_itype_instruction Op_LOAD F3_LB rd rs1 imm12"

definition i_lh :: "register \<Rightarrow> register \<Rightarrow> idata \<Rightarrow> error + idata" where
  "i_lh rd rs1 imm12 = create_itype_instruction Op_LOAD F3_LH rd rs1 imm12"

definition i_lw :: "register \<Rightarrow> register \<Rightarrow> idata \<Rightarrow> error + idata" where
  "i_lw rd rs1 imm12 = create_itype_instruction Op_LOAD F3_LW rd rs1 imm12"

definition i_sb :: "register \<Rightarrow> register \<Rightarrow> idata \<Rightarrow> error + idata" where
  "i_sb rs1 rs2 imm12 = create_stype_instruction Op_STYPE F3_SB rs1 rs2 imm12"

definition i_sh :: "register \<Rightarrow> register \<Rightarrow> idata \<Rightarrow> error + idata" where
  "i_sh rs1 rs2 imm12 = create_stype_instruction Op_STYPE F3_SH rs1 rs2 imm12"

definition i_sw :: "register \<Rightarrow> register \<Rightarrow> idata \<Rightarrow> error + idata" where
  "i_sw rs1 rs2 imm12 = create_stype_instruction Op_STYPE F3_SW rs1 rs2 imm12"

definition i_jal :: "register \<Rightarrow> idata \<Rightarrow> error + idata" where
  "i_jal rd imm21 = create_jtype_instruction Op_JTYPE rd imm21"

definition i_jalr :: "register \<Rightarrow> register \<Rightarrow> idata \<Rightarrow> error + idata" where
  "i_jalr rd rs1 imm12 = create_itype_instruction Op_JALR F3_JALR rd rs1 imm12"

definition i_beq :: "register \<Rightarrow> register \<Rightarrow> idata \<Rightarrow> error + idata" where
  "i_beq rs1 rs2 imm12 = create_btype_instruction Op_BTYPE F3_BEQ rs1 rs2 imm12"

definition i_bne :: "register \<Rightarrow> register \<Rightarrow> idata \<Rightarrow> error + idata" where
  "i_bne rs1 rs2 imm12 = create_btype_instruction Op_BTYPE F3_BNE rs1 rs2 imm12"

definition i_blt :: "register \<Rightarrow> register \<Rightarrow> idata \<Rightarrow> error + idata" where
  "i_blt rs1 rs2 imm12 = create_btype_instruction Op_BTYPE F3_BLT rs1 rs2 imm12"

definition i_bge :: "register \<Rightarrow> register \<Rightarrow> idata \<Rightarrow> error + idata" where
  "i_bge rs1 rs2 imm12 = create_btype_instruction Op_BTYPE F3_BGE rs1 rs2 imm12"

definition i_halt :: "error + idata" where
  "i_halt = set_opcode Op_HALT 0"

definition i_sx_slt :: "register \<Rightarrow> register \<Rightarrow> register \<Rightarrow> error + idata" where
  "i_sx_slt rd rs1 rs2 = create_rtype_instruction Op_SX_SLT F3_SLT F7_SLT rd rs1 rs2"

definition i_sx_slti :: "register \<Rightarrow> register \<Rightarrow> idata \<Rightarrow> error + idata" where
  "i_sx_slti rd rs1 imm12 = create_itype_instruction Op_SX_SLTI F3_SLTI rd rs1 imm12"

section \<open>Bit fields\<close>

text \<open>The \<open>wd\<close> bits of a word from bit \<open>lo\<close> on, as a number.\<close>

definition field :: "nat \<Rightarrow> nat \<Rightarrow> idata \<Rightarrow> idata" where
  "field lo wd w = take_bit wd (drop_bit lo w)"

lemma bit_field_iff [bit_simps]: "bit (field lo wd w) n \<longleftrightarrow> n < wd \<and> bit w (lo + n)"
  by (auto simp: field_def bit_simps)

lemma field_0 [simp]: "field lo wd 0 = 0"
  by (simp add: field_def)

lemma field_full [simp]: "field 0 32 w = w"
  by (rule bit_word_eqI) (simp add: bit_simps)

lemma field_or: "field lo wd (v OR w) = field lo wd v OR field lo wd w"
  by (rule bit_word_eqI) (auto simp: bit_simps)

lemma field_push_same:
  assumes "take_bit wd v = v" and "lo + wd \<le> 32"
  shows "field lo wd (push_bit lo v) = v"
proof (rule bit_word_eqI)
  fix n assume "n < LENGTH(32)"
  have "bit v n \<longleftrightarrow> bit (take_bit wd v) n" using assms(1) by simp
  then show "bit (field lo wd (push_bit lo v)) n \<longleftrightarrow> bit v n"
    using assms(2) by (auto simp: bit_simps)
qed

lemma field_push_other:
  assumes "take_bit wd v = v" and "lo' + wd' \<le> lo \<or> lo + wd \<le> lo'"
  shows "field lo' wd' (push_bit lo v) = 0"
proof (rule bit_word_eqI)
  fix n assume "n < LENGTH(32)"
  have "bit v i \<Longrightarrow> i < wd" for i
    using assms(1) by (metis bit_take_bit_iff)
  then show "bit (field lo' wd' (push_bit lo v)) n \<longleftrightarrow> bit (0 :: idata) n"
    using assms(2) by (fastforce simp: bit_simps)
qed

lemma field_split:
  "field lo (a + b) v = field lo (a + b) w \<longleftrightarrow>
     field lo a v = field lo a w \<and> field (lo + a) b v = field (lo + a) b w"
  (is "?l \<longleftrightarrow> ?r")
proof
  assume l: ?l
  have "bit v (lo + n) = bit w (lo + n)" if "n < a + b" for n
    using l that by (metis bit_field_iff)
  then show ?r
    by (intro conjI bit_word_eqI) (auto simp: bit_simps add.assoc)
next
  assume r: ?r
  have "bit v (lo + n) = bit w (lo + n)" if "n < a + b" for n
  proof (cases "n < a")
    case True
    then show ?thesis using r by (metis bit_field_iff)
  next
    case False
    then have "n - a < b" "lo + a + (n - a) = lo + n" using that by auto
    then show ?thesis using r by (metis bit_field_iff)
  qed
  then show ?l
    by (intro bit_word_eqI) (auto simp: bit_simps)
qed

section \<open>The contract of a setter\<close>

text \<open>
  A setter owns the \<open>wd\<close> bits from bit \<open>lo\<close> on: it accepts the values \<open>ok\<close>, writes
  \<open>val v\<close> into its bits and leaves every other bit as it was.
\<close>

locale instruction_field =
  fixes put :: "'v \<Rightarrow> idata \<Rightarrow> error + idata"
    and val :: "'v \<Rightarrow> idata"
    and ok :: "'v \<Rightarrow> bool"
    and lo wd :: nat
  assumes fits: "lo + wd \<le> 32"
    and put_ok: "ok v \<Longrightarrow> put v w = Inr (w OR push_bit lo (val v))"
    and put_err: "\<not> ok v \<Longrightarrow> \<exists>e. put v w = Inl e"
    and val_width: "ok v \<Longrightarrow> take_bit wd (val v) = val v"
begin

lemma put_Inr_iff: "put v w = Inr w' \<longleftrightarrow> ok v \<and> w' = w OR push_bit lo (val v)"
  using put_ok [of v w] put_err [of v w] by (cases "ok v") auto

lemma field_val: "ok v \<Longrightarrow> field lo wd (push_bit lo (val v)) = val v"
  by (simp add: field_push_same val_width fits)

lemma field_val_other:
  "ok v \<Longrightarrow> lo' + wd' \<le> lo \<or> lo + wd \<le> lo' \<Longrightarrow> field lo' wd' (push_bit lo (val v)) = 0"
  using field_push_other [OF val_width] by blast

lemma get_put: "put v w = Inr w' \<Longrightarrow> field lo wd w = 0 \<Longrightarrow> field lo wd w' = val v"
  by (simp add: put_Inr_iff field_or field_val)

lemma get_put_other:
  "put v w = Inr w' \<Longrightarrow> lo' + wd' \<le> lo \<or> lo + wd \<le> lo' \<Longrightarrow> field lo' wd' w' = field lo' wd' w"
  by (auto simp: put_Inr_iff field_or field_val_other)

end

section \<open>The setters satisfy it\<close>

lemma take_bit_unat_less: "unat (v :: idata) < 2 ^ n \<Longrightarrow> take_bit n v = v"
  by (simp add: word_unat_eq_iff unsigned_take_bit_eq take_bit_nat_eq_self)

lemma opcode_width: "take_bit 7 (opcode_bits opc) = opcode_bits opc"
  by (cases opc) simp_all

lemma funct3_width: "take_bit 3 (funct3_bits f) = funct3_bits f"
  by (cases f) simp_all

lemma funct7_width: "take_bit 7 (funct7_bits f) = funct7_bits f"
  by (cases f) simp_all

lemma register_width: "validate r \<Longrightarrow> take_bit 5 (register_bits r) = register_bits r"
  by (rule take_bit_unat_less) (simp add: validate_def register_bits_def word_less_nat_alt)

lemma imm12_width: "(imm :: idata) < 4096 \<Longrightarrow> take_bit 12 imm = imm"
  by (rule take_bit_unat_less) (simp add: word_less_nat_alt)

lemma imm20_width: "(imm :: idata) < 1048576 \<Longrightarrow> take_bit 20 imm = imm"
  by (rule take_bit_unat_less) (simp add: word_less_nat_alt)

lemma opcode_known: "opcode_bits opc \<in> set (map opcode_bits opcodes)"
  by (cases opc) (simp_all add: opcodes_def)

lemma funct3_known: "funct3_bits f \<in> set (map funct3_bits funct3s)"
  by (cases f) (simp_all add: funct3s_def)

lemma funct7_known: "funct7_bits f \<in> set (map funct7_bits funct7s)"
  by (cases f) (simp_all add: funct7s_def)

lemmas setter_defs =
  set_opcode_def set_rd_def set_funct3_def set_rs1_def set_rs2_def set_imm12_def set_funct7_def
  set_imm20_def set_imm21_def validate_register_def validate_instr_id_def assert_or_err_def

lemmas field_facts =
  opcode_width funct3_width funct7_width register_width imm12_width imm20_width
  opcode_known funct3_known funct7_known

interpretation opc: instruction_field set_opcode opcode_bits "\<lambda>_. True" 0 7
  by unfold_locales (simp_all add: setter_defs field_facts del: set_map)

interpretation rd: instruction_field set_rd register_bits validate 7 5
  by unfold_locales (simp_all add: setter_defs field_facts)

interpretation f3: instruction_field set_funct3 funct3_bits "\<lambda>_. True" 12 3
  by unfold_locales (simp_all add: setter_defs field_facts del: set_map)

interpretation rs1: instruction_field set_rs1 register_bits validate 15 5
  by unfold_locales (simp_all add: setter_defs field_facts)

interpretation rs2: instruction_field set_rs2 register_bits validate 20 5
  by unfold_locales (simp_all add: setter_defs field_facts)

interpretation imm12: instruction_field set_imm12 "\<lambda>imm. imm" "\<lambda>imm. imm < 4096" 20 12
  by unfold_locales (simp_all add: setter_defs field_facts)

interpretation f7: instruction_field set_funct7 funct7_bits "\<lambda>_. True" 25 7
  by unfold_locales (simp_all add: setter_defs field_facts del: set_map)

interpretation imm20: instruction_field set_imm20 "\<lambda>imm. imm" "\<lambda>imm. imm < 1048576" 12 20
  by unfold_locales (simp_all add: setter_defs field_facts)

lemmas put_iffs =
  opc.put_Inr_iff rd.put_Inr_iff f3.put_Inr_iff rs1.put_Inr_iff rs2.put_Inr_iff
  imm12.put_Inr_iff f7.put_Inr_iff imm20.put_Inr_iff

lemmas field_vals [field_simps_bits] =
  opc.field_val [simplified] rd.field_val f3.field_val [simplified] rs1.field_val rs2.field_val
  imm12.field_val f7.field_val [simplified] imm20.field_val

lemmas field_vals_other [field_simps_bits] =
  opc.field_val_other [simplified] rd.field_val_other f3.field_val_other [simplified]
  rs1.field_val_other rs2.field_val_other imm12.field_val_other
  f7.field_val_other [simplified] imm20.field_val_other

declare field_or [field_simps_bits]

lemmas create_defs =
  create_utype_instruction_def create_itype_instruction_def create_itype_shift_instruction_def
  create_rtype_instruction_def create_jtype_instruction_def create_stype_instruction_def

section \<open>The formats\<close>

lemma itype_parts:
  "v = w \<longleftrightarrow> field 0 7 v = field 0 7 w \<and> field 7 5 v = field 7 5 w \<and> field 12 3 v = field 12 3 w
     \<and> field 15 5 v = field 15 5 w \<and> field 20 12 v = field 20 12 w"
  using field_split [of 0 7 25 v w] field_split [of 7 5 20 v w] field_split [of 12 3 17 v w]
    field_split [of 15 5 12 v w] by simp

lemma create_itype_instruction_bits:
  "create_itype_instruction opc f3 rd rs1 imm = Inr w \<longleftrightarrow>
     validate rd \<and> validate rs1 \<and> imm < 4096 \<and>
     w = opcode_bits opc OR (push_bit 12 (funct3_bits f3) OR (push_bit 7 (register_bits rd)
       OR (push_bit 15 (register_bits rs1) OR push_bit 20 imm)))"
  by (auto simp: create_defs and_then_Inr_iff put_iffs or.assoc)

text \<open>An I-type word is accepted exactly when its registers and its 12-bit immediate are
  in range, and it is the one word whose five fields are the operands.\<close>

lemma create_itype_instruction_iff:
  "create_itype_instruction opc f3 rd rs1 imm = Inr w \<longleftrightarrow>
     validate rd \<and> validate rs1 \<and> imm < 4096
     \<and> field 0 7 w = opcode_bits opc \<and> field 7 5 w = register_bits rd
     \<and> field 12 3 w = funct3_bits f3 \<and> field 15 5 w = register_bits rs1 \<and> field 20 12 w = imm"
  by (cases "validate rd \<and> validate rs1 \<and> imm < 4096")
    (auto simp: create_itype_instruction_bits itype_parts [of w] field_simps_bits)

lemma rtype_parts:
  "v = w \<longleftrightarrow> field 0 7 v = field 0 7 w \<and> field 7 5 v = field 7 5 w \<and> field 12 3 v = field 12 3 w
     \<and> field 15 5 v = field 15 5 w \<and> field 20 5 v = field 20 5 w \<and> field 25 7 v = field 25 7 w"
  using itype_parts [of v w] field_split [of 20 5 7 v w] by simp

text \<open>An R-type word is accepted exactly when its three registers are in range, and it is
  the one word whose six fields are the operands.\<close>

lemma create_rtype_instruction_iff:
  "create_rtype_instruction opc f3 f7 rd rs1 rs2 = Inr w \<longleftrightarrow>
     validate rd \<and> validate rs1 \<and> validate rs2
     \<and> field 0 7 w = opcode_bits opc \<and> field 7 5 w = register_bits rd
     \<and> field 12 3 w = funct3_bits f3 \<and> field 15 5 w = register_bits rs1
     \<and> field 20 5 w = register_bits rs2 \<and> field 25 7 w = funct7_bits f7"
  by (cases "validate rd \<and> validate rs1 \<and> validate rs2")
    (auto simp: create_defs and_then_Inr_iff put_iffs rtype_parts [of w] field_simps_bits)

lemma utype_parts:
  "v = w \<longleftrightarrow> field 0 7 v = field 0 7 w \<and> field 7 5 v = field 7 5 w \<and> field 12 20 v = field 12 20 w"
  using field_split [of 0 7 25 v w] field_split [of 7 5 20 v w] by simp

text \<open>A U-type word is accepted exactly when its register and its 20-bit immediate are in
  range, and it is the one word whose three fields are the operands.\<close>

lemma create_utype_instruction_iff:
  "create_utype_instruction opc rd imm = Inr w \<longleftrightarrow>
     validate rd \<and> imm < 1048576
     \<and> field 0 7 w = opcode_bits opc \<and> field 7 5 w = register_bits rd \<and> field 12 20 w = imm"
  by (cases "validate rd \<and> imm < 1048576")
    (auto simp: create_defs and_then_Inr_iff put_iffs utype_parts [of w] field_simps_bits)

text \<open>A store word has the base register, opcode and funct3 in place, but the immediate
  is or-ed into the same bits as the source register and the low immediate field stays 0.\<close>

lemma create_stype_instruction_iff:
  "create_stype_instruction opc f3 rs1 rs2 imm = Inr w \<longleftrightarrow>
     validate rs1 \<and> validate rs2 \<and> imm < 4096
     \<and> field 0 7 w = opcode_bits opc \<and> field 7 5 w = 0
     \<and> field 12 3 w = funct3_bits f3 \<and> field 15 5 w = register_bits rs1
     \<and> field 20 12 w = register_bits rs2 OR imm"
proof (cases "validate rs1 \<and> validate rs2 \<and> imm < 4096")
  case True
  then have "field 20 12 (push_bit 20 (register_bits rs2)) = register_bits rs2"
    by (intro field_push_same take_bit_unat_less)
      (simp_all add: validate_def register_bits_def word_less_nat_alt)
  with True show ?thesis
    by (auto simp: create_defs and_then_Inr_iff put_iffs itype_parts [of w] field_simps_bits)
qed (auto simp: create_defs and_then_Inr_iff put_iffs)

text \<open>A shift-immediate word is accepted exactly when its registers are in range and the
  shift amount is below 32; funct7 sits above the 5-bit amount, so the two do not overlap.\<close>

theorem create_itype_shift_instruction_iff:
  "create_itype_shift_instruction opc f3 f7 rd rs1 imm = Inr w \<longleftrightarrow>
     validate rd \<and> validate rs1 \<and> imm < 32
     \<and> field 0 7 w = opcode_bits opc \<and> field 7 5 w = register_bits rd
     \<and> field 12 3 w = funct3_bits f3 \<and> field 15 5 w = register_bits rs1
     \<and> field 20 5 w = imm \<and> field 25 7 w = funct7_bits f7"
proof (cases "validate rd \<and> validate rs1 \<and> imm < 32")
  case True
  then have imm: "imm < 4096" "take_bit 5 imm = imm"
    by (auto intro!: take_bit_unat_less simp: word_less_nat_alt)
  then have "field 20 5 (push_bit 20 imm) = imm" "field 25 7 (push_bit 20 imm) = 0"
    by (simp_all add: field_push_same field_push_other)
  with True imm show ?thesis
    by (auto simp: create_defs and_then_Inr_iff put_iffs rtype_parts [of w] field_simps_bits)
qed (auto simp: create_defs and_then_Inr_iff put_iffs)

lemma length_foldl_update [simp]: "length (foldl (\<lambda>b i. b[i := f i]) b xs) = length b"
  by (induction xs arbitrary: b) simp_all

lemma nth_foldl_update:
  "n < length b \<Longrightarrow> u \<le> length b \<Longrightarrow>
     foldl (\<lambda>b i. b[i := f i]) b [l..<u] ! n = (if l \<le> n \<and> n < u then f n else b ! n)"
  by (induction u) (auto simp: nth_list_update)

lemma bit_imm21_bits:
  "bit (imm21_bits v) n \<longleftrightarrow>
     n = 31 \<and> bit v 20 \<or> 21 \<le> n \<and> n \<le> 30 \<and> bit v (n - 20) \<or> n = 20 \<and> bit v 11
     \<or> 12 \<le> n \<and> n \<le> 19 \<and> bit v n"
proof -
  have "bit (imm21_bits v) n \<longleftrightarrow> n < 32 \<and> bit (imm21_bits v) n"
    using bit_imp_le_length by fastforce
  then show ?thesis
    by (auto simp: imm21_bits_def bitset_to_ulong_def bitset_def bit_horner_sum_bit_word_iff Let_def
      nth_list_update nth_foldl_update split: if_splits simp del: upt_rec_numeral)
qed

lemma imm21_fields:
  "field 31 1 (imm21_bits v) = field 20 1 v" "field 21 10 (imm21_bits v) = field 1 10 v"
  "field 20 1 (imm21_bits v) = field 11 1 v" "field 12 8 (imm21_bits v) = field 12 8 v"
  "field 0 7 (imm21_bits v) = 0" "field 7 5 (imm21_bits v) = 0" 
  by (auto intro!: bit_word_eqI simp: bit_simps bit_imm21_bits)

lemma jtype_parts:
  "v = w \<longleftrightarrow> field 0 7 v = field 0 7 w \<and> field 7 5 v = field 7 5 w \<and> field 12 8 v = field 12 8 w
     \<and> field 20 1 v = field 20 1 w \<and> field 21 10 v = field 21 10 w \<and> field 31 1 v = field 31 1 w"
  using utype_parts [of v w] field_split [of 12 8 12 v w] field_split [of 20 1 11 v w]
    field_split [of 21 10 1 v w] by simp

text \<open>A J-type word is accepted exactly when its register and its 21-bit immediate are in
  range; the immediate is scattered over bits 12 to 31 in the RISC-V order, without bit 0.\<close>

lemma create_jtype_instruction_iff:
  "create_jtype_instruction opc rd imm21 = Inr w \<longleftrightarrow>
     validate rd \<and> imm21 < 2097152
     \<and> field 0 7 w = opcode_bits opc \<and> field 7 5 w = register_bits rd
     \<and> field 31 1 w = field 20 1 imm21 \<and> field 21 10 w = field 1 10 imm21
     \<and> field 20 1 w = field 11 1 imm21 \<and> field 12 8 w = field 12 8 imm21"
proof -
  have "create_jtype_instruction opc rd imm21 = Inr w \<longleftrightarrow>
     validate rd \<and> imm21 < 2097152 \<and>
     w = opcode_bits opc OR (push_bit 7 (register_bits rd) OR imm21_bits imm21)"
    by (auto simp: create_defs set_imm21_def and_then_Inr_iff put_iffs or.assoc)
  then show ?thesis
    by (cases "validate rd")
      (auto simp: jtype_parts [of w] field_simps_bits imm21_fields simp del: One_nat_def)
qed

lemma bit_push_6_1: "bit (push_bit 6 (1 :: idata)) n \<longleftrightarrow> n = 6"
  by (subst bit_push_bit_iff) (auto simp: bit_1_iff)

text \<open>\<open>make_scalar\<close> and \<open>make_vector\<close> set and clear the scalar bit, undo each other and
  leave the other 31 bits alone.\<close>

theorem make_scalar_vector:
  "is_scalar (make_scalar w) \<and> is_vector (make_vector w)
   \<and> make_vector (make_scalar w) = make_vector w \<and> make_scalar (make_vector w) = make_scalar w
   \<and> field 0 6 (make_scalar w) = field 0 6 w \<and> field 7 25 (make_scalar w) = field 7 25 w
   \<and> field 0 6 (make_vector w) = field 0 6 w \<and> field 7 25 (make_vector w) = field 7 25 w"
proof -
  have s: "bit (make_scalar w) n \<longleftrightarrow> bit w n \<or> n = 6" for w n
    unfolding make_scalar_def bit_or_iff bit_push_6_1 ..
  have v: "bit (make_vector w) n \<longleftrightarrow> bit w n \<and> n \<noteq> 6" for w n
    unfolding make_vector_def bit_and_iff bit_not_iff bit_push_6_1
    by (auto dest: bit_imp_le_length)
  show ?thesis
    by (auto simp: is_vector_def is_scalar_iff_bit s v bit_simps intro!: bit_word_eqI)
qed

end
