(* ===== verification/Numbers.thy ===== *)
theory Numbers
  imports Isa
begin

text \<open>
  The character classes of \<open>sim/aslib/common.hpp\<close> and the readers of
  \<open>sim/aslib/parser_utils.cpp\<close>: integer literals and register names. A reader takes the
  characters left of the source and returns its result with what is left, so that it shows
  how much it consumed when it fails, too: the lexer keeps the shortened source either way.
  Characters are compared as numbers; C++ \<open>char\<close> may be negative above 127, the model's is
  not, and both fall outside every class tested here.
\<close>

section \<open>Character classes\<close>

definition is_whitespace :: "char \<Rightarrow> bool" where
  "is_whitespace c \<longleftrightarrow> c = CHR '' '' \<or> c = CHR 0x09 \<or> c = CHR 0x0A \<or> c = CHR 0x0D"

definition is_numeric :: "char \<Rightarrow> int \<Rightarrow> bool" where
  "is_numeric c base =
     (if base > 1 \<and> base \<le> 10 then
        ord c \<ge> ord CHR ''0'' \<and> ord c < ord CHR ''0'' + base
      else if base \<le> 10 + 26 then
        (ord c \<ge> ord CHR ''0'' \<and> ord c \<le> ord CHR ''9'')
        \<or> (ord c \<ge> ord CHR ''A'' \<and> ord c < ord CHR ''A'' + base - 10)
        \<or> (ord c \<ge> ord CHR ''a'' \<and> ord c < ord CHR ''a'' + base - 10)
      else False)"

definition is_lowercase_alphabetic :: "char \<Rightarrow> bool" where
  "is_lowercase_alphabetic c \<longleftrightarrow> ord c \<ge> ord CHR ''a'' \<and> ord c \<le> ord CHR ''z''"

definition is_uppercase_alphabetic :: "char \<Rightarrow> bool" where
  "is_uppercase_alphabetic c \<longleftrightarrow> ord c \<ge> ord CHR ''A'' \<and> ord c \<le> ord CHR ''Z''"

definition is_alphabetic :: "char \<Rightarrow> bool" where
  "is_alphabetic c \<longleftrightarrow> is_lowercase_alphabetic c \<or> is_uppercase_alphabetic c"

definition is_alphanumeric :: "char \<Rightarrow> int \<Rightarrow> bool" where
  "is_alphanumeric c base \<longleftrightarrow> is_alphabetic c \<or> is_numeric c base"

definition is_label_char :: "char \<Rightarrow> bool" where
  "is_label_char c \<longleftrightarrow> is_alphanumeric c 10 \<or> c = CHR ''_''"

definition trim_line :: "string \<Rightarrow> string" where
  "trim_line ln = rev (dropWhile is_whitespace (rev (dropWhile is_whitespace ln)))"

section \<open>Integer literals\<close>

text \<open>
  The loop of \<open>parse_integral\<close>: it runs over the characters that are hexadecimal digits and
  stops with \<open>Inl i\<close> at the first one that is not a digit of the base, or with \<open>Inr i\<close> at
  the end of the run.
\<close>

fun scan_digits :: "int \<Rightarrow> nat \<Rightarrow> string \<Rightarrow> nat + nat" where
  "scan_digits base i [] = Inr i"
| "scan_digits base i (c # cs) =
     (if is_numeric c 16
      then if \<not> is_numeric c base then Inl i else scan_digits base (Suc i) cs
      else Inr i)"

definition parse_integral :: "int \<Rightarrow> bool \<Rightarrow> string \<Rightarrow> (error + word_type) \<times> string" where
  "parse_integral base is_negative source =
     (case scan_digits base 0 source of
        Inl i \<Rightarrow>
          (let failing_part = take (i + 1) source; digit = source ! i
           in (Inl (Error (''Failed to parse number: '' @ quoted failing_part
                 @ '': Invalid digit '' @ quoted [digit] @ '' for base '' @ show_int base)),
               drop i source))
      | Inr i \<Rightarrow>
          (case from_chars base (take i source) of
             Inl ec \<Rightarrow>
               (Inl (Error (''Failed to parse number '' @ quoted (take i source)
                  @ '': '' @ errc_message ec)), source)
           | Inr (result, unread) \<Rightarrow>
               (Inr (if is_negative then - result else result),
                drop (i - length unread) source)))"

definition parse_num :: "string \<Rightarrow> (error + word_type) \<times> string" where
  "parse_num source =
     (if source = [] then (Inl (Error (''Expected a number, found '' @ quoted [])), source)
      else
        let is_negative = (source ! 0 = CHR ''-'');
            source = (if is_negative then drop 1 source else source)
        in if source = [] then (Inl (Error (''Expected a number, found '' @ quoted ''-'')), source)
           else if source ! 0 = CHR ''0'' \<and> length source > 1 then
             (if source ! 1 = CHR ''x'' \<or> source ! 1 = CHR ''X''
              then parse_integral 16 is_negative (drop 2 source)
              else if source ! 1 = CHR ''b'' \<or> source ! 1 = CHR ''B''
              then parse_integral 2 is_negative (drop 2 source)
              else parse_integral 8 is_negative source)
           else parse_integral 10 is_negative source)"

section \<open>Register names\<close>

definition str_check_predicate :: "string \<Rightarrow> (char \<Rightarrow> bool) \<Rightarrow> bool" where
  "str_check_predicate str predicate = list_all predicate str"

definition str_to_reg :: "string \<Rightarrow> error + register" where
  "str_to_reg str =
     (if length str < 2 then Inl (Error (''Invalid register name: '' @ quoted str))
      else if str ! 0 \<noteq> CHR ''x'' \<and> str ! 0 \<noteq> CHR ''s''
      then Inl (Error (''Invalid register name: '' @ quoted str))
      else
        let reg_type = (if str ! 0 = CHR ''x'' then VECTOR else SCALAR);
            reg_num_str = drop 1 str
        in case from_chars 10 reg_num_str of
             Inl ec \<Rightarrow> Inl (Error (''Failed to parse register number '' @ quoted reg_num_str
                         @ '': '' @ errc_message ec))
           | Inr (reg_num, unread) \<Rightarrow> Inr \<lparr>register_number = reg_num, type = reg_type\<rparr>)"

section \<open>The readers' loops in closed form\<close>

definition hex_run :: "string \<Rightarrow> string" where
  "hex_run source = takeWhile (\<lambda>c. is_numeric c 16) source"

abbreviation literal_bases :: "int set" where
  "literal_bases \<equiv> {2, 8, 10, 16}"

lemma ord_simps [simp]:
  "ord CHR ''0'' = 48" "ord CHR ''9'' = 57" "ord CHR ''A'' = 65" "ord CHR ''Z'' = 90"
  "ord CHR ''a'' = 97" "ord CHR ''z'' = 122"
  by (simp_all add: ord_def)

lemma is_numeric_is_base_digit:
  "base \<in> literal_bases \<Longrightarrow> is_base_digit base c = is_numeric c base"
  by (auto simp: is_numeric_def is_base_digit_def digit_value_def)

lemma is_numeric_hex: "base \<in> literal_bases \<Longrightarrow> is_numeric c base \<Longrightarrow> is_numeric c 16"
  by (auto simp: is_numeric_def)

lemma scan_digits_eq:
  "base \<in> literal_bases \<Longrightarrow> scan_digits base i cs =
     (if list_all (\<lambda>c. is_numeric c base) (hex_run cs) then Inr (i + length (hex_run cs))
      else Inl (i + length (takeWhile (\<lambda>c. is_numeric c base) cs)))"
  by (induction cs arbitrary: i) (auto simp: hex_run_def dest: is_numeric_hex)

lemma take_hex_run: "take (length (hex_run src)) src = hex_run src"
  unfolding hex_run_def by (rule takeWhile_eq_take [symmetric])

lemma drop_hex_run: "drop (length (hex_run src)) src = dropWhile (\<lambda>c. is_numeric c 16) src"
  unfolding hex_run_def by (rule dropWhile_eq_drop [symmetric])

lemma hex_run_no_minus: "hex_run src = c # cs \<Longrightarrow> c \<noteq> CHR ''-''"
  by (cases src) (auto simp: hex_run_def is_numeric_def ord_def split: if_splits)

lemma from_chars_all_digits:
  assumes "list_all (is_base_digit base) ds" "ds \<noteq> []" "hd ds \<noteq> CHR ''-''" "0 \<le> base"
  shows "from_chars base ds =
     (if digits_value base ds < 2 ^ 31 then Inr (word_of_int (digits_value base ds), [])
      else Inl Result_out_of_range)"
proof -
  have whole: "takeWhile (is_base_digit base) ds = ds" "dropWhile (is_base_digit base) ds = []"
    using assms(1) by (simp_all add: takeWhile_eq_all_conv dropWhile_eq_Nil_conv list_all_iff)
  have "(case ds of [] \<Rightarrow> False | c # _ \<Rightarrow> c = CHR ''-'') = False"
    using assms(2,3) by (cases ds) simp_all
  then show ?thesis
    using assms(2) digits_value_nonneg [OF assms(4), of ds]
    by (simp add: from_chars_def fits_int32_def Let_def whole)
qed

lemma parse_integral_eq:
  assumes "base \<in> literal_bases" "list_all (\<lambda>c. is_numeric c base) (hex_run src)"
  shows "parse_integral base neg src =
    (if hex_run src = [] then
       (Inl (Error (''Failed to parse number '' @ quoted [] @ '': Invalid argument'')), src)
     else if digits_value base (hex_run src) < 2 ^ 31 then
       (Inr (let v = word_of_int (digits_value base (hex_run src)) in if neg then - v else v),
        dropWhile (\<lambda>c. is_numeric c 16) src)
     else
       (Inl (Error (''Failed to parse number '' @ quoted (hex_run src)
          @ '': Numerical result out of range'')), src))"
proof (cases "hex_run src = []")
  case True
  have "from_chars base [] = Inl Invalid_argument"
    by (simp add: from_chars_def)
  with True assms(1) show ?thesis
    by (simp add: parse_integral_def scan_digits_eq)
next
  case False
  then have "hd (hex_run src) \<noteq> CHR ''-''"
    using hex_run_no_minus [of src "hd (hex_run src)" "tl (hex_run src)"] by simp
  moreover have "list_all (is_base_digit base) (hex_run src)"
    using assms by (simp add: list_all_iff is_numeric_is_base_digit)
  ultimately have "from_chars base (hex_run src) =
     (if digits_value base (hex_run src) < 2 ^ 31
      then Inr (word_of_int (digits_value base (hex_run src)), [])
      else Inl Result_out_of_range)"
    using assms(1) False by (intro from_chars_all_digits) auto
  with False assms show ?thesis
    by (simp add: parse_integral_def scan_digits_eq take_hex_run drop_hex_run Let_def)
qed

lemma parse_integral_bad_digit:
  assumes "base \<in> literal_bases" "\<not> list_all (\<lambda>c. is_numeric c base) (hex_run src)"
  obtains e where "parse_integral base neg src =
     (Inl e, dropWhile (\<lambda>c. is_numeric c base) src)"
proof -
  have "drop (length (takeWhile (\<lambda>c. is_numeric c base) src)) src = dropWhile (\<lambda>c. is_numeric c base) src"
    by (rule dropWhile_eq_drop [symmetric])
  with assms that show ?thesis
    by (auto simp: parse_integral_def scan_digits_eq Let_def)
qed

section \<open>parse_num\<close>

text \<open>
  The base that \<open>parse_num\<close> selects for an unsigned literal, with the number of characters of
  the base prefix.
\<close>

definition literal_base :: "string \<Rightarrow> int \<times> nat" where
  "literal_base source =
     (if source ! 0 = CHR ''0'' \<and> length source > 1 then
        if source ! 1 = CHR ''x'' \<or> source ! 1 = CHR ''X'' then (16, 2)
        else if source ! 1 = CHR ''b'' \<or> source ! 1 = CHR ''B'' then (2, 2)
        else (8, 0)
      else (10, 0))"

lemma literal_base_range: "fst (literal_base s) \<in> literal_bases"
  by (simp add: literal_base_def)

lemma parse_num_unsigned:
  "s \<noteq> [] \<Longrightarrow> s ! 0 \<noteq> CHR ''-'' \<Longrightarrow>
     parse_num s = parse_integral (fst (literal_base s)) False (drop (snd (literal_base s)) s)"
  by (simp add: parse_num_def literal_base_def)

lemma parse_num_signed:
  "s \<noteq> [] \<Longrightarrow>
     parse_num (CHR ''-'' # s) = parse_integral (fst (literal_base s)) True (drop (snd (literal_base s)) s)"
  by (simp add: parse_num_def literal_base_def)

lemma parse_integral_value:
  assumes "base \<in> literal_bases" "parse_integral base neg src = (Inr v, rest)"
  shows "\<bar>sint v\<bar> < 2 ^ 31 \<and> rest = dropWhile (\<lambda>c. is_numeric c 16) src \<and> hex_run src \<noteq> []"
proof -
  have all: "list_all (\<lambda>c. is_numeric c base) (hex_run src)"
    using assms(2) by (rule contrapos_pp) (auto elim: parse_integral_bad_digit [OF assms(1), of src neg])
  let ?n = "digits_value base (hex_run src)"
  have "0 \<le> ?n" using assms(1) by (auto intro: digits_value_nonneg)
  moreover have "?n < 2 ^ 31" "hex_run src \<noteq> []" "rest = dropWhile (\<lambda>c. is_numeric c 16) src"
    and v: "v = (if neg then - word_of_int ?n else word_of_int ?n)"
    using assms(2) parse_integral_eq [OF assms(1) all, of neg] by (auto simp: Let_def split: if_splits)
  moreover have "sint (word_of_int (if neg then - ?n else ?n) :: word_type) = (if neg then - ?n else ?n)"
    using calculation by (intro sint_word_of_int_fits) (auto simp: fits_int32_def)
  ultimately show ?thesis by (auto split: if_splits)
qed

lemma parse_integral_rest:
  assumes "base \<in> literal_bases"
  shows "suffix (snd (parse_integral base neg src)) src"
proof (cases "list_all (\<lambda>c. is_numeric c base) (hex_run src)")
  case True
  with assms show ?thesis by (simp add: parse_integral_eq suffix_dropWhile)
next
  case False
  then obtain e where "parse_integral base neg src = (Inl e, dropWhile (\<lambda>c. is_numeric c base) src)"
    using parse_integral_bad_digit [OF assms] by metis
  then show ?thesis by (simp add: suffix_dropWhile)
qed

lemma strict_suffix_hex_run:
  assumes "hex_run src \<noteq> []" shows "strict_suffix (dropWhile (\<lambda>c. is_numeric c 16) src) src"
proof -
  have "src = hex_run src @ dropWhile (\<lambda>c. is_numeric c 16) src"
    by (simp add: hex_run_def)
  then show ?thesis
    using assms by (metis append_self_conv2 strict_suffix_def suffix_def)
qed

text \<open>The sign and the base prefix that \<open>parse_num\<close> removes before it reads the digits.\<close>

definition literal_body :: "string \<Rightarrow> string" where
  "literal_body source = (if source ! 0 = CHR ''-'' then drop 1 source else source)"

lemma parse_num_cases:
  obtains (empty) e where "literal_body source = []" "parse_num source = (Inl e, literal_body source)"
  | (digits) neg where "literal_body source \<noteq> []"
      "parse_num source = parse_integral (fst (literal_base (literal_body source))) neg
         (drop (snd (literal_base (literal_body source))) (literal_body source))"
proof (cases "source = []")
  case True
  then show ?thesis using that(1) by (simp add: literal_body_def parse_num_def)
next
  case False
  show ?thesis
  proof (cases "literal_body source = []")
    case True
    with False show ?thesis using that(1) by (simp add: literal_body_def parse_num_def)
  next
    case ne: False
    show ?thesis
      using that(2) [OF ne, of "source ! 0 = CHR ''-''"] False ne
      by (simp add: parse_num_def literal_base_def literal_body_def Let_def)
  qed
qed

lemma suffix_literal_body: "suffix (literal_body source) source"
  by (simp add: literal_body_def suffix_drop)

lemma parse_num_Inr:
  assumes "parse_num source = (Inr v, rest)"
  shows "\<bar>sint v\<bar> < 2 ^ 31" "strict_suffix rest source"
proof -
  from assms obtain neg where p: "parse_integral (fst (literal_base (literal_body source))) neg
      (drop (snd (literal_base (literal_body source))) (literal_body source)) = (Inr v, rest)"
    by (cases source rule: parse_num_cases) auto
  note v = parse_integral_value [OF literal_base_range p]
  then show "\<bar>sint v\<bar> < 2 ^ 31" by blast
  have "strict_suffix rest (drop (snd (literal_base (literal_body source))) (literal_body source))"
    using v strict_suffix_hex_run by blast
  moreover have "suffix (drop (snd (literal_base (literal_body source))) (literal_body source)) source"
    using suffix_drop suffix_literal_body suffix_order.trans by blast
  ultimately show "strict_suffix rest source"
    by (rule suffix_order.less_le_trans)
qed

lemma parse_num_rest: "suffix (snd (parse_num source)) source"
proof (cases source rule: parse_num_cases)
  case (empty e)
  then show ?thesis using suffix_literal_body [of source] by simp
next
  case (digits neg)
  then show ?thesis
    using parse_integral_rest [OF literal_base_range, of "literal_body source" neg
        "drop (snd (literal_base (literal_body source))) (literal_body source)"]
      suffix_drop suffix_literal_body [of source] suffix_order.trans by metis
qed

text \<open>Whatever the input, \<open>parse_num\<close> leaves a suffix of it; when it succeeds it has consumed
  at least one character and the value lies strictly between -2^31 and 2^31, so that the
  negation in the reader never overflows (and -2^31 itself cannot be written).\<close>

theorem parse_num_result:
  "case parse_num source of
     (Inl e, rest) \<Rightarrow> suffix rest source
   | (Inr v, rest) \<Rightarrow> - (2 ^ 31) < sint v \<and> sint v < 2 ^ 31 \<and> strict_suffix rest source"
proof (cases "parse_num source")
  case (Pair r rest)
  then show ?thesis
    using parse_num_rest [of source] parse_num_Inr [of source _ rest] by (cases r) (auto simp: abs_less_iff)
qed

lemma is_numeric_show_digits: "0 \<le> n \<Longrightarrow> list_all (\<lambda>c. is_numeric c 10) (show_digits n)"
  by (auto simp: list_all_iff is_numeric_def dest!: show_digits_chars)

lemma hex_run_append:
  "list_all (\<lambda>c. is_numeric c 16) xs \<Longrightarrow> (case rest of [] \<Rightarrow> True | c # _ \<Rightarrow> \<not> is_numeric c 16) \<Longrightarrow>
     hex_run (xs @ rest) = xs \<and> dropWhile (\<lambda>c. is_numeric c 16) (xs @ rest) = rest"
  by (auto simp: hex_run_def list_all_iff takeWhile_append2 dropWhile_append2 split: list.splits)

lemma show_digits_first: "0 < n \<Longrightarrow> hd (show_digits n) \<noteq> CHR ''0''"
proof (induction n rule: show_digits.induct)
  case (1 n)
  show ?case
  proof (cases "n < 10")
    case True
    then show ?thesis using "1.prems" ord_digit_char [of n]
      by (subst show_digits.simps) (auto simp del: ord_digit_char)
  next
    case False
    with 1 show ?thesis by (subst show_digits.simps) (simp add: hd_append)
  qed
qed

text \<open>What may follow a literal: nothing, or a character that does not continue it.\<close>

definition ends_literal :: "string \<Rightarrow> bool" where
  "ends_literal rest =
     (case rest of [] \<Rightarrow> True
      | c # _ \<Rightarrow> \<not> is_numeric c 16 \<and> c \<noteq> CHR ''x'' \<and> c \<noteq> CHR ''X'')"

lemma ends_literal_rest: "ends_literal rest \<Longrightarrow> (case rest of [] \<Rightarrow> True | c # _ \<Rightarrow> \<not> is_numeric c 16)"
  by (auto simp: ends_literal_def split: list.splits)

lemma parse_integral_show:
  assumes "0 \<le> n" "n < 2 ^ 31" "ends_literal rest"
  shows "parse_integral (fst (literal_base (show_digits n @ rest))) neg
      (drop (snd (literal_base (show_digits n @ rest))) (show_digits n @ rest))
    = (Inr (word_of_int (if neg then - n else n)), rest)"
proof -
  have "list_all (\<lambda>c. is_numeric c 16) (show_digits n)"
    using is_numeric_show_digits [OF assms(1)] by (auto simp: list_all_iff is_numeric_hex [of 10])
  note hex = hex_run_append [OF this ends_literal_rest [OF assms(3)]]
  show ?thesis
  proof (cases "n = 0")
    case True
    then have zero: "show_digits n = ''0''"
      by (simp add: show_digits.simps digit_char_def char_of_def)
    have "is_numeric CHR ''b'' 16" "is_numeric CHR ''B'' 16"
      by (simp_all add: is_numeric_def ord_def)
    then have "literal_base (''0'' @ rest) \<in> {(8, 0), (10, 0)}"
      using assms(3) by (cases rest) (auto simp: literal_base_def ends_literal_def)
    then obtain base where base: "literal_base (''0'' @ rest) = (base, 0)" "base \<in> {8, 10}"
      by blast
    moreover have "digits_value base ''0'' = 0"
      by (simp add: digits_value_def digit_value_def)
    moreover have "list_all (\<lambda>c. is_numeric c base) ''0''"
      using base(2) by (auto simp: is_numeric_def)
    ultimately show ?thesis
      using hex parse_integral_eq [of base "''0'' @ rest" neg] True unfolding zero by auto
  next
    case False
    then have "hd (show_digits n) \<noteq> CHR ''0''" using assms(1) show_digits_first by simp
    then have "literal_base (show_digits n @ rest) = (10, 0)"
      by (cases "show_digits n") (auto simp: literal_base_def)
    then show ?thesis
      using hex assms is_numeric_show_digits [OF assms(1)] by (simp add: parse_integral_eq Let_def)
  qed
qed

lemma parse_num_show:
  assumes "\<bar>n\<bar> < 2 ^ 31" and "ends_literal rest"
  shows "parse_num (show_int n @ rest) = (Inr (word_of_int n), rest)"
proof (cases "n < 0")
  case True
  then show ?thesis
    using parse_integral_show [of "- n" rest True] assms by (simp add: show_int_def parse_num_signed)
next
  case False
  have "c \<noteq> CHR ''-''" if "c \<in> set (show_digits n)" for c
  proof -
    note c = that
    obtain d where "c = digit_char d" "0 \<le> d" "d < 10"
      using show_digits_chars [OF _ c] False by auto
    then have "ord c \<noteq> ord CHR ''-''" by (simp add: ord_def [of "CHR ''-''"])
    then show ?thesis by auto
  qed
  then have "(show_digits n @ rest) ! 0 \<noteq> CHR ''-''"
    by (cases "show_digits n") auto
  then show ?thesis
    using parse_integral_show [of n rest False] assms False by (simp add: show_int_def parse_num_unsigned)
qed

text \<open>Reading back a printed number gives the number: for each value of magnitude below 2^31,
  \<open>parse_num\<close> on its decimal form returns it and stops where the literal ends.\<close>

theorem parse_num_show_int:
  assumes "\<bar>n\<bar> < 2 ^ 31" and "ends_literal rest"
  shows "parse_num (show_int n @ rest) = (Inr (word_of_int n), rest)"
  using assms by (rule parse_num_show)

theorem parse_num_show_int_witness:
  "\<bar>- 42 :: int\<bar> < 2 ^ 31 \<and> ends_literal '')'' \<and>
   parse_num (show_int (- 42) @ '')'') = (Inr (word_of_int (- 42)), '')'')"
proof -
  have h: "\<bar>- 42 :: int\<bar> < 2 ^ 31" "ends_literal '')''"
    by (simp_all add: ends_literal_def is_numeric_def ord_def)
  then show ?thesis using parse_num_show_int [OF h] by simp
qed

section \<open>Literals on which the reader makes no progress\<close>

text \<open>
  A literal without sign and base prefix, all of whose digits belong to its base, but whose
  value does not fit: \<open>parse_num\<close> reports an error and leaves the source as it was.
\<close>

definition number_overflows :: "string \<Rightarrow> bool" where
  "number_overflows s =
     (case literal_base s of (base, skip) \<Rightarrow>
        skip = 0 \<and> list_all (\<lambda>c. is_numeric c base) (hex_run s)
        \<and> 2 ^ 31 \<le> digits_value base (hex_run s))"

lemma dropWhile_Cons_neq: "P c \<Longrightarrow> dropWhile P (c # cs) \<noteq> c # cs"
  by (metis dropWhile.simps(2) impossible_Cons length_dropWhile_le)

lemma parse_integral_unmoved:
  assumes "base \<in> literal_bases" "is_numeric c base"
  shows "snd (parse_integral base neg (c # cs)) = c # cs \<longleftrightarrow>
     list_all (\<lambda>c. is_numeric c base) (hex_run (c # cs))
     \<and> 2 ^ 31 \<le> digits_value base (hex_run (c # cs))"
proof (cases "list_all (\<lambda>c. is_numeric c base) (hex_run (c # cs))")
  case True
  moreover have "hex_run (c # cs) \<noteq> []"
    using is_numeric_hex [OF assms] by (simp add: hex_run_def)
  moreover have "dropWhile (\<lambda>c. is_numeric c 16) (c # cs) \<noteq> c # cs"
    using is_numeric_hex [OF assms] by (rule dropWhile_Cons_neq)
  ultimately show ?thesis
    using assms(1) by (simp add: parse_integral_eq del: dropWhile.simps)
next
  case False
  then obtain e where "parse_integral base neg (c # cs) =
      (Inl e, dropWhile (\<lambda>c. is_numeric c base) (c # cs))"
    using parse_integral_bad_digit [OF assms(1)] by metis
  moreover have "dropWhile (\<lambda>c. is_numeric c base) (c # cs) \<noteq> c # cs"
    using assms(2) by (rule dropWhile_Cons_neq)
  ultimately show ?thesis using False by (simp del: dropWhile.simps)
qed

lemma suffix_drop_neq: "suffix s' (drop k s) \<Longrightarrow> 0 < k \<Longrightarrow> s \<noteq> [] \<Longrightarrow> s' \<noteq> s"
  by (cases s) (auto dest!: suffix_length_le)

lemma suffix_drop_trans: "suffix s' (drop k s) \<Longrightarrow> suffix s' s"
  using suffix_drop suffix_order.trans by blast

lemma parse_num_unmoved:
  assumes "source = c # cs" and "c = CHR ''-'' \<or> is_numeric c 10"
  shows "snd (parse_num source) = source \<longleftrightarrow> number_overflows source"
proof (cases "c = CHR ''-''")
  case True
  have "suffix (snd (parse_num (CHR ''-'' # cs))) cs"
  proof (cases "cs = []")
    case True
    then show ?thesis by (simp add: parse_num_def)
  next
    case False
    then show ?thesis
      using parse_integral_rest [OF literal_base_range, of cs True "drop (snd (literal_base cs)) cs"]
      by (auto simp: parse_num_signed intro: suffix_drop_trans)
  qed
  moreover have "\<not> number_overflows (CHR ''-'' # cs)"
    by (simp add: number_overflows_def literal_base_def hex_run_def is_numeric_def ord_def)
  ultimately show ?thesis using assms(1) True by (auto dest: suffix_length_le)
next
  case False
  with assms have num: "is_numeric c 10" by simp
  have p: "parse_num source =
      parse_integral (fst (literal_base source)) False (drop (snd (literal_base source)) source)"
    using assms(1) False by (simp add: parse_num_unsigned)
  have "snd (literal_base source) = 2 \<or> literal_base source = (8, 0) \<and> c = CHR ''0''
      \<or> literal_base source = (10, 0)"
    using assms(1) by (simp add: literal_base_def)
  then consider "snd (literal_base source) = 2" | "literal_base source = (8, 0)" "c = CHR ''0''"
    | "literal_base source = (10, 0)"
    by blast
  then show ?thesis
  proof cases
    case 1
    have "suffix (snd (parse_num source)) (drop 2 source)"
      using parse_integral_rest [OF literal_base_range, of source False "drop 2 source"] 1 by (simp add: p)
    then have "snd (parse_num source) \<noteq> source"
      by (rule suffix_drop_neq) (simp_all add: assms(1))
    then show ?thesis using 1 by (auto simp: number_overflows_def split: prod.splits)
  next
    case 2
    have "is_numeric CHR ''0'' 8" by (simp add: is_numeric_def)
    then show ?thesis
      using 2 p parse_integral_unmoved [of 8 c False cs] assms(1) by (simp add: number_overflows_def)
  next
    case 3
    then show ?thesis
      using p parse_integral_unmoved [of 10 c False cs] num assms(1) by (simp add: number_overflows_def)
  qed
qed

section \<open>Register names\<close>

lemma from_chars_show:
  assumes "0 \<le> n" "n < 2 ^ 31" "case rest of [] \<Rightarrow> True | c # _ \<Rightarrow> \<not> is_numeric c 10"
  shows "from_chars 10 (show_digits n @ rest) = Inr (word_of_int n, rest)"
proof -
  have d: "list_all (is_base_digit 10) (show_digits n)"
    using is_numeric_show_digits [OF assms(1)] by (simp add: list_all_iff is_numeric_is_base_digit)
  then have "takeWhile (is_base_digit 10) (show_digits n @ rest) = show_digits n"
    "dropWhile (is_base_digit 10) (show_digits n @ rest) = rest"
    using assms(3) by (auto simp: list_all_iff takeWhile_append dropWhile_append
        is_numeric_is_base_digit split: list.splits)
  moreover have "(case show_digits n @ rest of [] \<Rightarrow> False | c # _ \<Rightarrow> c = CHR ''-'') = False"
  proof -
    have "is_base_digit 10 CHR ''-'' = False" by (simp add: is_base_digit_def digit_value_def ord_def)
    with d show ?thesis by (cases "show_digits n") auto
  qed
  ultimately show ?thesis
    using assms(1,2) by (simp add: from_chars_def fits_int32_def Let_def)
qed

text \<open>Register names are read back: the printed name of a register gives the register.
  The reader stops at the first character that is not a decimal digit and ignores the rest,
  and it does not check that the number names one of the 32 registers.\<close>

theorem str_to_reg_to_str:
  assumes "uint (register_number r) < 2 ^ 31"
    and "case rest of [] \<Rightarrow> True | c # _ \<Rightarrow> \<not> is_numeric c 10"
  shows "str_to_reg (reg_to_str r @ rest) = Inr r"
proof -
  have "from_chars 10 (show_digits (uint (register_number r)) @ rest) = Inr (register_number r, rest)"
    using from_chars_show [of "uint (register_number r)" rest] assms by simp
  then show ?thesis
    by (cases r; cases "type r")
     (auto simp: str_to_reg_def reg_to_str_def show_idata_def show_int_def Let_def Suc_le_eq)
qed

theorem str_to_reg_to_str_witness:
  "uint (register_number (vector_reg 5)) < 2 ^ 31 \<and>
   str_to_reg (reg_to_str (vector_reg 5) @ ''abc'') = Inr (vector_reg 5)"
proof -
  have h: "uint (register_number (vector_reg 5)) < 2 ^ 31" 
    by (simp add: vector_reg_def)
  show ?thesis
    using h str_to_reg_to_str [OF h, of "''abc''"] by (simp add: is_numeric_def ord_def)
qed

end
