(* ===== verification/Lexer.thy ===== *)
theory Lexer
  imports Numbers
begin

text \<open>
  Tokens (\<open>sim/aslib/token.hpp\<close>) and the lexer (\<open>sim/aslib/lexer.hpp\<close>,
  \<open>sim/aslib/lexer.cpp\<close>). The lexer's state is its column and the characters it has not
  read; every member function is a function of that state that returns the new state.
  \<open>chop\<close> reads the front of the source without a check, as the code does; its callers look
  at the source first. The loop of \<open>collect_tokens\<close> need not end, so it is a partial
  function whose result \<open>None\<close> says that it does not.
\<close>

section \<open>Tokens\<close>

datatype token_type =
    T_BlocksDirective | T_WarpsDirective
  | T_Mnemonic mnemonic | T_Label string | T_LabelRef string
  | T_Immediate word_type | T_Register register
  | T_Comma | T_Lparen | T_Rparen

text \<open>The alternatives of the variant, as template arguments name them.\<close>

datatype token_kind =
    K_BlocksDirective | K_WarpsDirective | K_Mnemonic | K_Label | K_LabelRef
  | K_Immediate | K_Register | K_Comma | K_Lparen | K_Rparen

fun kind_of :: "token_type \<Rightarrow> token_kind" where
  "kind_of T_BlocksDirective = K_BlocksDirective"
| "kind_of T_WarpsDirective = K_WarpsDirective"
| "kind_of (T_Mnemonic m) = K_Mnemonic"
| "kind_of (T_Label l) = K_Label"
| "kind_of (T_LabelRef l) = K_LabelRef"
| "kind_of (T_Immediate i) = K_Immediate"
| "kind_of (T_Register r) = K_Register"
| "kind_of T_Comma = K_Comma"
| "kind_of T_Lparen = K_Lparen"
| "kind_of T_Rparen = K_Rparen"

fun kind_to_str :: "token_kind \<Rightarrow> string" where
  "kind_to_str K_BlocksDirective = ''.blocks''"
| "kind_to_str K_WarpsDirective = ''.warps''"
| "kind_to_str K_Mnemonic = ''mnemonic''"
| "kind_to_str K_Label = ''label''"
| "kind_to_str K_LabelRef = ''label_ref''"
| "kind_to_str K_Immediate = ''immediate''"
| "kind_to_str K_Register = ''register''"
| "kind_to_str K_Comma = quoted '',''"
| "kind_to_str K_Lparen = quoted ''(''"
| "kind_to_str K_Rparen = quoted '')''"

fun token_type_to_str :: "token_kind list \<Rightarrow> string" where
  "token_type_to_str [] = ''unknown''"
| "token_type_to_str [k] = kind_to_str k"
| "token_type_to_str (k # ks) = kind_to_str k @ '' or '' @ token_type_to_str ks"

record token =
  token_type :: token_type
  col :: idata

definition token_is_of_type :: "token_kind list \<Rightarrow> token \<Rightarrow> bool" where
  "token_is_of_type kinds t \<longleftrightarrow> kind_of (token_type t) \<in> set kinds"

text \<open>\<open>Token::as<T>\<close> is \<open>std::get\<close>: it throws (\<open>None\<close>) when the token is of another type.\<close>

definition as_mnemonic :: "token \<Rightarrow> mnemonic option" where
  "as_mnemonic t = (case token_type t of T_Mnemonic m \<Rightarrow> Some m | _ \<Rightarrow> None)"

definition as_label :: "token \<Rightarrow> string option" where
  "as_label t = (case token_type t of T_Label l \<Rightarrow> Some l | _ \<Rightarrow> None)"

definition as_label_ref :: "token \<Rightarrow> string option" where
  "as_label_ref t = (case token_type t of T_LabelRef l \<Rightarrow> Some l | _ \<Rightarrow> None)"

definition as_immediate :: "token \<Rightarrow> word_type option" where
  "as_immediate t = (case token_type t of T_Immediate i \<Rightarrow> Some i | _ \<Rightarrow> None)"

definition as_register :: "token \<Rightarrow> register option" where
  "as_register t = (case token_type t of T_Register r \<Rightarrow> Some r | _ \<Rightarrow> None)"

fun token_type_string :: "token_type \<Rightarrow> string" where
  "token_type_string T_BlocksDirective = ''.threads''"
| "token_type_string T_WarpsDirective = ''.warps''"
| "token_type_string (T_Mnemonic m) = mnemonic_to_str m"
| "token_type_string (T_Label l) = l"
| "token_type_string (T_LabelRef l) = l"
| "token_type_string (T_Immediate i) = show_word_type i"
| "token_type_string (T_Register r) = reg_to_str r"
| "token_type_string T_Comma = quoted '',''"
| "token_type_string T_Lparen = quoted ''(''"
| "token_type_string T_Rparen = quoted '')''"

definition token_to_str :: "token \<Rightarrow> string" where
  "token_to_str t = token_type_string (token_type t)"

section \<open>The lexer's state and primitive operations\<close>

record lexer =
  column_number :: idata
  source :: string

definition Lexer_init :: "string \<Rightarrow> lexer" where
  "Lexer_init src = \<lparr>column_number = 1, source = src\<rparr>"

definition chop :: "lexer \<Rightarrow> char \<times> lexer" where
  "chop lx =
     (hd (source lx), lx\<lparr>source := tl (source lx), column_number := column_number lx + 1\<rparr>)"

definition chop_while :: "(char \<Rightarrow> bool) \<Rightarrow> lexer \<Rightarrow> string \<times> lexer" where
  "chop_while predicate lx =
     (let result = takeWhile predicate (source lx)
      in (result,
          lx\<lparr>source := drop (length result) (source lx),
             column_number := column_number lx + word_of_nat (length result)\<rparr>))"

definition peek :: "lexer \<Rightarrow> char option" where
  "peek lx = (if source lx = [] then None else Some (hd (source lx)))"

function trim_whitespace :: "lexer \<Rightarrow> lexer" where
  "trim_whitespace lx =
     (case peek lx of
        None \<Rightarrow> lx
      | Some c \<Rightarrow>
          if c = CHR '' '' \<or> c = CHR 0x09 \<or> c = CHR 0x0D \<or> c = CHR 0x0A
          then trim_whitespace (snd (chop lx))
          else lx)"
  by pat_completeness auto
termination
  by (relation "measure (\<lambda>lx. length (source lx))")
    (auto simp: peek_def chop_def split: if_splits)

declare trim_whitespace.simps [simp del]

definition make_error :: "string \<Rightarrow> idata option \<Rightarrow> lexer \<Rightarrow> error" where
  "make_error msg c lx =
     \<lparr>message = msg, column = (case c of None \<Rightarrow> column_number lx | Some c \<Rightarrow> c), line = 0\<rparr>"

definition make_error_from :: "error \<Rightarrow> idata option \<Rightarrow> lexer \<Rightarrow> error" where
  "make_error_from e c lx =
     \<lparr>message = message e, column = (case c of None \<Rightarrow> column_number lx | Some c \<Rightarrow> c),
      line = line e\<rparr>"

section \<open>Reading one token\<close>

definition lexer_parse_directive :: "lexer \<Rightarrow> (error + token) \<times> lexer" where
  "lexer_parse_directive lx =
     (case chop_while (\<lambda>c. \<not> is_whitespace c) lx of (keyword, lx) \<Rightarrow>
        if keyword = ''blocks'' then
          (Inr \<lparr>token_type = T_BlocksDirective, col = column_number lx\<rparr>, lx)
        else if keyword = ''warps'' then
          (Inr \<lparr>token_type = T_WarpsDirective, col = column_number lx\<rparr>, lx)
        else if keyword = [] then
          (Inl (make_error (''Unexpected whitespace after '' @ quoted ''.''
              @ '',  expected a directive name after '' @ quoted ''.'') None lx), lx)
        else
          (Inl (make_error (''Unknown directive '' @ quoted (''.'' @ keyword)) None lx), lx))"

definition lexer_parse_number :: "lexer \<Rightarrow> (error + token) \<times> lexer" where
  "lexer_parse_number lx =
     (let starting_col = column_number lx; source_size_before = length (source lx)
      in case parse_num (source lx) of
           (Inl e, src) \<Rightarrow> (let lx = lx\<lparr>source := src\<rparr> in (Inl (make_error_from e None lx), lx))
         | (Inr number, src) \<Rightarrow>
             (Inr \<lparr>token_type = T_Immediate number, col = starting_col\<rparr>,
              lx\<lparr>source := src,
                 column_number := column_number lx
                   + word_of_nat (source_size_before - length src)\<rparr>))"

definition is_keyword_char :: "char \<Rightarrow> bool" where
  "is_keyword_char c \<longleftrightarrow>
     is_alphanumeric c 10 \<or> is_label_char c \<or> c = CHR ''.'' \<or> c = CHR '':''"

definition lexer_parse_keyword :: "lexer \<Rightarrow> (error + token) \<times> lexer" where
  "lexer_parse_keyword lx =
     (let starting_col = column_number lx in
      case chop_while is_keyword_char lx of (word, lx) \<Rightarrow>
      (case str_to_mnemonic word of
         Some m \<Rightarrow> (Inr \<lparr>token_type = T_Mnemonic m, col = starting_col\<rparr>, lx)
       | None \<Rightarrow>
           (let ends_in_colon = (last word = CHR '':'');
                word = (if ends_in_colon then butlast word else word)
            in if ends_in_colon \<and> str_check_predicate word is_label_char then
                 (Inr \<lparr>token_type = T_Label word, col = starting_col\<rparr>, lx)
               else
                 (let reg = (if word ! 0 = CHR ''x'' \<or> word ! 0 = CHR ''s'' \<or> word = ''pc''
                             then Some (str_to_reg word) else None)
                  in case reg of
                       Some (Inr r) \<Rightarrow> (Inr \<lparr>token_type = T_Register r, col = starting_col\<rparr>, lx)
                     | _ \<Rightarrow>
                         if str_check_predicate word is_label_char then
                           (Inr \<lparr>token_type = T_LabelRef word, col = starting_col\<rparr>, lx)
                         else
                           (case reg of
                              Some (Inl reg_error) \<Rightarrow>
                                (Inl (make_error_from reg_error (Some starting_col) lx), lx)
                            | _ \<Rightarrow>
                                (Inl (make_error (''Unexpected keyword '' @ quoted word)
                                   (Some starting_col) lx), lx))))))"

definition next_token :: "lexer \<Rightarrow> (error + token) option \<times> lexer" where
  "next_token lx =
     (let lx = trim_whitespace lx; first_char_column = column_number lx
      in case peek lx of
           None \<Rightarrow> (None, lx)
         | Some c \<Rightarrow>
             if c = CHR ''#'' then (None, lx)
             else if c = CHR ''-'' \<or> is_numeric c 10 then apfst Some (lexer_parse_number lx)
             else if is_alphabetic c then apfst Some (lexer_parse_keyword lx)
             else
               (let lx = snd (chop lx)
                in if c = CHR ''('' then
                     (Some (Inr \<lparr>token_type = T_Lparen, col = first_char_column\<rparr>), lx)
                   else if c = CHR '')'' then
                     (Some (Inr \<lparr>token_type = T_Rparen, col = first_char_column\<rparr>), lx)
                   else if c = CHR '','' then
                     (Some (Inr \<lparr>token_type = T_Comma, col = first_char_column\<rparr>), lx)
                   else if c = CHR ''.'' then apfst Some (lexer_parse_directive lx)
                   else
                     (Some (Inl (make_error (''Unexpected character '' @ quoted [c])
                        (Some first_char_column) lx)), lx)))"

section \<open>Collecting the tokens of a line\<close>

text \<open>
  The range-for loop of \<open>collect_tokens\<close> over \<open>Lexer::Iterator\<close>: it calls \<open>next_token\<close>
  until there is none, and sorts the results into tokens and errors.
\<close>

partial_function (option) collect_loop ::
    "lexer \<Rightarrow> token list \<Rightarrow> error list \<Rightarrow> (token list \<times> error list) option" where
  "collect_loop lx toks errs =
     (case fst (next_token lx) of
        None \<Rightarrow> Some (toks, errs)
      | Some r \<Rightarrow>
          (case r of
             Inr t \<Rightarrow> collect_loop (snd (next_token lx)) (toks @ [t]) errs
           | Inl e \<Rightarrow> collect_loop (snd (next_token lx)) toks (errs @ [e])))"

declare collect_loop.simps [code]

definition collect_tokens :: "string \<Rightarrow> (token list \<times> error list) option" where
  "collect_tokens src = collect_loop (Lexer_init src) [] []"

section \<open>How much the operations consume\<close>

lemma source_chop_while [lex_len]: "source (snd (chop_while p lx)) = dropWhile p (source lx)"
  by (simp add: chop_while_def Let_def dropWhile_eq_drop)

lemma fst_chop_while [simp]: "fst (chop_while p lx) = takeWhile p (source lx)"
  by (simp add: chop_while_def Let_def)

lemma source_trim_whitespace [lex_len]:
  "source (trim_whitespace lx) = dropWhile is_whitespace (source lx)"
proof (induction lx rule: trim_whitespace.induct)
  case (1 lx)
  then show ?case
    by (cases "source lx")
      (auto simp: trim_whitespace.simps [of lx] peek_def chop_def is_whitespace_def)
qed

lemma trim_whitespace_id:
  "source lx = [] \<or> \<not> is_whitespace (hd (source lx)) \<Longrightarrow> trim_whitespace lx = lx"
  by (cases "source lx") (auto simp: trim_whitespace.simps [of lx] peek_def is_whitespace_def)

lemma trim_whitespace_moves:
  "trim_whitespace lx = lx \<or> length (source (trim_whitespace lx)) < length (source lx)"
proof (cases "source lx")
  case (Cons c cs)
  then show ?thesis
    using trim_whitespace_id [of lx] length_dropWhile_le [of is_whitespace cs]
    by (cases "is_whitespace c") (auto simp: lex_len)
qed (simp add: trim_whitespace_id)

lemma trim_whitespace_idem [simp]: "trim_whitespace (trim_whitespace lx) = trim_whitespace lx"
  by (rule trim_whitespace_id) (metis hd_dropWhile source_trim_whitespace)

lemma next_token_trim: "next_token (trim_whitespace lx) = next_token lx"
  by (simp add: next_token_def)

lemma source_parse_directive [lex_len]:
  "source (snd (lexer_parse_directive lx)) = dropWhile (\<lambda>c. \<not> is_whitespace c) (source lx)"
  using source_chop_while [of "\<lambda>c. \<not> is_whitespace c" lx]
  by (auto simp: lexer_parse_directive_def split: prod.splits)

lemma source_parse_number [lex_len]:
  "source (snd (lexer_parse_number lx)) = snd (parse_num (source lx))"
  by (auto simp: lexer_parse_number_def Let_def split: prod.splits sum.splits)

lemma source_parse_keyword [lex_len]:
  "source (snd (lexer_parse_keyword lx)) = dropWhile is_keyword_char (source lx)"
  using source_chop_while [of is_keyword_char lx]
  by (auto simp: lexer_parse_keyword_def Let_def split: prod.splits option.splits sum.splits)

lemma parse_number_unmoved:
  "snd (parse_num (source lx)) = source lx \<Longrightarrow>
     (\<exists>e. fst (lexer_parse_number lx) = Inl e) \<and> snd (lexer_parse_number lx) = lx"
  using parse_num_Inr [of "source lx" _ "source lx"]
  by (auto simp: lexer_parse_number_def Let_def split: prod.splits sum.splits)

section \<open>Iterating a token source\<close>

text \<open>
  The interface between a range-for loop and its iterator: each call of \<open>next\<close> yields a
  result and a new state, or ends the loop. The states a loop goes through:
\<close>

inductive iterates :: "('s \<Rightarrow> 'r option \<times> 's) \<Rightarrow> 's \<Rightarrow> 's \<Rightarrow> bool"
  for nxt :: "'s \<Rightarrow> 'r option \<times> 's" where
  iterates_refl: "iterates nxt s s"
| iterates_step: "nxt s = (Some r, s') \<Longrightarrow> iterates nxt s' t \<Longrightarrow> iterates nxt s t"

inductive_cases iterates_cases: "iterates nxt s t"

text \<open>A call that yields a result and leaves the state as it was is repeated for ever.\<close>

definition stuck :: "('s \<Rightarrow> 'r option \<times> 's) \<Rightarrow> 's \<Rightarrow> bool" where
  "stuck nxt s \<longleftrightarrow> (\<exists>r. nxt s = (Some r, s))"

text \<open>
  The contract: a call that changes the state makes the remaining input smaller. Then a loop
  comes to its end or to a stuck state, and to only one of them.
\<close>

locale iterator =
  fixes nxt :: "'s \<Rightarrow> 'r option \<times> 's"
    and remaining :: "'s \<Rightarrow> nat"
  assumes progress: "nxt s = (Some r, s') \<Longrightarrow> s' = s \<or> remaining s' < remaining s"
begin

lemma ends_or_sticks:
  obtains (ends) t where "iterates nxt s t" "fst (nxt t) = None"
  | (sticks) t where "iterates nxt s t" "stuck nxt t"
proof -
  have "\<exists>t. iterates nxt s t \<and> (fst (nxt t) = None \<or> stuck nxt t)" for s
  proof (induction "remaining s" arbitrary: s rule: less_induct)
    case less
    show ?case
    proof (cases "nxt s")
      case (Pair r s')
      show ?thesis
      proof (cases "r = None \<or> s' = s")
        case True
        with Pair show ?thesis by (cases r) (auto simp: stuck_def intro: iterates_refl)
      next
        case False
        with Pair obtain x where x: "nxt s = (Some x, s')" "s' \<noteq> s" by auto
        then have "remaining s' < remaining s" using progress by blast
        from less [OF this] x show ?thesis by (blast intro: iterates_step)
      qed
    qed
  qed
  then show ?thesis using that by blast
qed

lemma remaining_decreases: "iterates nxt s t \<Longrightarrow> remaining t \<le> remaining s"
  by (induction rule: iterates.induct) (auto dest!: progress)

lemma stuck_stays: "iterates nxt s t \<Longrightarrow> stuck nxt s \<Longrightarrow> t = s"
  by (induction rule: iterates.induct) (auto simp: stuck_def)

end

section \<open>The lexer as an iterator\<close>

lemma number_not_alphabetic: "is_numeric c 10 \<Longrightarrow> \<not> is_alphabetic c"
  by (auto simp: is_numeric_def is_alphabetic_def is_lowercase_alphabetic_def
      is_uppercase_alphabetic_def)

lemma alphabetic_keyword_char: "is_alphabetic c \<Longrightarrow> is_keyword_char c"
  by (simp add: is_keyword_char_def is_alphanumeric_def)

text \<open>A number token starts with a digit or a minus sign and does not move on an overflow.\<close>

definition at_overflow :: "string \<Rightarrow> bool" where
  "at_overflow src =
     (case src of [] \<Rightarrow> False | c # _ \<Rightarrow> is_numeric c 10 \<and> number_overflows src)"

lemma not_overflow_minus: "\<not> number_overflows (CHR ''-'' # cs)"
  by (simp add: number_overflows_def literal_base_def hex_run_def is_numeric_def ord_def)

lemma length_less_if_suffix: "suffix s t \<Longrightarrow> s \<noteq> t \<Longrightarrow> length s < length t"
  by (auto simp: suffix_def)

lemma next_token_trimmed:
  assumes src: "source lx = c # cs" and ws: "\<not> is_whitespace c"
    and nt: "next_token lx = (Some r, lx')"
  shows "if at_overflow (source lx) then lx' = lx \<and> (\<exists>e. r = Inl e)
         else length (source lx') < length (source lx)"
proof -
  have t: "trim_whitespace lx = lx" using src ws by (simp add: trim_whitespace_id)
  have peek: "peek lx = Some c" using src by (simp add: peek_def)
  have chop: "source (snd (chop lx)) = cs" using src by (simp add: chop_def)
  have "c \<noteq> CHR ''#''" using nt t peek by (auto simp: next_token_def)
  show ?thesis
  proof (cases "c = CHR ''-'' \<or> is_numeric c 10")
    case True
    then have res: "lx' = snd (lexer_parse_number lx)" "Some r = Some (fst (lexer_parse_number lx))"
      using nt t peek \<open>c \<noteq> CHR ''#''\<close> by (auto simp: next_token_def Let_def apfst_def map_prod_def split: prod.splits)
    show ?thesis
    proof (cases "snd (parse_num (source lx)) = source lx")
      case unmoved: True
      then have "number_overflows (source lx)" using parse_num_unmoved [OF src True] by simp
      then have "at_overflow (source lx)" using src True not_overflow_minus
        by (auto simp: at_overflow_def)
      then show ?thesis using parse_number_unmoved [OF unmoved] res by auto
    next
      case False
      then have "\<not> at_overflow (source lx)" 
        using parse_num_unmoved [OF src True] src by (auto simp: at_overflow_def)
      moreover have "length (source lx') < length (source lx)"
        using False parse_num_rest [of "source lx"] res by (simp add: lex_len length_less_if_suffix)
      ultimately show ?thesis by simp
    qed
  next
    case False
    then have "\<not> at_overflow (source lx)" using src by (simp add: at_overflow_def)
    moreover have "length (source lx') < length (source lx)"
    proof (cases "is_alphabetic c")
      case True
      then have "lx' = snd (lexer_parse_keyword lx)"
        using nt t peek False \<open>c \<noteq> CHR ''#''\<close> by (auto simp: next_token_def Let_def apfst_def map_prod_def split: prod.splits)
      then show ?thesis
        using src alphabetic_keyword_char [OF True] length_dropWhile_le [of is_keyword_char cs]
        by (simp add: lex_len)
    next
      case alpha: False
      then have "lx' = snd (chop lx) \<or> lx' = snd (lexer_parse_directive (snd (chop lx)))"
        using nt t peek False \<open>c \<noteq> CHR ''#''\<close>
        by (auto simp: next_token_def Let_def apfst_def map_prod_def split: prod.splits if_splits)
      then have "length (source lx') \<le> length cs"
        using length_dropWhile_le chop by (auto simp: lex_len)
      then show ?thesis using src by simp
    qed
    ultimately show ?thesis by simp
  qed
qed

lemma next_token_Some_source:
  "next_token lx = (Some r, lx') \<Longrightarrow>
     \<exists>c cs. source (trim_whitespace lx) = c # cs \<and> \<not> is_whitespace c"
proof -
  assume "next_token lx = (Some r, lx')"
  then have "source (trim_whitespace lx) \<noteq> []" by (auto simp: next_token_def Let_def peek_def)
  then show ?thesis
    by (metis hd_dropWhile list.exhaust_sel source_trim_whitespace)
qed

lemma next_token_progress:
  assumes "next_token lx = (Some r, lx')"
  shows "lx' = lx \<or> length (source lx') < length (source lx)"
proof -
  obtain c cs where "source (trim_whitespace lx) = c # cs" "\<not> is_whitespace c"
    using next_token_Some_source [OF assms] by blast
  then have "lx' = trim_whitespace lx \<or> length (source lx') < length (source (trim_whitespace lx))"
    using next_token_trimmed [of "trim_whitespace lx" c cs r lx'] assms
    by (auto simp: next_token_trim split: if_splits)
  moreover have "length (source (trim_whitespace lx)) \<le> length (source lx)"
    by (simp add: lex_len length_dropWhile_le)
  ultimately show ?thesis using trim_whitespace_moves [of lx] by auto
qed

interpretation lexing: iterator next_token "\<lambda>lx. length (source lx)"
  by unfold_locales (rule next_token_progress)

lemma stuck_next_token: "stuck next_token lx \<longleftrightarrow> at_overflow (source lx)"
proof
  assume "stuck next_token lx"
  then obtain r where r: "next_token lx = (Some r, lx)" by (auto simp: stuck_def)
  then obtain c cs where src: "source (trim_whitespace lx) = c # cs" "\<not> is_whitespace c"
    using next_token_Some_source by blast
  then have 1: "if at_overflow (source (trim_whitespace lx)) then lx = trim_whitespace lx
      else length (source lx) < length (source (trim_whitespace lx))"
    using next_token_trimmed [of "trim_whitespace lx" c cs r lx] r
    by (auto simp: next_token_trim split: if_splits)
  moreover have "length (source (trim_whitespace lx)) \<le> length (source lx)"
    by (simp add: lex_len length_dropWhile_le)
  ultimately show "at_overflow (source lx)" by (auto split: if_splits)
next
  assume ov: "at_overflow (source lx)"
  then obtain c cs where src: "source lx = c # cs" and num: "is_numeric c 10"
    by (auto simp: at_overflow_def split: list.splits)
  then have ws: "\<not> is_whitespace c" "c \<noteq> CHR ''#''" 
    by (auto simp: is_whitespace_def is_numeric_def ord_def)
  then obtain r lx' where "next_token lx = (Some r, lx')"
    using src num by (cases "next_token lx")
      (auto simp: next_token_def Let_def trim_whitespace_id peek_def apfst_def map_prod_def split: prod.splits)
  then show "stuck next_token lx"
    using next_token_trimmed [OF src ws(1)] ov by (auto simp: stuck_def)
qed

section \<open>When the loop over a line ends\<close>

lemma collect_loop_end: "fst (next_token lx) = None \<Longrightarrow> collect_loop lx ts es = Some (ts, es)"
  by (simp add: collect_loop.simps)

lemma collect_loop_step:
  "next_token lx = (Some r, lx') \<Longrightarrow>
     collect_loop lx ts es =
       (case r of Inr t \<Rightarrow> collect_loop lx' (ts @ [t]) es | Inl e \<Rightarrow> collect_loop lx' ts (es @ [e]))"
  by (subst collect_loop.simps) (simp split: sum.split)

lemma collect_loop_returns_not_stuck:
  assumes ret: "collect_loop lx ts es = Some r"
  shows "\<not> stuck next_token lx"
proof (rule collect_loop.raw_induct [where P = "\<lambda>lx _ _ _. \<not> stuck next_token lx", OF _ ret])
  fix f lx ts es r
  assume IH: "\<And>lx ts es r. f lx ts es = Some r \<Longrightarrow> \<not> stuck next_token lx"
    and eq: "(case fst (next_token lx) of
        None \<Rightarrow> Some (ts, es)
      | Some (Inr t) \<Rightarrow> f (snd (next_token lx)) (ts @ [t]) es
      | Some (Inl e) \<Rightarrow> f (snd (next_token lx)) ts (es @ [e])) = Some r"
  show "\<not> stuck next_token lx"
  proof
    assume "stuck next_token lx"
    then obtain x where "next_token lx = (Some x, lx)" by (auto simp: stuck_def)
    then have "\<not> stuck next_token lx" using eq IH by (auto split: sum.splits)
    then show False using \<open>stuck next_token lx\<close> by contradiction
  qed
qed

lemma collect_loop_stuck:
  "iterates next_token lx t \<Longrightarrow> stuck next_token t \<Longrightarrow> collect_loop lx ts es = None"
proof (induction arbitrary: ts es rule: iterates.induct)
  case (iterates_refl s)
  then show ?case using collect_loop_returns_not_stuck by fastforce
next
  case (iterates_step s r s' t)
  then show ?case by (simp add: collect_loop_step split: sum.splits)
qed

lemma collect_loop_ends:
  "iterates next_token lx t \<Longrightarrow> fst (next_token t) = None \<Longrightarrow>
     \<exists>toks errs. collect_loop lx ts es = Some (toks, errs)"
proof (induction arbitrary: ts es rule: iterates.induct)
  case (iterates_refl s)
  then show ?case by (simp add: collect_loop_end)
next
  case (iterates_step s r s' t)
  then show ?case by (simp add: collect_loop_step split: sum.splits)
qed

lemma collect_loop_None_iff:
  "collect_loop lx ts es = None \<longleftrightarrow> (\<exists>t. iterates next_token lx t \<and> at_overflow (source t))"
proof
  assume none: "collect_loop lx ts es = None"
  show "\<exists>t. iterates next_token lx t \<and> at_overflow (source t)"
  proof (cases rule: lexing.ends_or_sticks [of lx])
    case (ends t)
    then show ?thesis using none collect_loop_ends [of lx t ts es] by auto
  next
    case (sticks t)
    then show ?thesis by (auto simp: stuck_next_token)
  qed
qed (auto simp: collect_loop_stuck stuck_next_token)

text \<open>C11. Tokenizing a line runs for ever exactly when the lexer reaches a point where the rest
  starts with an unsigned decimal or octal literal that does not fit an \<open>int32_t\<close>: the
  reader reports it without consuming it, and is called again on the same input.\<close>

theorem collect_tokens_diverges_iff:
  "collect_tokens src = None \<longleftrightarrow>
     (\<exists>t. iterates next_token (Lexer_init src) t \<and> at_overflow (source t))"
  by (simp add: collect_tokens_def collect_loop_None_iff)

lemma source_next_token: "suffix (source (snd (next_token lx))) (source lx)"
proof -
  have t: "suffix (source (trim_whitespace lx)) (source lx)"
    by (simp add: lex_len suffix_dropWhile)
  have "suffix (source (snd (next_token lx))) (source (trim_whitespace lx))"
  proof -
    have c: "suffix (source (snd (chop lx))) (source lx)" if "peek lx \<noteq> None" for lx
      using that by (auto simp: chop_def peek_def suffix_tl)
    have d: "suffix (source (snd (lexer_parse_directive (snd (chop lx))))) (source lx)" 
      if "peek lx \<noteq> None" for lx
      using c [OF that] suffix_dropWhile suffix_order.trans by (metis source_parse_directive)
    show ?thesis
      using c [of "trim_whitespace lx"] d [of "trim_whitespace lx"]
      by (auto simp: next_token_def Let_def lex_len suffix_dropWhile parse_num_rest split: option.splits)
  qed
  then show ?thesis using t suffix_order.trans by blast
qed

lemma iterates_suffix: "iterates next_token lx t \<Longrightarrow> suffix (source t) (source lx)"
proof (induction rule: iterates.induct)
  case (iterates_step s r s' t)
  then show ?case using source_next_token [of s] suffix_order.trans by fastforce
qed simp

lemma list_all_suffixes: "list_all P (suffixes xs) \<longleftrightarrow> (\<forall>ys. suffix ys xs \<longrightarrow> P ys)"
  by (auto simp: list_all_iff)

text \<open>Tokenizing ends on every line that contains no such literal; the condition is decided by
  looking at the suffixes of the line.\<close>

theorem collect_tokens_terminates:
  assumes "list_all (\<lambda>s. \<not> at_overflow s) (suffixes src)"
  shows "\<exists>toks errs. collect_tokens src = Some (toks, errs)"
proof -
  have "\<not> at_overflow (source t)" if "iterates next_token (Lexer_init src) t" for t
    using iterates_suffix [OF that] assms by (simp add: list_all_suffixes Lexer_init_def)
  then have "collect_tokens src \<noteq> None"
    by (auto simp: collect_tokens_def collect_loop_None_iff)
  then show ?thesis by auto
qed

theorem collect_tokens_terminates_witness:
  "list_all (\<lambda>s. \<not> at_overflow s) (suffixes ''addi x5, x5, -87'') \<and>
   (\<exists>toks errs. collect_tokens ''addi x5, x5, -87'' = Some (toks, errs))"
proof -
  have h: "list_all (\<lambda>s. \<not> at_overflow s) (suffixes ''addi x5, x5, -87'')"
    by code_simp
  show ?thesis using h collect_tokens_terminates [OF h] by blast
qed

lemma iterates_next:
  "fst (next_token lx) \<noteq> None \<Longrightarrow> iterates next_token (snd (next_token lx)) t \<Longrightarrow> iterates next_token lx t"
  by (cases "next_token lx") (auto intro: iterates_step)

text \<open>The assembler hangs on a directive with the number 2147483648.\<close>

theorem collect_tokens_hangs: "collect_tokens ''.blocks 2147483648'' = None"
proof -
  let ?s = "Lexer_init ''.blocks 2147483648''"
  let ?t = "snd (next_token (snd (next_token ?s)))"
  have 1: "fst (next_token ?s) \<noteq> None" by code_simp
  have 2: "fst (next_token (snd (next_token ?s))) \<noteq> None" by code_simp
  have "iterates next_token ?s ?t"
    by (rule iterates_next [OF 1 iterates_next [OF 2 iterates_refl]])
  moreover have "at_overflow (source ?t)" by code_simp
  ultimately show ?thesis unfolding collect_tokens_def collect_loop_None_iff by blast
qed

section \<open>Columns\<close>

text \<open>Between two states the column has advanced by the number of characters read.\<close>

definition tracks_column :: "lexer \<Rightarrow> lexer \<Rightarrow> bool" where
  "tracks_column lx lx' \<longleftrightarrow>
     length (source lx') \<le> length (source lx) \<and>
     column_number lx' = column_number lx + word_of_nat (length (source lx) - length (source lx'))"

lemma tracks_column_refl [simp]: "tracks_column lx lx"
  by (simp add: tracks_column_def)

lemma tracks_column_trans:
  assumes "tracks_column a b" "tracks_column b c" shows "tracks_column a c"
proof -
  have "length (source a) - length (source b) + (length (source b) - length (source c))
      = length (source a) - length (source c)"
    using assms by (simp add: tracks_column_def)
  then show ?thesis
    using assms by (simp add: tracks_column_def add.assoc flip: of_nat_add)
qed

lemma tracks_chop: "source lx \<noteq> [] \<Longrightarrow> tracks_column lx (snd (chop lx))"
  by (cases "source lx") (simp_all add: tracks_column_def chop_def)

lemma tracks_chop_while: "tracks_column lx (snd (chop_while p lx))"
  by (simp add: tracks_column_def chop_while_def Let_def length_takeWhile_le)

lemma tracks_trim_whitespace: "tracks_column lx (trim_whitespace lx)"
proof (induction lx rule: trim_whitespace.induct)
  case (1 lx)
  show ?case
  proof (cases "trim_whitespace lx = lx")
    case False
    then obtain c cs where src: "source lx = c # cs" "is_whitespace c"
      using trim_whitespace_id by (metis list.exhaust_sel)
    then have t: "trim_whitespace lx = trim_whitespace (snd (chop lx))"
      by (subst trim_whitespace.simps) (auto simp: peek_def is_whitespace_def)
    have "tracks_column (snd (chop lx)) (trim_whitespace (snd (chop lx)))"
      using 1 src by (auto simp: peek_def is_whitespace_def)
    then show ?thesis
      unfolding t using tracks_chop [of lx] src by (auto intro: tracks_column_trans)
  qed simp
qed

lemma tracks_parse_number:
  "fst (lexer_parse_number lx) = Inr t \<Longrightarrow> tracks_column lx (snd (lexer_parse_number lx))"
  using parse_num_rest [of "source lx"]
  by (auto simp: lexer_parse_number_def tracks_column_def Let_def dest: suffix_length_le
      split: prod.splits sum.splits)

lemma tracks_parse_keyword: "tracks_column lx (snd (lexer_parse_keyword lx))"
proof -
  have "snd (lexer_parse_keyword lx) = snd (chop_while is_keyword_char lx)"
    by (auto simp: lexer_parse_keyword_def Let_def split: prod.splits option.splits sum.splits)
  then show ?thesis by (simp add: tracks_chop_while)
qed

lemma tracks_parse_directive: "tracks_column lx (snd (lexer_parse_directive lx))"
proof -
  have "snd (lexer_parse_directive lx) = snd (chop_while (\<lambda>c. \<not> is_whitespace c) lx)"
    by (auto simp: lexer_parse_directive_def split: prod.splits)
  then show ?thesis by (simp add: tracks_chop_while)
qed

lemma next_token_tracks:
  assumes "next_token lx = (Some (Inr t), lx')"
  shows "tracks_column lx lx'"
proof -
  let ?s = "trim_whitespace lx"
  obtain c cs where src: "source ?s = c # cs"
    using next_token_Some_source [OF assms] by blast
  then have "lx' = snd (lexer_parse_number ?s) \<and> fst (lexer_parse_number ?s) = Inr t
      \<or> lx' = snd (lexer_parse_keyword ?s) \<or> lx' = snd (chop ?s)
      \<or> lx' = snd (lexer_parse_directive (snd (chop ?s)))"
    using assms
    by (auto simp: next_token_def Let_def peek_def apfst_def map_prod_def
        split: prod.splits if_splits)
  then have "tracks_column ?s lx'"
    using src tracks_chop [of ?s] tracks_parse_directive [of "snd (chop ?s)"]
    by (auto simp: tracks_parse_number tracks_parse_keyword intro: tracks_column_trans)
  then show ?thesis using tracks_trim_whitespace tracks_column_trans by blast
qed

text \<open>Each token advances the column by exactly the number of characters read for it and for
  the white space before it.\<close>

theorem next_token_column:
  assumes "next_token lx = (Some (Inr t), lx')"
  shows "column_number lx' =
     column_number lx + word_of_nat (length (source lx) - length (source lx'))"
  using next_token_tracks [OF assms] by (simp add: tracks_column_def)

theorem next_token_column_witness:
  "next_token (Lexer_init ''  0x1F)'') =
     (Some (Inr \<lparr>token_type = T_Immediate 31, col = 3\<rparr>), \<lparr>column_number = 7, source = '')''\<rparr>)
   \<and> (7 :: idata) = 1 + word_of_nat (length ''  0x1F)'' - length '')'')"
proof -
  have h: "next_token (Lexer_init ''  0x1F)'') =
     (Some (Inr \<lparr>token_type = T_Immediate 31, col = 3\<rparr>), \<lparr>column_number = 7, source = '')''\<rparr>)"
    by code_simp
  show ?thesis using h next_token_column [OF h] by (simp add: Lexer_init_def)
qed

text \<open>Reading a number keeps the column in step only when it succeeds: after an error the column
  stays where it was although part of the source may have been consumed.\<close>

theorem parse_number_column:
  "column_number (snd (lexer_parse_number lx)) = column_number lx +
     (case fst (lexer_parse_number lx) of
        Inl e \<Rightarrow> 0
      | Inr t \<Rightarrow> word_of_nat (length (source lx) - length (source (snd (lexer_parse_number lx)))))"
  by (auto simp: lexer_parse_number_def Let_def split: prod.splits sum.splits)

end
