(* ===== verification/Parser.thy ===== *)
theory Parser
  imports Lexer
begin

text \<open>
  The line parser (\<open>sim/aslib/parser.hpp\<close>, \<open>sim/aslib/parser.cpp\<close> without
  \<open>parse_program\<close>). The parser's state is the tokens it has not read and the errors it has
  reported. A member function that returns a \<open>std::optional\<close> is a function of that state
  with an outcome: a value, \<open>std::nullopt\<close>, or a crash where the code would throw
  \<open>std::bad_variant_access\<close> or dereference an empty optional or a null pointer. The locale
  \<open>reporting_parser\<close> states the contract all these functions share.
\<close>

section \<open>Operands, instructions and lines\<close>

datatype imm_or_label_ref = Imm word_type | LabelRef string

datatype operands =
    ItypeOperands register register word_type      \<comment> \<open>rd, rs1, imm12\<close>
  | RtypeOperands register register register       \<comment> \<open>rd, rs1, rs2\<close>
  | StypeOperands register register word_type      \<comment> \<open>rs1, rs2, imm12\<close>
  | UtypeOperands register word_type               \<comment> \<open>rd, imm20\<close>
  | JtypeOperands register word_type               \<comment> \<open>rd, imm20\<close>
  | JalrOperands register register imm_or_label_ref \<comment> \<open>rd, rs1, immediate or label\<close>

text \<open>A value-initialised \<open>Operands\<close> holds the first alternative, all of it zero.\<close>

definition default_operands :: operands where
  "default_operands = ItypeOperands (vector_reg 0) (vector_reg 0) 0"

definition is_itype_arithmetic :: "mnemonic_name \<Rightarrow> bool" where
  "is_itype_arithmetic n \<longleftrightarrow>
     n = Mn_ADDI \<or> n = Mn_SLTI \<or> n = Mn_XORI \<or> n = Mn_ORI \<or> n = Mn_ANDI \<or> n = Mn_SLLI
     \<or> n = Mn_SRLI \<or> n = Mn_SRAI \<or> n = Mn_SX_SLTI"

definition is_rtype :: "mnemonic_name \<Rightarrow> bool" where
  "is_rtype n \<longleftrightarrow>
     n = Mn_ADD \<or> n = Mn_SUB \<or> n = Mn_SLL \<or> n = Mn_SLT \<or> n = Mn_XOR \<or> n = Mn_SRL
     \<or> n = Mn_SRA \<or> n = Mn_OR \<or> n = Mn_AND \<or> n = Mn_SX_SLT"

definition is_load_type :: "mnemonic_name \<Rightarrow> bool" where
  "is_load_type n \<longleftrightarrow> n = Mn_LB \<or> n = Mn_LH \<or> n = Mn_LW"

definition is_store_type :: "mnemonic_name \<Rightarrow> bool" where
  "is_store_type n \<longleftrightarrow> n = Mn_SB \<or> n = Mn_SH \<or> n = Mn_SW"

definition is_utype :: "mnemonic_name \<Rightarrow> bool" where
  "is_utype n \<longleftrightarrow> n = Mn_LUI \<or> n = Mn_AUIPC"

record instruction =
  label :: "string option"
  instr_mnemonic :: mnemonic
  operands :: operands

definition imm_or_label_to_string :: "imm_or_label_ref \<Rightarrow> string" where
  "imm_or_label_to_string i = (case i of Imm v \<Rightarrow> show_word_type v | LabelRef l \<Rightarrow> l)"

fun operands_to_str :: "mnemonic_name \<Rightarrow> operands \<Rightarrow> string" where
  "operands_to_str n (ItypeOperands rd rs1 imm12) =
     (if is_load_type n
      then reg_to_str rd @ '', '' @ show_word_type imm12 @ ''('' @ reg_to_str rs1 @ '')''
      else reg_to_str rd @ '', '' @ reg_to_str rs1 @ '', '' @ imm_or_label_to_string (Imm imm12))"
| "operands_to_str n (RtypeOperands rd rs1 rs2) =
     reg_to_str rd @ '', '' @ reg_to_str rs1 @ '', '' @ reg_to_str rs2"
| "operands_to_str n (StypeOperands rs1 rs2 imm12) =
     reg_to_str rs2 @ '', '' @ show_word_type imm12 @ ''('' @ reg_to_str rs1 @ '')''"
| "operands_to_str n (UtypeOperands rd imm20) = reg_to_str rd @ '', '' @ show_word_type imm20"
| "operands_to_str n (JtypeOperands rd imm20) = reg_to_str rd @ '', '' @ show_word_type imm20"
| "operands_to_str n (JalrOperands rd rs1 target) =
     reg_to_str rd @ '', '' @
     (case target of
        LabelRef l \<Rightarrow> l
      | Imm v \<Rightarrow> show_word_type v @ ''('' @ reg_to_str rs1 @ '')'')"

definition instruction_to_str :: "instruction \<Rightarrow> string" where
  "instruction_to_str i =
     (case label i of None \<Rightarrow> [] | Some l \<Rightarrow> l @ '': '') @
     mnemonic_to_str (instr_mnemonic i) @ '' '' @
     operands_to_str (name (instr_mnemonic i)) (operands i)"

datatype line =
    JustLabel string
  | WarpsDirective idata
  | BlocksDirective idata
  | InstructionLine instruction

definition line_to_str :: "line \<Rightarrow> string" where
  "line_to_str ln =
     (case ln of
        JustLabel l \<Rightarrow> l @ '':''
      | BlocksDirective n \<Rightarrow> ''.blocks '' @ show_idata n
      | WarpsDirective n \<Rightarrow> ''.warps '' @ show_idata n
      | InstructionLine i \<Rightarrow> instruction_to_str i)"

section \<open>The parser's state and outcomes\<close>

record parser =
  tokens :: "token list"
  errors :: "error list"

datatype crash = Bad_variant_access | Empty_dereference

datatype 'a outcome = Value 'a | Nullopt | Crash crash

type_synonym 'a action = "parser \<Rightarrow> 'a outcome \<times> parser"

definition returns :: "'a \<Rightarrow> 'a action" where
  "returns x p = (Value x, p)"

definition returns_nullopt :: "'a action" where
  "returns_nullopt p = (Nullopt, p)"

text \<open>Continue with the value of an action; a failure or a crash ends the function.\<close>

definition and_continue :: "'a action \<Rightarrow> ('a \<Rightarrow> 'b action) \<Rightarrow> 'b action" where
  "and_continue m k p =
     (case m p of
        (Value x, p) \<Rightarrow> k x p
      | (Nullopt, p) \<Rightarrow> (Nullopt, p)
      | (Crash c, p) \<Rightarrow> (Crash c, p))"

text \<open>The value of \<open>Token::as<T>\<close>, or the exception it throws.\<close>

definition get_or_throw :: "'a option \<Rightarrow> ('a \<Rightarrow> 'b action) \<Rightarrow> 'b action" where
  "get_or_throw v k p = (case v of None \<Rightarrow> (Crash Bad_variant_access, p) | Some x \<Rightarrow> k x p)"

definition parser_chop :: "parser \<Rightarrow> token option \<times> parser" where
  "parser_chop p =
     (case tokens p of [] \<Rightarrow> (None, p) | t # ts \<Rightarrow> (Some t, p\<lparr>tokens := ts\<rparr>))"

definition parser_peek :: "parser \<Rightarrow> token option" where
  "parser_peek p = (case tokens p of [] \<Rightarrow> None | t # ts \<Rightarrow> Some t)"

definition push_err :: "string \<Rightarrow> idata \<Rightarrow> parser \<Rightarrow> parser" where
  "push_err msg c p = p\<lparr>errors := errors p @ [\<lparr>message = msg, column = c, line = 0\<rparr>]\<rparr>"

definition throw_unexpected_token :: "string \<Rightarrow> token \<Rightarrow> parser \<Rightarrow> parser" where
  "throw_unexpected_token expected unexpected =
     push_err (''Unexpected token: Expected '' @ expected @ '', instead found ''
       @ token_to_str unexpected) (col unexpected)"

definition throw_unexpected_eos :: "string \<Rightarrow> parser \<Rightarrow> parser" where
  "throw_unexpected_eos expected =
     push_err (''Unexpected end of stream: Expected '' @ expected) 0"

definition expect :: "token_kind list \<Rightarrow> token action" where
  "expect kinds p =
     (case parser_chop p of
        (None, p) \<Rightarrow> (Nullopt, throw_unexpected_eos (token_type_to_str kinds) p)
      | (Some nxt, p) \<Rightarrow>
          if \<not> token_is_of_type kinds nxt
          then (Nullopt, throw_unexpected_token (token_type_to_str kinds) nxt p)
          else (Value nxt, p))"

definition check_register_correct_type :: "token \<Rightarrow> bool \<Rightarrow> bool action" where
  "check_register_correct_type reg_token should_be_scalar =
     get_or_throw (as_register reg_token) (\<lambda>reg p.
       if reg_is_scalar reg \<noteq> should_be_scalar then
         (Value False,
          push_err (''Register '' @ quoted (reg_to_str reg) @ '' should be ''
            @ (if should_be_scalar then ''scalar'' else ''vector'')) (col reg_token) p)
       else (Value True, p))"

text \<open>The macros \<open>EXPECT_OR_RETURN\<close> and \<open>CHECK_REG\<close>.\<close>

definition expect_or_return :: "token_kind list \<Rightarrow> (token \<Rightarrow> 'a action) \<Rightarrow> 'a action" where
  "expect_or_return kinds = and_continue (expect kinds)"

definition check_reg :: "token \<Rightarrow> bool \<Rightarrow> 'a action \<Rightarrow> 'a action" where
  "check_reg reg should_be_scalar k =
     and_continue (check_register_correct_type reg should_be_scalar)
       (\<lambda>ok. if ok then k else returns_nullopt)"

section \<open>Parsing the instruction formats\<close>

definition make_instruction :: "mnemonic \<Rightarrow> operands \<Rightarrow> instruction" where
  "make_instruction m ops = \<lparr>label = None, instr_mnemonic = m, operands = ops\<rparr>"

definition parse_utype_instruction :: "mnemonic \<Rightarrow> instruction action" where
  "parse_utype_instruction m =
     expect_or_return [K_Register] (\<lambda>rd.
     expect_or_return [K_Comma] (\<lambda>_.
     expect_or_return [K_Immediate] (\<lambda>imm20.
     check_reg rd (mnemonic_is_scalar m) (
     get_or_throw (as_register rd) (\<lambda>rd.
     get_or_throw (as_immediate imm20) (\<lambda>imm20.
     returns (make_instruction m (UtypeOperands rd imm20))))))))"

definition parse_itype_arithmetic_instruction :: "mnemonic \<Rightarrow> instruction action" where
  "parse_itype_arithmetic_instruction m =
     expect_or_return [K_Register] (\<lambda>rd.
     expect_or_return [K_Comma] (\<lambda>_.
     expect_or_return [K_Register] (\<lambda>rs1.
     expect_or_return [K_Comma] (\<lambda>_.
     expect_or_return [K_Immediate] (\<lambda>imm12.
     (let finish =
        get_or_throw (as_register rd) (\<lambda>rd.
        get_or_throw (as_register rs1) (\<lambda>rs1.
        get_or_throw (as_immediate imm12) (\<lambda>imm12.
        returns (make_instruction m (ItypeOperands rd rs1 imm12)))))
      in if name m = Mn_SX_SLTI then
           check_reg rd True (check_reg rs1 False finish)
         else
           check_reg rd (mnemonic_is_scalar m) (
           check_reg rs1 (mnemonic_is_scalar m) finish)))))))"

definition parse_rtype_instruction :: "mnemonic \<Rightarrow> instruction action" where
  "parse_rtype_instruction m =
     expect_or_return [K_Register] (\<lambda>rd.
     expect_or_return [K_Comma] (\<lambda>_.
     expect_or_return [K_Register] (\<lambda>rs1.
     expect_or_return [K_Comma] (\<lambda>_.
     expect_or_return [K_Register] (\<lambda>rs2.
     (let finish =
        get_or_throw (as_register rd) (\<lambda>rd.
        get_or_throw (as_register rs1) (\<lambda>rs1.
        get_or_throw (as_register rs2) (\<lambda>rs2.
        returns (make_instruction m (RtypeOperands rd rs1 rs2)))))
      in if name m = Mn_SX_SLT then
           check_reg rd True (check_reg rs1 False (check_reg rs2 False finish))
         else
           check_reg rd (mnemonic_is_scalar m) (
           check_reg rs1 (mnemonic_is_scalar m) (
           check_reg rs2 (mnemonic_is_scalar m) finish))))))))"

definition parse_load_instruction :: "mnemonic \<Rightarrow> instruction action" where
  "parse_load_instruction m =
     expect_or_return [K_Register] (\<lambda>rd.
     expect_or_return [K_Comma] (\<lambda>_.
     expect_or_return [K_Immediate] (\<lambda>offset.
     expect_or_return [K_Lparen] (\<lambda>_.
     expect_or_return [K_Register] (\<lambda>rs1.
     expect_or_return [K_Rparen] (\<lambda>_.
     check_reg rd (mnemonic_is_scalar m) (
     check_reg rs1 (mnemonic_is_scalar m) (
     get_or_throw (as_register rd) (\<lambda>rd.
     get_or_throw (as_register rs1) (\<lambda>rs1.
     get_or_throw (as_immediate offset) (\<lambda>offset.
     returns (make_instruction m (ItypeOperands rd rs1 offset)))))))))))))"

definition parse_store_instruction :: "mnemonic \<Rightarrow> instruction action" where
  "parse_store_instruction m =
     expect_or_return [K_Register] (\<lambda>rs2.
     expect_or_return [K_Comma] (\<lambda>_.
     expect_or_return [K_Immediate] (\<lambda>offset.
     expect_or_return [K_Lparen] (\<lambda>_.
     expect_or_return [K_Register] (\<lambda>rs1.
     expect_or_return [K_Rparen] (\<lambda>_.
     check_reg rs1 (mnemonic_is_scalar m) (
     check_reg rs2 (mnemonic_is_scalar m) (
     get_or_throw (as_register rs1) (\<lambda>rs1.
     get_or_throw (as_register rs2) (\<lambda>rs2.
     get_or_throw (as_immediate offset) (\<lambda>offset.
     returns (make_instruction m (StypeOperands rs1 rs2 offset)))))))))))))"

definition parse_jal_instruction :: "mnemonic \<Rightarrow> instruction action" where
  "parse_jal_instruction m =
     expect_or_return [K_Register] (\<lambda>rd.
     expect_or_return [K_Comma] (\<lambda>_.
     expect_or_return [K_Immediate] (\<lambda>imm.
     get_or_throw (as_register rd) (\<lambda>rd.
     get_or_throw (as_immediate imm) (\<lambda>imm.
     returns (make_instruction m (JtypeOperands rd imm)))))))"

definition parse_jalr_instruction :: "mnemonic \<Rightarrow> instruction action" where
  "parse_jalr_instruction m =
     expect_or_return [K_Register] (\<lambda>rd.
     expect_or_return [K_Comma] (\<lambda>_.
     expect_or_return [K_LabelRef, K_Immediate] (\<lambda>nxt.
     if token_is_of_type [K_LabelRef] nxt then
       get_or_throw (as_register rd) (\<lambda>rd.
       get_or_throw (as_label_ref nxt) (\<lambda>l.
       returns (make_instruction m (JalrOperands rd (vector_reg 0) (LabelRef l)))))
     else
       expect_or_return [K_Lparen] (\<lambda>_.
       expect_or_return [K_Register] (\<lambda>rs1.
       expect_or_return [K_Rparen] (\<lambda>_.
       get_or_throw (as_register rd) (\<lambda>rd.
       get_or_throw (as_register rs1) (\<lambda>rs1.
       get_or_throw (as_immediate nxt) (\<lambda>imm.
       returns (make_instruction m (JalrOperands rd rs1 (Imm imm))))))))))))"

section \<open>Parsing a line\<close>

definition as_line :: "instruction action \<Rightarrow> line action" where
  "as_line m = and_continue m (\<lambda>i. returns (InstructionLine i))"

text \<open>The dispatch of \<open>parse_instruction\<close> on the mnemonic it has taken from the tokens.\<close>

definition parse_by_mnemonic :: "token \<Rightarrow> mnemonic \<Rightarrow> line action" where
  "parse_by_mnemonic mnemonic_token m =
     (if name m = Mn_HALT then returns (InstructionLine (make_instruction m default_operands))
      else if is_itype_arithmetic (name m) then as_line (parse_itype_arithmetic_instruction m)
      else if is_rtype (name m) then as_line (parse_rtype_instruction m)
      else if is_load_type (name m) then as_line (parse_load_instruction m)
      else if is_store_type (name m) then as_line (parse_store_instruction m)
      else if is_utype (name m) then as_line (parse_utype_instruction m)
      else if name m = Mn_JALR then as_line (parse_jalr_instruction m)
      else if name m = Mn_JAL then as_line (parse_jal_instruction m)
      else (\<lambda>p. (Nullopt,
        push_err (''Unknown mnemonic: '' @ quoted (mnemonic_to_str m)) (col mnemonic_token) p)))"

definition parse_instruction :: "line action" where
  "parse_instruction p =
     (case parser_chop p of
        (None, p) \<Rightarrow> (Crash Empty_dereference, p)
      | (Some mnemonic_token, p) \<Rightarrow>
          get_or_throw (as_mnemonic mnemonic_token) (parse_by_mnemonic mnemonic_token) p)"

definition parse_directive :: "line action" where
  "parse_directive p =
     (case parser_chop p of
        (None, p) \<Rightarrow> (Nullopt, p)
      | (Some tok, p) \<Rightarrow>
          expect_or_return [K_Immediate] (\<lambda>number.
          get_or_throw (as_immediate number) (\<lambda>v p.
            if sint v < 1 then
              (Nullopt, push_err (''Invalid number of '' @ token_to_str tok @ '': ''
                 @ quoted (show_word_type v)) (col number) p)
            else
              (case parser_peek p of
                 Some t \<Rightarrow> (Nullopt, throw_unexpected_token ''End of line'' t p)
               | None \<Rightarrow>
                   if token_is_of_type [K_BlocksDirective] tok
                   then (Value (BlocksDirective v), p)
                   else (Value (WarpsDirective v), p)))) p)"

text \<open>
  The part of \<open>Parser::parse_line\<close> after the optional label: \<open>tok\<close> is the first token left.
\<close>

definition parse_after_label :: "string option \<Rightarrow> token \<Rightarrow> line action" where
  "parse_after_label lab tok p =
     (if token_is_of_type [K_Mnemonic] tok then
        and_continue parse_instruction (\<lambda>ln p.
          case ln of
            InstructionLine i \<Rightarrow>
              if tokens p = [] then (Value (InstructionLine (i\<lparr>label := lab\<rparr>)), p)
              else
                (case parser_peek p of
                   None \<Rightarrow> (Crash Empty_dereference, p)
                 | Some t \<Rightarrow>
                     (Nullopt, push_err (''Unexpected token: Expected end of line, instead found ''
                        @ quoted (token_to_str t)) (col tok) p))
          | _ \<Rightarrow> (Crash Bad_variant_access, p)) p
      else
        (Nullopt, push_err (''Unexpected token: Expected mnemonic or directive, instead found ''
           @ quoted (token_to_str tok)) (col tok) p))"

definition parser_parse_line :: "line action" where
  "parser_parse_line p =
     (if tokens p = [] then (Nullopt, p)
      else
        (case parser_peek p of
           None \<Rightarrow> (Crash Empty_dereference, p)
         | Some tok \<Rightarrow>
             if token_is_of_type [K_BlocksDirective] tok \<or> token_is_of_type [K_WarpsDirective] tok
             then parse_directive p
             else if token_is_of_type [K_Label] tok then
               get_or_throw (as_label tok) (\<lambda>l p.
                 let p = snd (parser_chop p)
                 in if tokens p = [] then (Value (JustLabel l), p)
                    else
                      (case parser_peek p of
                         None \<Rightarrow> (Crash Empty_dereference, p)
                       | Some tok \<Rightarrow> parse_after_label (Some l) tok p)) p
             else parse_after_label None tok p))"

definition parse_line :: "token list \<Rightarrow> (error list + line) outcome" where
  "parse_line toks =
     (case parser_parse_line \<lparr>tokens = toks, errors = []\<rparr> of
        (Value ln, p) \<Rightarrow> Value (Inr ln)
      | (Nullopt, p) \<Rightarrow> Value (Inl (errors p))
      | (Crash c, p) \<Rightarrow> Crash c)"

section \<open>The contract of a parsing function\<close>

text \<open>
  A parsing function never crashes, reports exactly one error when it fails and none when it
  succeeds, and on success leaves a suffix of the tokens.
\<close>

locale reporting_parser =
  fixes act :: "'a action"
  assumes no_crash: "fst (act p) \<noteq> Crash c"
    and value_errors: "act p = (Value v, p') \<Longrightarrow> errors p' = errors p"
    and value_rest: "act p = (Value v, p') \<Longrightarrow> suffix (tokens p') (tokens p)"
    and nullopt_errors: "act p = (Nullopt, p') \<Longrightarrow> \<exists>e. errors p' = errors p @ [e]"
begin

lemma outcome_cases:
  obtains (value_returned) v p' where "act p = (Value v, p')" "errors p' = errors p"
      "suffix (tokens p') (tokens p)"
  | (failed) e p' where "act p = (Nullopt, p')" "errors p' = errors p @ [e]"
proof (cases "fst (act p)")
  case (Value v)
  then show ?thesis
    using value_returned value_errors value_rest by (metis prod.collapse)
next
  case Nullopt
  then show ?thesis
    using failed nullopt_errors by (metis prod.collapse)
next
  case (Crash c)
  then show ?thesis using no_crash by blast
qed

lemma error_count:
  "length (errors (snd (act p))) =
     length (errors p) + (case fst (act p) of Nullopt \<Rightarrow> 1 | _ \<Rightarrow> 0)"
  by (cases rule: outcome_cases [of p]) auto

end

lemma as_register_iff [simp]: "as_register t = Some r \<longleftrightarrow> token_type t = T_Register r"
  by (auto simp: as_register_def split: token_type.splits)

lemma as_immediate_iff [simp]: "as_immediate t = Some i \<longleftrightarrow> token_type t = T_Immediate i"
  by (auto simp: as_immediate_def split: token_type.splits)

lemma as_label_iff [simp]: "as_label t = Some l \<longleftrightarrow> token_type t = T_Label l"
  by (auto simp: as_label_def split: token_type.splits)

lemma as_label_ref_iff [simp]: "as_label_ref t = Some l \<longleftrightarrow> token_type t = T_LabelRef l"
  by (auto simp: as_label_ref_def split: token_type.splits)

lemma as_mnemonic_iff [simp]: "as_mnemonic t = Some m \<longleftrightarrow> token_type t = T_Mnemonic m"
  by (auto simp: as_mnemonic_def split: token_type.splits)

lemma kind_of_iff:
  "kind_of ty = K_Register \<longleftrightarrow> (\<exists>r. ty = T_Register r)"
  "kind_of ty = K_Immediate \<longleftrightarrow> (\<exists>i. ty = T_Immediate i)"
  "kind_of ty = K_Label \<longleftrightarrow> (\<exists>l. ty = T_Label l)"
  "kind_of ty = K_LabelRef \<longleftrightarrow> (\<exists>l. ty = T_LabelRef l)"
  "kind_of ty = K_Mnemonic \<longleftrightarrow> (\<exists>m. ty = T_Mnemonic m)"
  "kind_of ty = K_Comma \<longleftrightarrow> ty = T_Comma"
  "kind_of ty = K_Lparen \<longleftrightarrow> ty = T_Lparen"
  "kind_of ty = K_Rparen \<longleftrightarrow> ty = T_Rparen"
  "kind_of ty = K_BlocksDirective \<longleftrightarrow> ty = T_BlocksDirective"
  "kind_of ty = K_WarpsDirective \<longleftrightarrow> ty = T_WarpsDirective"
  by (cases ty; simp)+

lemma reporting_returns: "reporting_parser (returns x)"
  by unfold_locales (auto simp: returns_def)

lemma reporting_and_continue:
  assumes m: "reporting_parser m"
    and k: "\<And>x p p'. m p = (Value x, p') \<Longrightarrow> reporting_parser (k x)"
  shows "reporting_parser (and_continue m k)"
proof
  fix p c
  show "fst (and_continue m k p) \<noteq> Crash c"
    using reporting_parser.no_crash [OF m, of p] reporting_parser.no_crash [OF k]
    by (cases "m p"; cases "fst (m p)") (auto simp: and_continue_def)
next
  fix p v p' assume "and_continue m k p = (Value v, p')"
  then obtain x q where "m p = (Value x, q)" "k x q = (Value v, p')"
    by (auto simp: and_continue_def split: prod.splits outcome.splits)
  then show "errors p' = errors p" "suffix (tokens p') (tokens p)"
    using reporting_parser.value_errors [OF m] reporting_parser.value_errors [OF k]
      reporting_parser.value_rest [OF m] reporting_parser.value_rest [OF k]
    by (fastforce intro: suffix_order.trans)+
next
  fix p p' assume "and_continue m k p = (Nullopt, p')"
  then consider "m p = (Nullopt, p')" | x q where "m p = (Value x, q)" "k x q = (Nullopt, p')"
    by (auto simp: and_continue_def split: prod.splits outcome.splits)
  then show "\<exists>e. errors p' = errors p @ [e]"
    using reporting_parser.nullopt_errors [OF m] reporting_parser.value_errors [OF m]
      reporting_parser.nullopt_errors [OF k] by cases fastforce+
qed

lemma expect_Value: "expect kinds p = (Value t, p') \<Longrightarrow> token_is_of_type kinds t"
  by (auto simp: expect_def split: prod.splits option.splits if_splits)

lemma reporting_expect: "reporting_parser (expect kinds)"
  by unfold_locales
    (auto simp: expect_def parser_chop_def throw_unexpected_eos_def throw_unexpected_token_def
      push_err_def suffix_Cons split: list.splits if_splits)

lemma reporting_expect_or_return:
  "(\<And>t. token_is_of_type kinds t \<Longrightarrow> reporting_parser (k t)) \<Longrightarrow>
     reporting_parser (expect_or_return kinds k)"
  unfolding expect_or_return_def
  by (rule reporting_and_continue [OF reporting_expect]) (blast dest: expect_Value)

lemma reporting_check_reg:
  assumes "token_is_of_type [K_Register] t" and k: "reporting_parser k"
  shows "reporting_parser (check_reg t b k)"
proof -
  obtain r where r: "as_register t = Some r"
    using assms(1) by (auto simp: token_is_of_type_def kind_of_iff)
  have eq: "check_reg t b k = (\<lambda>p. if reg_is_scalar r = b then k p
      else (Nullopt, push_err (''Register '' @ quoted (reg_to_str r) @ '' should be ''
            @ (if b then ''scalar'' else ''vector'')) (col t) p))"
    by (rule ext) (simp add: check_reg_def check_register_correct_type_def r get_or_throw_def
        and_continue_def returns_nullopt_def)
  show ?thesis
    unfolding eq
    using reporting_parser.no_crash [OF k] reporting_parser.value_errors [OF k]
      reporting_parser.value_rest [OF k] reporting_parser.nullopt_errors [OF k]
    by unfold_locales (auto simp: push_err_def split: if_splits)
qed

lemma reporting_get_or_throw:
  assumes "v \<noteq> None" and "\<And>x. v = Some x \<Longrightarrow> reporting_parser (k x)"
  shows "reporting_parser (get_or_throw v k)"
proof -
  obtain x where "v = Some x" using assms(1) by auto
  moreover have "get_or_throw (Some x) k = k x" by (rule ext) (simp add: get_or_throw_def)
  ultimately show ?thesis using assms(2) by simp
qed

lemma token_values:
  "token_is_of_type [K_Register] t \<Longrightarrow> as_register t \<noteq> None"
  "token_is_of_type [K_Immediate] t \<Longrightarrow> as_immediate t \<noteq> None"
  "token_is_of_type [K_LabelRef] t \<Longrightarrow> as_label_ref t \<noteq> None"
  "token_is_of_type [K_LabelRef, K_Immediate] t \<Longrightarrow> \<not> token_is_of_type [K_LabelRef] t \<Longrightarrow>
     as_immediate t \<noteq> None"
  by (auto simp: token_is_of_type_def kind_of_iff)

lemma reporting_if:
  "(b \<Longrightarrow> reporting_parser x) \<Longrightarrow> (\<not> b \<Longrightarrow> reporting_parser y) \<Longrightarrow>
     reporting_parser (if b then x else y)"
  by simp

lemmas reporting_intros =
  reporting_returns reporting_expect_or_return reporting_check_reg reporting_get_or_throw
  reporting_if token_values

lemma reporting_utype: "reporting_parser (parse_utype_instruction m)"
  unfolding parse_utype_instruction_def by (intro reporting_intros)

lemma reporting_itype: "reporting_parser (parse_itype_arithmetic_instruction m)"
  unfolding parse_itype_arithmetic_instruction_def Let_def by (intro reporting_intros)

lemma reporting_rtype: "reporting_parser (parse_rtype_instruction m)"
  unfolding parse_rtype_instruction_def Let_def by (intro reporting_intros)

lemma reporting_load: "reporting_parser (parse_load_instruction m)"
  unfolding parse_load_instruction_def by (intro reporting_intros)

lemma reporting_store: "reporting_parser (parse_store_instruction m)"
  unfolding parse_store_instruction_def by (intro reporting_intros)

lemma reporting_jal: "reporting_parser (parse_jal_instruction m)"
  unfolding parse_jal_instruction_def by (intro reporting_intros)

lemma reporting_jalr: "reporting_parser (parse_jalr_instruction m)"
  unfolding parse_jalr_instruction_def by (intro reporting_intros)

section \<open>The language of lines\<close>

text \<open>
  What the parser is meant to accept, as a specification: the token types that spell an
  instruction's operands, and which operands a mnemonic may have.
\<close>

fun operand_tokens :: "mnemonic_name \<Rightarrow> operands \<Rightarrow> token_type list" where
  "operand_tokens n (ItypeOperands rd rs1 imm12) =
     (if n = Mn_HALT then []
      else if is_load_type n
      then [T_Register rd, T_Comma, T_Immediate imm12, T_Lparen, T_Register rs1, T_Rparen]
      else [T_Register rd, T_Comma, T_Register rs1, T_Comma, T_Immediate imm12])"
| "operand_tokens n (RtypeOperands rd rs1 rs2) =
     [T_Register rd, T_Comma, T_Register rs1, T_Comma, T_Register rs2]"
| "operand_tokens n (StypeOperands rs1 rs2 imm12) =
     [T_Register rs2, T_Comma, T_Immediate imm12, T_Lparen, T_Register rs1, T_Rparen]"
| "operand_tokens n (UtypeOperands rd imm20) = [T_Register rd, T_Comma, T_Immediate imm20]"
| "operand_tokens n (JtypeOperands rd imm20) = [T_Register rd, T_Comma, T_Immediate imm20]"
| "operand_tokens n (JalrOperands rd rs1 target) =
     [T_Register rd, T_Comma] @
     (case target of
        LabelRef l \<Rightarrow> [T_LabelRef l]
      | Imm v \<Rightarrow> [T_Immediate v, T_Lparen, T_Register rs1, T_Rparen])"

definition regs_match :: "mnemonic \<Rightarrow> register list \<Rightarrow> bool" where
  "regs_match m rs \<longleftrightarrow> (\<forall>r\<in>set rs. reg_is_scalar r = mnemonic_is_scalar m)"

fun operands_ok :: "mnemonic \<Rightarrow> operands \<Rightarrow> bool" where
  "operands_ok m (ItypeOperands rd rs1 imm12) \<longleftrightarrow>
     (if name m = Mn_HALT then ItypeOperands rd rs1 imm12 = default_operands
      else if name m = Mn_SX_SLTI then reg_is_scalar rd \<and> \<not> reg_is_scalar rs1
      else (is_itype_arithmetic (name m) \<or> is_load_type (name m)) \<and> regs_match m [rd, rs1])"
| "operands_ok m (RtypeOperands rd rs1 rs2) \<longleftrightarrow>
     (if name m = Mn_SX_SLT
      then reg_is_scalar rd \<and> \<not> reg_is_scalar rs1 \<and> \<not> reg_is_scalar rs2
      else is_rtype (name m) \<and> regs_match m [rd, rs1, rs2])"
| "operands_ok m (StypeOperands rs1 rs2 imm12) \<longleftrightarrow>
     is_store_type (name m) \<and> regs_match m [rs1, rs2]"
| "operands_ok m (UtypeOperands rd imm20) \<longleftrightarrow> is_utype (name m) \<and> regs_match m [rd]"
| "operands_ok m (JtypeOperands rd imm20) \<longleftrightarrow> name m = Mn_JAL"
| "operands_ok m (JalrOperands rd rs1 target) \<longleftrightarrow>
     name m = Mn_JALR \<and> (\<forall>l. target = LabelRef l \<longrightarrow> rs1 = vector_reg 0)"

definition instruction_tokens :: "instruction \<Rightarrow> token_type list" where
  "instruction_tokens i =
     T_Mnemonic (instr_mnemonic i) # operand_tokens (name (instr_mnemonic i)) (operands i)"

fun line_tokens :: "line \<Rightarrow> token_type list" where
  "line_tokens (JustLabel l) = [T_Label l]"
| "line_tokens (BlocksDirective v) = [T_BlocksDirective, T_Immediate v]"
| "line_tokens (WarpsDirective v) = [T_WarpsDirective, T_Immediate v]"
| "line_tokens (InstructionLine i) =
     (case label i of None \<Rightarrow> [] | Some l \<Rightarrow> [T_Label l]) @ instruction_tokens i"

fun line_ok :: "line \<Rightarrow> bool" where
  "line_ok (JustLabel l) \<longleftrightarrow> True"
| "line_ok (BlocksDirective v) \<longleftrightarrow> 1 \<le> sint v"
| "line_ok (WarpsDirective v) \<longleftrightarrow> 1 \<le> sint v"
| "line_ok (InstructionLine i) \<longleftrightarrow> operands_ok (instr_mnemonic i) (operands i)"

text \<open>\<open>spelled tys ts rest\<close>: the tokens \<open>ts\<close> start with tokens of the types \<open>tys\<close>, before
  \<open>rest\<close>.\<close>

primrec spelled :: "token_type list \<Rightarrow> token list \<Rightarrow> token list \<Rightarrow> bool" where
  "spelled [] ts rest \<longleftrightarrow> ts = rest"
| "spelled (ty # tys) ts rest \<longleftrightarrow>
     (\<exists>t us. ts = t # us \<and> token_type t = ty \<and> spelled tys us rest)"

lemma spelled_all: "spelled tys ts [] \<longleftrightarrow> map token_type ts = tys"
  by (induction tys arbitrary: ts) (auto simp: map_eq_Cons_conv)

section \<open>What each format accepts\<close>

locale format_parser = reporting_parser act for act :: "'a action" +
  fixes m :: mnemonic and wrap :: "instruction \<Rightarrow> 'a"
  assumes accepts: "act p = (Value x, p') \<longleftrightarrow> (\<exists>ops.
      x = wrap (make_instruction m ops) \<and> operands_ok m ops \<and>
      spelled (operand_tokens (name m) ops) (tokens p) (tokens p') \<and> errors p' = errors p)"

lemma expect_or_return_Value:
  "expect_or_return kinds k p = (Value x, p') \<longleftrightarrow>
     (\<exists>t ts. tokens p = t # ts \<and> token_is_of_type kinds t \<and> k t (p\<lparr>tokens := ts\<rparr>) = (Value x, p'))"
  by (auto simp: expect_or_return_def and_continue_def expect_def parser_chop_def
      throw_unexpected_eos_def throw_unexpected_token_def push_err_def split: list.splits)

lemma check_reg_Value:
  "check_reg t b k p = (Value x, p') \<longleftrightarrow>
     (\<exists>r. token_type t = T_Register r \<and> reg_is_scalar r = b \<and> k p = (Value x, p'))"
  by (auto simp: check_reg_def check_register_correct_type_def get_or_throw_def and_continue_def
      returns_nullopt_def as_register_def split: option.splits if_splits token_type.splits)

lemma get_or_throw_Value:
  "get_or_throw v k p = (Value x, p') \<longleftrightarrow> (\<exists>y. v = Some y \<and> k y p = (Value x, p'))"
  by (auto simp: get_or_throw_def split: option.splits)

lemma returns_Value: "returns y p = (Value x, p') \<longleftrightarrow> x = y \<and> p' = p"
  by (auto simp: returns_def)

lemma expect_either_Value:
  "expect_or_return [K_LabelRef, K_Immediate]
       (\<lambda>t. if token_is_of_type [K_LabelRef] t then a t else b t) p = (Value x, p') \<longleftrightarrow>
     (\<exists>t ts. tokens p = t # ts \<and>
       ((\<exists>l. token_type t = T_LabelRef l) \<and> a t (p\<lparr>tokens := ts\<rparr>) = (Value x, p') \<or>
        (\<exists>i. token_type t = T_Immediate i) \<and> b t (p\<lparr>tokens := ts\<rparr>) = (Value x, p')))"
  by (cases "tokens p") (auto simp: expect_or_return_Value token_is_of_type_def kind_of_iff)

lemma parser_eq_iff:
  "(p :: parser) = q \<longleftrightarrow> tokens p = tokens q \<and> errors p = errors q"
  by auto

lemma instruction_eq_iff:
  "(i :: instruction) = j \<longleftrightarrow>
     label i = label j \<and> instr_mnemonic i = instr_mnemonic j \<and> operands i = operands j"
  by auto

lemma token_is_kind:
  "token_is_of_type [K_Register] t \<longleftrightarrow> (\<exists>r. token_type t = T_Register r)"
  "token_is_of_type [K_Immediate] t \<longleftrightarrow> (\<exists>r. token_type t = T_Immediate r)"
  "token_is_of_type [K_LabelRef] t \<longleftrightarrow> (\<exists>r. token_type t = T_LabelRef r)"
  "token_is_of_type [K_LabelRef, K_Immediate] t \<longleftrightarrow>
     (\<exists>r. token_type t = T_LabelRef r) \<or> (\<exists>i. token_type t = T_Immediate i)"
  "token_is_of_type [K_Comma] t \<longleftrightarrow> token_type t = T_Comma"
  "token_is_of_type [K_Lparen] t \<longleftrightarrow> token_type t = T_Lparen"
  "token_is_of_type [K_Rparen] t \<longleftrightarrow> token_type t = T_Rparen"
  "token_is_of_type [K_Label] t \<longleftrightarrow> (\<exists>l. token_type t = T_Label l)"
  "token_is_of_type [K_Mnemonic] t \<longleftrightarrow> (\<exists>l. token_type t = T_Mnemonic l)"
  "token_is_of_type [K_BlocksDirective] t \<longleftrightarrow> token_type t = T_BlocksDirective"
  "token_is_of_type [K_WarpsDirective] t \<longleftrightarrow> token_type t = T_WarpsDirective"
  by (auto simp: token_is_of_type_def kind_of_iff)

lemmas accept_simps =
  expect_or_return_Value check_reg_Value get_or_throw_Value returns_Value token_is_kind
  parser_eq_iff regs_match_def

lemmas format_defs =
  is_utype_def is_load_type_def is_store_type_def is_rtype_def is_itype_arithmetic_def

lemma rtype_disjoint:
  "is_rtype n \<Longrightarrow> n \<noteq> Mn_HALT \<and> n \<noteq> Mn_SX_SLTI \<and> \<not> is_itype_arithmetic n \<and> \<not> is_load_type n
     \<and> \<not> is_store_type n \<and> \<not> is_utype n \<and> n \<noteq> Mn_JAL \<and> n \<noteq> Mn_JALR"
  by (cases n) (simp_all add: format_defs)

lemma itype_disjoint:
  "is_itype_arithmetic n \<Longrightarrow> n \<noteq> Mn_HALT \<and> n \<noteq> Mn_SX_SLT \<and> \<not> is_rtype n \<and> \<not> is_load_type n
     \<and> \<not> is_store_type n \<and> \<not> is_utype n \<and> n \<noteq> Mn_JAL \<and> n \<noteq> Mn_JALR"
  by (cases n) (simp_all add: format_defs)

lemma format_parserI:
  assumes "reporting_parser act"
    and "\<And>p x p'. act p = (Value x, p') \<longleftrightarrow> (\<exists>ops.
      x = wrap (make_instruction m ops) \<and> operands_ok m ops \<and>
      spelled (operand_tokens (name m) ops) (tokens p) (tokens p') \<and> errors p' = errors p)"
  shows "format_parser act m wrap"
  using assms by (simp add: format_parser_def format_parser_axioms_def)

lemma utype_accepts:
  assumes "is_utype (name m)"
  shows "format_parser (parse_utype_instruction m) m id"
proof (rule format_parserI [OF reporting_utype])
  fix p x p'
  have "operands_ok m ops \<longleftrightarrow> (\<exists>rd i. ops = UtypeOperands rd i \<and> reg_is_scalar rd = mnemonic_is_scalar m)" for ops
    using assms by (cases ops) (auto simp: format_defs regs_match_def)
  then show "parse_utype_instruction m p = (Value x, p') \<longleftrightarrow> (\<exists>ops.
      x = id (make_instruction m ops) \<and> operands_ok m ops \<and>
      spelled (operand_tokens (name m) ops) (tokens p) (tokens p') \<and> errors p' = errors p)"
    unfolding parse_utype_instruction_def by (auto simp: accept_simps)
qed

lemma load_accepts:
  assumes "is_load_type (name m)"
  shows "format_parser (parse_load_instruction m) m id"
proof (rule format_parserI [OF reporting_load])
  fix p x p'
  have "operands_ok m ops \<longleftrightarrow> (\<exists>rd rs1 i. ops = ItypeOperands rd rs1 i \<and>
      reg_is_scalar rd = mnemonic_is_scalar m \<and> reg_is_scalar rs1 = mnemonic_is_scalar m)" for ops
    using assms by (cases ops) (auto simp: format_defs regs_match_def)
  moreover have "name m \<noteq> Mn_HALT" using assms by (auto simp: format_defs)
  ultimately show "parse_load_instruction m p = (Value x, p') \<longleftrightarrow> (\<exists>ops.
      x = id (make_instruction m ops) \<and> operands_ok m ops \<and>
      spelled (operand_tokens (name m) ops) (tokens p) (tokens p') \<and> errors p' = errors p)"
    using assms unfolding parse_load_instruction_def by (auto simp: accept_simps)
qed

lemma store_accepts:
  assumes "is_store_type (name m)"
  shows "format_parser (parse_store_instruction m) m id"
proof (rule format_parserI [OF reporting_store])
  fix p x p'
  have "operands_ok m ops \<longleftrightarrow> (\<exists>rs1 rs2 i. ops = StypeOperands rs1 rs2 i \<and>
      reg_is_scalar rs1 = mnemonic_is_scalar m \<and> reg_is_scalar rs2 = mnemonic_is_scalar m)" for ops
    using assms by (cases ops) (auto simp: format_defs regs_match_def)
  then show "parse_store_instruction m p = (Value x, p') \<longleftrightarrow> (\<exists>ops.
      x = id (make_instruction m ops) \<and> operands_ok m ops \<and>
      spelled (operand_tokens (name m) ops) (tokens p) (tokens p') \<and> errors p' = errors p)"
    unfolding parse_store_instruction_def by (auto simp: accept_simps)
qed

lemma jal_accepts:
  assumes "name m = Mn_JAL"
  shows "format_parser (parse_jal_instruction m) m id"
proof (rule format_parserI [OF reporting_jal])
  fix p x p'
  have "operands_ok m ops \<longleftrightarrow> (\<exists>rd i. ops = JtypeOperands rd i)" for ops
    using assms by (cases ops) (auto simp: format_defs)
  then show "parse_jal_instruction m p = (Value x, p') \<longleftrightarrow> (\<exists>ops.
      x = id (make_instruction m ops) \<and> operands_ok m ops \<and>
      spelled (operand_tokens (name m) ops) (tokens p) (tokens p') \<and> errors p' = errors p)"
    unfolding parse_jal_instruction_def by (auto simp: accept_simps)
qed

lemma jalr_accepts:
  assumes "name m = Mn_JALR"
  shows "format_parser (parse_jalr_instruction m) m id"
proof (rule format_parserI [OF reporting_jalr])
  fix p x p'
  have "operands_ok m ops \<longleftrightarrow> (\<exists>rd rs1 i. ops = JalrOperands rd rs1 (Imm i)) \<or>
      (\<exists>rd l. ops = JalrOperands rd (vector_reg 0) (LabelRef l))" for ops
  proof (cases ops)
    case (JalrOperands rd rs1 t)
    then show ?thesis using assms by (cases t) auto
  qed (use assms in \<open>auto simp: format_defs\<close>)
  then show "parse_jalr_instruction m p = (Value x, p') \<longleftrightarrow> (\<exists>ops.
      x = id (make_instruction m ops) \<and> operands_ok m ops \<and>
      spelled (operand_tokens (name m) ops) (tokens p) (tokens p') \<and> errors p' = errors p)"
    unfolding parse_jalr_instruction_def
    by (subst expect_or_return_Value, subst expect_or_return_Value, subst expect_either_Value)
      (auto simp: accept_simps)
qed

lemma itype_accepts:
  assumes "is_itype_arithmetic (name m)"
  shows "format_parser (parse_itype_arithmetic_instruction m) m id"
proof (rule format_parserI [OF reporting_itype])
  fix p x p'
  have "operands_ok m ops \<longleftrightarrow> (\<exists>rd rs1 i. ops = ItypeOperands rd rs1 i \<and>
      (if name m = Mn_SX_SLTI then reg_is_scalar rd \<and> \<not> reg_is_scalar rs1
       else reg_is_scalar rd = mnemonic_is_scalar m \<and> reg_is_scalar rs1 = mnemonic_is_scalar m))" for ops
    using assms itype_disjoint [OF assms] by (cases ops) (simp_all add: regs_match_def)
  moreover note itype_disjoint [OF assms]
  ultimately show "parse_itype_arithmetic_instruction m p = (Value x, p') \<longleftrightarrow> (\<exists>ops.
      x = id (make_instruction m ops) \<and> operands_ok m ops \<and>
      spelled (operand_tokens (name m) ops) (tokens p) (tokens p') \<and> errors p' = errors p)"
    using assms unfolding parse_itype_arithmetic_instruction_def Let_def
    by (cases "name m = Mn_SX_SLTI") (auto simp: accept_simps)
qed

lemma rtype_accepts:
  assumes "is_rtype (name m)"
  shows "format_parser (parse_rtype_instruction m) m id"
proof (rule format_parserI [OF reporting_rtype])
  fix p x p'
  have "operands_ok m ops \<longleftrightarrow> (\<exists>rd rs1 rs2. ops = RtypeOperands rd rs1 rs2 \<and>
      (if name m = Mn_SX_SLT then reg_is_scalar rd \<and> \<not> reg_is_scalar rs1 \<and> \<not> reg_is_scalar rs2
       else reg_is_scalar rd = mnemonic_is_scalar m \<and> reg_is_scalar rs1 = mnemonic_is_scalar m
         \<and> reg_is_scalar rs2 = mnemonic_is_scalar m))" for ops
    using assms rtype_disjoint [OF assms] by (cases ops) (simp_all add: regs_match_def)
  then show "parse_rtype_instruction m p = (Value x, p') \<longleftrightarrow> (\<exists>ops.
      x = id (make_instruction m ops) \<and> operands_ok m ops \<and>
      spelled (operand_tokens (name m) ops) (tokens p) (tokens p') \<and> errors p' = errors p)"
    using assms unfolding parse_rtype_instruction_def Let_def
    by (cases "name m = Mn_SX_SLT") (auto simp: accept_simps)
qed

text \<open>The dispatch on the mnemonic satisfies the contract for every mnemonic.\<close>

lemma as_line_Value:
  "as_line a p = (Value x, p') \<longleftrightarrow> (\<exists>i. x = InstructionLine i \<and> a p = (Value i, p'))"
  by (auto simp: as_line_def and_continue_def returns_def split: prod.splits outcome.splits)

lemma line_format:
  assumes "format_parser a m id"
  shows "format_parser (as_line a) m InstructionLine"
proof (rule format_parserI)
  show "reporting_parser (as_line a)"
    unfolding as_line_def
    by (rule reporting_and_continue [OF format_parser.axioms(1) [OF assms] reporting_returns])
next
  fix p x p'
  show "as_line a p = (Value x, p') \<longleftrightarrow> (\<exists>ops.
      x = InstructionLine (make_instruction m ops) \<and> operands_ok m ops \<and>
      spelled (operand_tokens (name m) ops) (tokens p) (tokens p') \<and> errors p' = errors p)"
    using format_parser.accepts [OF assms, of p _ p'] by (auto simp: as_line_Value)
qed

lemma halt_accepts:
  assumes "name m = Mn_HALT"
  shows "format_parser (returns (InstructionLine (make_instruction m default_operands))) m
    InstructionLine"
proof (rule format_parserI [OF reporting_returns])
  fix p x p'
  have tokens: "operand_tokens Mn_HALT default_operands = []"
    by (simp add: default_operands_def)
  have "operands_ok m ops \<longleftrightarrow> ops = default_operands" for ops
    using assms by (cases ops) (auto simp: format_defs default_operands_def)
  then show "returns (InstructionLine (make_instruction m default_operands)) p = (Value x, p') \<longleftrightarrow>
      (\<exists>ops. x = InstructionLine (make_instruction m ops) \<and> operands_ok m ops \<and>
      spelled (operand_tokens (name m) ops) (tokens p) (tokens p') \<and> errors p' = errors p)"
    using assms tokens by (auto simp: returns_Value parser_eq_iff)
qed

lemma unknown_accepts:
  assumes "name m \<noteq> Mn_HALT" "\<not> is_itype_arithmetic (name m)" "\<not> is_rtype (name m)"
    "\<not> is_load_type (name m)" "\<not> is_store_type (name m)" "\<not> is_utype (name m)"
    "name m \<noteq> Mn_JALR" "name m \<noteq> Mn_JAL"
  shows "format_parser (\<lambda>p. (Nullopt, push_err msg c p)) m InstructionLine"
proof (rule format_parserI)
  show "reporting_parser (\<lambda>p. (Nullopt, push_err msg c p))"
    by unfold_locales (auto simp: push_err_def)
  fix p x and p' :: parser
  have "\<not> operands_ok m ops" for ops
    using assms by (cases ops) (auto simp: is_rtype_def is_itype_arithmetic_def)
  then show "(Nullopt, push_err msg c p) = (Value x, p') \<longleftrightarrow> (\<exists>ops.
      x = InstructionLine (make_instruction m ops) \<and> operands_ok m ops \<and>
      spelled (operand_tokens (name m) ops) (tokens p) (tokens p') \<and> errors p' = errors p)"
    by simp
qed

lemma format_if:
  "(b \<Longrightarrow> format_parser x m w) \<Longrightarrow> (\<not> b \<Longrightarrow> format_parser y m w) \<Longrightarrow>
     format_parser (if b then x else y) m w"
  by simp

lemma dispatch_accepts: "format_parser (parse_by_mnemonic tok m) m InstructionLine"
  unfolding parse_by_mnemonic_def
  by (rule format_if, erule halt_accepts)
    (rule format_if, rule line_format, erule itype_accepts,
     rule format_if, rule line_format, erule rtype_accepts,
     rule format_if, rule line_format, erule load_accepts,
     rule format_if, rule line_format, erule store_accepts,
     rule format_if, rule line_format, erule utype_accepts,
     rule format_if, rule line_format, erule jalr_accepts,
     rule format_if, rule line_format, erule jal_accepts,
     rule unknown_accepts)

interpretation dispatch: format_parser "parse_by_mnemonic tok m" m InstructionLine for tok m
  by (rule dispatch_accepts)

section \<open>What the line parser accepts and reports\<close>

lemma parse_instruction_mnemonic:
  "tokens p = t # ts \<Longrightarrow> token_type t = T_Mnemonic m \<Longrightarrow>
     parse_instruction p = parse_by_mnemonic t m (p\<lparr>tokens := ts\<rparr>)"
  by (simp add: parse_instruction_def parser_chop_def get_or_throw_def as_mnemonic_def)

lemma complete_operands:
  assumes "operands_ok m ops" and "map token_type ts = operand_tokens (name m) ops"
  shows "parse_by_mnemonic t m (p\<lparr>tokens := ts\<rparr>) =
    (Value (InstructionLine (make_instruction m ops)), p\<lparr>tokens := []\<rparr>)"
  using assms by (auto simp: dispatch.accepts spelled_all)

lemma parse_after_label_outcome:
  assumes "tokens p = t # ts" and "errors p = []"
  obtains (accepted) m ops p' where "token_type t = T_Mnemonic m" "operands_ok m ops"
      "map token_type ts = operand_tokens (name m) ops" "errors p' = []"
      "parse_after_label lab t p =
         (Value (InstructionLine \<lparr>label = lab, instr_mnemonic = m, operands = ops\<rparr>), p')"
  | (rejected) e p' where "errors p' = [e]" "parse_after_label lab t p = (Nullopt, p')"
      "\<nexists>m ops. token_type t = T_Mnemonic m \<and> operands_ok m ops
         \<and> map token_type ts = operand_tokens (name m) ops"
proof (cases "\<exists>m. token_type t = T_Mnemonic m")
  case False
  then have "parse_after_label lab t p = (Nullopt, push_err
      (''Unexpected token: Expected mnemonic or directive, instead found ''
        @ quoted (token_to_str t)) (col t) p)"
    by (simp add: parse_after_label_def token_is_kind)
  then show ?thesis using False assms by (intro rejected) (auto simp: push_err_def)
next
  case True
  then obtain m where m: "token_type t = T_Mnemonic m" by blast
  note eq = parse_instruction_mnemonic [OF assms(1) m]
  note complete = complete_operands [of m _ ts t p]
  show ?thesis
  proof (cases rule: dispatch.outcome_cases [of t m "p\<lparr>tokens := ts\<rparr>"])
    case (value_returned v q)
    obtain ops where v: "v = InstructionLine (make_instruction m ops)" and ok: "operands_ok m ops"
      and sp: "spelled (operand_tokens (name m) ops) ts (tokens q)"
      using value_returned(1) by (auto simp: dispatch.accepts)
    show ?thesis
    proof (cases "tokens q")
      case Nil
      then show ?thesis
        using value_returned v ok sp m assms
        by (intro accepted) (auto simp: parse_after_label_def token_is_kind and_continue_def eq
            make_instruction_def spelled_all)
    next
      case (Cons u us)
      then have "parse_after_label lab t p = (Nullopt, push_err
          (''Unexpected token: Expected end of line, instead found '' @ quoted (token_to_str u))
          (col t) q)"
        using value_returned v m
        by (simp add: parse_after_label_def token_is_kind and_continue_def eq parser_peek_def)
      then show ?thesis
        using value_returned(1,2) Cons m assms complete by (intro rejected) (auto simp: push_err_def)
    qed
  next
    case (failed e q)
    then have "parse_after_label lab t p = (Nullopt, q)"
      using m by (simp add: parse_after_label_def token_is_kind and_continue_def eq)
    then show ?thesis using failed m assms complete by (intro rejected) auto
  qed
qed

lemma parse_directive_outcome:
  assumes "tokens p = t # ts" and "errors p = []"
    and t: "token_type t = T_BlocksDirective \<or> token_type t = T_WarpsDirective"
  obtains (accepted) v p' where "map token_type ts = [T_Immediate v]" "1 \<le> sint v"
      "errors p' = []"
      "parse_directive p = (Value (if token_type t = T_BlocksDirective then BlocksDirective v
         else WarpsDirective v), p')"
  | (rejected) e p' where "errors p' = [e]" "parse_directive p = (Nullopt, p')"
      "\<nexists>v. map token_type ts = [T_Immediate v] \<and> 1 \<le> sint v"
proof (cases "\<exists>u us v. ts = u # us \<and> token_type u = T_Immediate v")
  case True
  then obtain u us v where ts: "ts = u # us" "token_type u = T_Immediate v" by blast
  have eq: "parse_directive p =
      (if sint v < 1 then (Nullopt, push_err (''Invalid number of '' @ token_to_str t @ '': ''
           @ quoted (show_word_type v)) (col u) (p\<lparr>tokens := us\<rparr>))
       else (case us of w # ws \<Rightarrow>
            (Nullopt, throw_unexpected_token ''End of line'' w (p\<lparr>tokens := us\<rparr>))
          | [] \<Rightarrow> (Value (if token_type t = T_BlocksDirective then BlocksDirective v
                     else WarpsDirective v), p\<lparr>tokens := us\<rparr>)))"
    using ts assms(1)
    by (auto simp: parse_directive_def parser_chop_def expect_or_return_def and_continue_def
        expect_def token_is_kind get_or_throw_def as_immediate_def parser_peek_def split: list.splits)
  show ?thesis
  proof (cases "sint v < 1 \<or> us \<noteq> []")
    case True
    then have "\<exists>e p'. parse_directive p = (Nullopt, p') \<and> errors p' = [e]"
      using assms(2) eq by (cases us) (auto simp: push_err_def throw_unexpected_token_def)
    then show ?thesis using ts True by (auto intro!: rejected)
  next
    case False
    then show ?thesis using ts assms(2) eq by (intro accepted) auto
  qed
next
  case False
  have "\<exists>e p'. parse_directive p = (Nullopt, p') \<and> errors p' = [e]"
    using False assms
    by (cases ts) (auto simp: parse_directive_def parser_chop_def expect_or_return_def
        and_continue_def expect_def token_is_kind throw_unexpected_eos_def
        throw_unexpected_token_def push_err_def)
  then show ?thesis using False by (auto intro!: rejected simp: map_eq_Cons_conv)
qed

definition spells_line :: "token list \<Rightarrow> line \<Rightarrow> bool" where
  "spells_line toks ln \<longleftrightarrow> map token_type toks = line_tokens ln \<and> line_ok ln"

lemma spells_line_Cons:
  "spells_line (t # ts) ln \<longleftrightarrow>
     (\<exists>l. token_type t = T_Label l \<and> ts = [] \<and> ln = JustLabel l) \<or>
     (\<exists>v. (token_type t = T_BlocksDirective \<and> ln = BlocksDirective v \<or>
           token_type t = T_WarpsDirective \<and> ln = WarpsDirective v) \<and>
        map token_type ts = [T_Immediate v] \<and> 1 \<le> sint v) \<or>
     (\<exists>m ops. token_type t = T_Mnemonic m \<and> operands_ok m ops \<and>
        map token_type ts = operand_tokens (name m) ops \<and>
        ln = InstructionLine \<lparr>label = None, instr_mnemonic = m, operands = ops\<rparr>) \<or>
     (\<exists>l m ops u us. token_type t = T_Label l \<and> ts = u # us \<and> token_type u = T_Mnemonic m \<and>
        operands_ok m ops \<and> map token_type us = operand_tokens (name m) ops \<and>
        ln = InstructionLine \<lparr>label = Some l, instr_mnemonic = m, operands = ops\<rparr>)"
proof (cases ln)
  case (InstructionLine i)
  then show ?thesis
    by (cases i; cases "label i")
      (auto simp: spells_line_def instruction_tokens_def map_eq_Cons_conv)
qed (auto simp: spells_line_def)

lemma spells_line_Nil: "\<not> spells_line [] ln"
  by (cases ln) (auto simp: spells_line_def instruction_tokens_def)

lemma operand_tokens_inj:
  assumes "operands_ok m ops" "operands_ok m ops'"
    and "operand_tokens (name m) ops = operand_tokens (name m) ops'"
  shows "ops = ops'"
proof -
  define ts where "ts = map (\<lambda>ty. \<lparr>token_type = ty, col = 0\<rparr>) (operand_tokens (name m) ops)"
  have ts: "map token_type ts = operand_tokens (name m) ops" by (simp add: ts_def comp_def)
  note complete_operands [OF assms(1) ts, of undefined undefined, symmetric]
  also note complete_operands [OF assms(2) ts [unfolded assms(3)], of undefined undefined]
  finally show ?thesis by (simp add: make_instruction_def)
qed

lemma spells_line_mnemonic:
  "token_type t = T_Mnemonic m \<Longrightarrow> spells_line (t # ts) ln \<longleftrightarrow>
     (\<exists>ops. operands_ok m ops \<and> map token_type ts = operand_tokens (name m) ops \<and>
        ln = InstructionLine \<lparr>label = None, instr_mnemonic = m, operands = ops\<rparr>)"
  unfolding spells_line_Cons by simp

lemma spells_line_label:
  "token_type t = T_Label l \<Longrightarrow> spells_line [t] ln \<longleftrightarrow> ln = JustLabel l"
  "token_type t = T_Label l \<Longrightarrow> spells_line (t # u # us) ln \<longleftrightarrow>
     (\<exists>m ops. token_type u = T_Mnemonic m \<and> operands_ok m ops \<and>
        map token_type us = operand_tokens (name m) ops \<and>
        ln = InstructionLine \<lparr>label = Some l, instr_mnemonic = m, operands = ops\<rparr>)"
  unfolding spells_line_Cons by simp_all

lemma spells_line_inj:
  assumes "spells_line toks ln" "spells_line toks ln'"
  shows "ln = ln'"
proof (cases toks)
  case Nil
  then show ?thesis using assms by (simp add: spells_line_Nil)
next
  case (Cons t ts)
  note spelt = assms [unfolded Cons]
  show ?thesis
  proof (cases "token_type t")
    case (T_Mnemonic m)
    then show ?thesis
      using spelt operand_tokens_inj [of m] by (auto simp: spells_line_mnemonic)
  next
    case (T_Label l)
    then show ?thesis
      using spelt operand_tokens_inj by (cases ts) (auto simp: spells_line_label)
  qed (use spelt in \<open>force simp: spells_line_Cons\<close>)+
qed

definition line_outcome :: "token list \<Rightarrow> bool" where
  "line_outcome toks \<longleftrightarrow>
     (\<exists>ln. parse_line toks = Value (Inr ln) \<and> spells_line toks ln) \<or>
     (\<exists>es. parse_line toks = Value (Inl es) \<and> length es = (if toks = [] then 0 else 1) \<and>
       (\<forall>ln. \<not> spells_line toks ln))"

lemma line_outcomeI:
  "parser_parse_line \<lparr>tokens = toks, errors = []\<rparr> = (Value ln, p) \<Longrightarrow> spells_line toks ln \<Longrightarrow>
     line_outcome toks"
  "parser_parse_line \<lparr>tokens = toks, errors = []\<rparr> = (Nullopt, p) \<Longrightarrow> errors p = [e] \<Longrightarrow> toks \<noteq> [] \<Longrightarrow>
     (\<And>ln. \<not> spells_line toks ln) \<Longrightarrow> line_outcome toks"
  by (simp_all add: line_outcome_def parse_line_def)

lemma parse_line_outcome: "line_outcome toks"
proof (cases toks)
  case Nil
  then show ?thesis
    by (auto simp: line_outcome_def parse_line_def parser_parse_line_def spells_line_Nil)
next
  case (Cons t ts)
  let ?p = "\<lparr>tokens = toks, errors = []\<rparr> :: parser"
    consider (directive) "token_type t = T_BlocksDirective \<or> token_type t = T_WarpsDirective"
    | (label) l where "token_type t = T_Label l"
    | (other) "token_type t \<noteq> T_BlocksDirective" "token_type t \<noteq> T_WarpsDirective"
        "\<nexists>l. token_type t = T_Label l" by blast
  then show ?thesis
  proof cases
    case directive
    then have eq: "parser_parse_line ?p = parse_directive ?p"
      by (auto simp: parser_parse_line_def parser_peek_def Cons token_is_kind)
    show ?thesis
    proof (rule parse_directive_outcome [of ?p t ts])
      fix v p'
      assume "map token_type ts = [T_Immediate v]" "1 \<le> sint v"
        "parse_directive ?p = (Value (if token_type t = T_BlocksDirective then BlocksDirective v
           else WarpsDirective v), p')"
      then show ?thesis
        using directive eq Cons by (intro line_outcomeI(1)) (auto simp: spells_line_Cons)
    next
      fix e p'
      assume "errors p' = [e]" "parse_directive ?p = (Nullopt, p')"
        "\<nexists>v. map token_type ts = [T_Immediate v] \<and> 1 \<le> sint v"
      then show ?thesis
        using directive eq Cons by (intro line_outcomeI(2)) (auto simp: spells_line_Cons)
    qed (use Cons directive in auto)
  next
    case other
    then have eq: "parser_parse_line ?p = parse_after_label None t ?p"
      by (auto simp: parser_parse_line_def parser_peek_def Cons token_is_kind)
    show ?thesis
    proof (rule parse_after_label_outcome [of ?p t ts None])
      fix e p'
      assume "errors p' = [e]" "parse_after_label None t ?p = (Nullopt, p')"
        "\<nexists>m ops. token_type t = T_Mnemonic m \<and> operands_ok m ops
           \<and> map token_type ts = operand_tokens (name m) ops"
      then show ?thesis
        using other eq Cons by (intro line_outcomeI(2)) (auto simp: spells_line_Cons)
    qed (use Cons eq in \<open>auto simp: spells_line_mnemonic intro: line_outcomeI(1)\<close>)
  next
    case (label l)
    show ?thesis
    proof (cases ts)
      case Nil
      then have "parser_parse_line ?p = (Value (JustLabel l), ?p\<lparr>tokens := []\<rparr>)"
        using label by (auto simp: parser_parse_line_def parser_peek_def Cons token_is_kind
            get_or_throw_def as_label_def parser_chop_def)
      then show ?thesis using Cons Nil label by (auto simp: spells_line_Cons intro: line_outcomeI)
    next
      case (Cons u us)
      have eq: "parser_parse_line ?p = parse_after_label (Some l) u (?p\<lparr>tokens := ts\<rparr>)"
        using label Cons \<open>toks = t # ts\<close> by (auto simp: parser_parse_line_def parser_peek_def
            token_is_kind get_or_throw_def as_label_def parser_chop_def)
      show ?thesis
      proof (rule parse_after_label_outcome [of "?p\<lparr>tokens := ts\<rparr>" u us "Some l"])
        fix e p'
        assume "errors p' = [e]" "parse_after_label (Some l) u (?p\<lparr>tokens := ts\<rparr>) = (Nullopt, p')"
          "\<nexists>m ops. token_type u = T_Mnemonic m \<and> operands_ok m ops
             \<and> map token_type us = operand_tokens (name m) ops"
        then show ?thesis
          using label eq Cons \<open>toks = t # ts\<close>
          by (intro line_outcomeI(2)) (auto simp: spells_line_label)
      qed (use Cons \<open>toks = t # ts\<close> label eq in
          \<open>auto simp: spells_line_label intro: line_outcomeI(1)\<close>)
    qed
  qed
qed

text \<open>C1. The line parser accepts exactly the language of the assembler: it returns the line \<open>ln\<close>
  if and only if the tokens are those that spell \<open>ln\<close> and the operands are well formed (the
  registers scalar or vector as the mnemonic asks, directive counts at least one, the operand
  format the mnemonic's own).\<close>

theorem parse_line_accepts:
  "parse_line toks = Value (Inr ln) \<longleftrightarrow> map token_type toks = line_tokens ln \<and> line_ok ln"
  unfolding spells_line_def [symmetric]
  using parse_line_outcome [of toks, unfolded line_outcome_def] by (auto dest: spells_line_inj)

text \<open>C12. The line parser is total: on every list of tokens it returns without throwing a variant
  access or dereferencing an empty optional, and it either returns a line those tokens spell, or
  exactly one error (none for no tokens) when they spell no line at all.\<close>

theorem parse_line_reports:
  "\<exists>r. parse_line toks = Value r \<and>
     (case r of
        Inl es \<Rightarrow> length es = (if toks = [] then 0 else 1) \<and>
          (\<nexists>ln. map token_type toks = line_tokens ln \<and> line_ok ln)
      | Inr ln \<Rightarrow> map token_type toks = line_tokens ln \<and> line_ok ln)"
  unfolding spells_line_def [symmetric]
  using parse_line_outcome [of toks, unfolded line_outcome_def] by (elim disjE exE conjE) simp_all

text \<open>C40. The branches \<open>beq\<close>, \<open>bne\<close>, \<open>blt\<close> and \<open>bge\<close> are mnemonics of the
  instruction set, but every line that starts with one is rejected as an unknown mnemonic.\<close>

theorem branch_instructions_rejected:
  "is_branch m \<Longrightarrow> token_type t = T_Mnemonic m \<Longrightarrow>
     parse_line (t # ts) = Value (Inl
       [\<lparr>message = ''Unknown mnemonic: '' @ quoted (mnemonic_to_str m), column = col t, line = 0\<rparr>])"
  by (auto simp: is_branch_def parse_line_def parser_parse_line_def parser_peek_def token_is_kind
      parse_after_label_def and_continue_def parse_instruction_mnemonic parse_by_mnemonic_def
      format_defs push_err_def)

theorem branch_instructions_rejected_witness:
  "parse_line [\<lparr>token_type = T_Mnemonic \<lparr>name = Mn_BEQ, has_s_prefix = True\<rparr>, col = 0\<rparr>,
      \<lparr>token_type = T_Register (scalar_reg 1), col = 6\<rparr>, \<lparr>token_type = T_Comma, col = 8\<rparr>,
      \<lparr>token_type = T_Register (scalar_reg 2), col = 10\<rparr>, \<lparr>token_type = T_Comma, col = 12\<rparr>,
      \<lparr>token_type = T_LabelRef ''loop'', col = 14\<rparr>] = Value (Inl
       [\<lparr>message = ''Unknown mnemonic: '' @ quoted ''s.beq'', column = 0, line = 0\<rparr>])"
  using branch_instructions_rejected
    [of "\<lparr>name = Mn_BEQ, has_s_prefix = True\<rparr>" "\<lparr>token_type = T_Mnemonic \<lparr>name = Mn_BEQ, has_s_prefix = True\<rparr>, col = 0\<rparr>"]
  by (simp add: is_branch_def mnemonic_to_str_def)

end
