(* ===== verification/Program.thy ===== *)
theory Program
  imports Parser
begin

text \<open>
  Assembling the lines of a source file into a program: \<open>as::parse_program\<close>
  (\<open>sim/aslib/parser.cpp\<close>). Its local variables are a record that each line updates. A run
  ends with a value, with an exception of the line parser, or not at all when the lexer does not
  return. The specification \<open>program_of\<close> says what program a list of parsed lines is.
\<close>

section \<open>The program and the loop over the lines\<close>

record program =
  blocks :: idata
  warps :: idata
  instructions :: "instruction list"
  label_mappings :: "string \<rightharpoonup> idata"

record program_state =
  program :: program
  program_errors :: "error list"
  block_count :: "idata option"
  warp_count :: "idata option"
  line_nr :: idata
  instr_count :: idata

datatype 'a run = Done 'a | Diverges | Throws crash

definition initial_state :: program_state where
  "initial_state =
     \<lparr>program = \<lparr>blocks = 0, warps = 0, instructions = [], label_mappings = Map.empty\<rparr>,
      program_errors = [], block_count = None, warp_count = None, line_nr = 0, instr_count = 0\<rparr>"

definition emplace_error :: "string \<Rightarrow> program_state \<Rightarrow> program_state" where
  "emplace_error msg s = s\<lparr>program_errors := program_errors s @
     [\<lparr>message = msg, column = 0, line = line_nr s\<rparr>]\<rparr>"

definition push_errors :: "error list \<Rightarrow> program_state \<Rightarrow> program_state" where
  "push_errors es s =
     s\<lparr>program_errors := program_errors s @ map (with_line (line_nr s)) es\<rparr>"

definition add_label :: "string \<Rightarrow> program_state \<Rightarrow> program_state" where
  "add_label label_name s =
     (if label_mappings (program s) label_name \<noteq> None
      then emplace_error (''Duplicate label declaration on line '' @ show_idata (line_nr s)) s
      else s\<lparr>program := (program s)\<lparr>label_mappings :=
             (label_mappings (program s))(label_name \<mapsto> instr_count s)\<rparr>\<rparr>)"

text \<open>The visitor of a parsed line.\<close>

fun add_line :: "line \<Rightarrow> program_state \<Rightarrow> program_state" where
  "add_line (JustLabel l) s = add_label l s"
| "add_line (InstructionLine i) s =
     (let s = s\<lparr>program := (program s)\<lparr>instructions := instructions (program s) @ [i]\<rparr>\<rparr>;
          s = (case label i of Some l \<Rightarrow> add_label l s | None \<Rightarrow> s)
      in s\<lparr>instr_count := instr_count s + 1\<rparr>)"
| "add_line (BlocksDirective n) s =
     (let s = (if block_count s \<noteq> None then emplace_error ''Duplicate blocks directive'' s else s)
      in s\<lparr>block_count := Some n\<rparr>)"
| "add_line (WarpsDirective n) s =
     (let s = (if warp_count s \<noteq> None then emplace_error ''Duplicate warps directive'' s else s)
      in s\<lparr>warp_count := Some n\<rparr>)"

definition process_line :: "string \<Rightarrow> program_state \<Rightarrow> program_state run" where
  "process_line src s =
     (let s = s\<lparr>line_nr := line_nr s + 1\<rparr>
      in case collect_tokens src of
           None \<Rightarrow> Diverges
         | Some (toks, lexer_errors) \<Rightarrow>
             (let s = (if lexer_errors \<noteq> [] then push_errors lexer_errors s else s)
              in if toks = [] then Done s
                 else (case parse_line toks of
                         Value (Inl es) \<Rightarrow> Done (push_errors es s)
                       | Value (Inr ln) \<Rightarrow> Done (add_line ln s)
                       | Nullopt \<Rightarrow> Throws Bad_variant_access
                       | Crash c \<Rightarrow> Throws c)))"

fun process_lines :: "string list \<Rightarrow> program_state \<Rightarrow> program_state run" where
  "process_lines [] s = Done s"
| "process_lines (src # srcs) s =
     (case process_line src s of
        Done s \<Rightarrow> process_lines srcs s
      | Diverges \<Rightarrow> Diverges
      | Throws c \<Rightarrow> Throws c)"

definition value_or :: "'a option \<Rightarrow> 'a \<Rightarrow> 'a" where
  "value_or v d = (case v of Some x \<Rightarrow> x | None \<Rightarrow> d)"

definition parse_program :: "string list \<Rightarrow> (error list + program) run" where
  "parse_program lines =
     (case process_lines lines initial_state of
        Diverges \<Rightarrow> Diverges
      | Throws c \<Rightarrow> Throws c
      | Done s \<Rightarrow>
          (let p = (program s)\<lparr>blocks := value_or (block_count s) 1,
                               warps := value_or (warp_count s) 1\<rparr>
           in if program_errors s \<noteq> [] then Done (Inl (program_errors s)) else Done (Inr p)))"

section \<open>The specification\<close>

text \<open>The parsed form of a source line: nothing for a blank one, \<open>None\<close> when it is in error.\<close>

definition read_line :: "string \<Rightarrow> line list option" where
  "read_line src =
     (case collect_tokens src of
        Some (toks, []) \<Rightarrow>
          if toks = [] then Some []
          else (case parse_line toks of Value (Inr ln) \<Rightarrow> Some [ln] | _ \<Rightarrow> None)
      | _ \<Rightarrow> None)"

fun read_lines :: "string list \<Rightarrow> line list option" where
  "read_lines [] = Some []"
| "read_lines (src # srcs) =
     (case read_line src of
        None \<Rightarrow> None
      | Some lns \<Rightarrow> map_option (\<lambda>rest. lns @ rest) (read_lines srcs))"

text \<open>The labels declared by the lines, each with the number of instructions before it.\<close>

fun declared_labels :: "nat \<Rightarrow> line list \<Rightarrow> (string \<times> nat) list" where
  "declared_labels n [] = []"
| "declared_labels n (JustLabel l # lns) = (l, n) # declared_labels n lns"
| "declared_labels n (InstructionLine i # lns) =
     (case label i of Some l \<Rightarrow> [(l, n)] | None \<Rightarrow> []) @ declared_labels (n + 1) lns"
| "declared_labels n (BlocksDirective v # lns) = declared_labels n lns"
| "declared_labels n (WarpsDirective v # lns) = declared_labels n lns"

definition instructions_of :: "line list \<Rightarrow> instruction list" where
  "instructions_of lns = concat (map (\<lambda>ln. case ln of InstructionLine i \<Rightarrow> [i] | _ \<Rightarrow> []) lns)"

definition block_directives :: "line list \<Rightarrow> idata list" where
  "block_directives lns = concat (map (\<lambda>ln. case ln of BlocksDirective v \<Rightarrow> [v] | _ \<Rightarrow> []) lns)"

definition warp_directives :: "line list \<Rightarrow> idata list" where
  "warp_directives lns = concat (map (\<lambda>ln. case ln of WarpsDirective v \<Rightarrow> [v] | _ \<Rightarrow> []) lns)"

definition well_formed_lines :: "line list \<Rightarrow> bool" where
  "well_formed_lines lns \<longleftrightarrow>
     distinct (map fst (declared_labels 0 lns)) \<and>
     length (block_directives lns) \<le> 1 \<and> length (warp_directives lns) \<le> 1"

definition label_map :: "(string \<times> nat) list \<Rightarrow> string \<rightharpoonup> idata" where
  "label_map ds l = map_option of_nat (map_of ds l)"

definition program_of :: "line list \<Rightarrow> program" where
  "program_of lns =
     \<lparr>blocks = (case block_directives lns of [] \<Rightarrow> 1 | v # _ \<Rightarrow> v),
      warps = (case warp_directives lns of [] \<Rightarrow> 1 | v # _ \<Rightarrow> v),
      instructions = instructions_of lns,
      label_mappings = label_map (declared_labels 0 lns)\<rparr>"

section \<open>The loop keeps the specification\<close>

definition tracks_lines :: "line list \<Rightarrow> program_state \<Rightarrow> bool" where
  "tracks_lines lns s \<longleftrightarrow>
     program_errors s = [] \<and> well_formed_lines lns \<and>
     instructions (program s) = instructions_of lns \<and>
     label_mappings (program s) = label_map (declared_labels 0 lns) \<and>
     instr_count s = of_nat (length (instructions_of lns)) \<and>
     block_count s = (case block_directives lns of [] \<Rightarrow> None | v # _ \<Rightarrow> Some v) \<and>
     warp_count s = (case warp_directives lns of [] \<Rightarrow> None | v # _ \<Rightarrow> Some v)"

lemma lines_of_simps [simp]:
  "instructions_of [] = []" "block_directives [] = []" "warp_directives [] = []"
  "instructions_of (lns @ lns') = instructions_of lns @ instructions_of lns'"
  "block_directives (lns @ lns') = block_directives lns @ block_directives lns'"
  "warp_directives (lns @ lns') = warp_directives lns @ warp_directives lns'"
  "instructions_of (ln # lns) = (case ln of InstructionLine i \<Rightarrow> [i] | _ \<Rightarrow> []) @ instructions_of lns"
  "block_directives (ln # lns) = (case ln of BlocksDirective v \<Rightarrow> [v] | _ \<Rightarrow> []) @ block_directives lns"
  "warp_directives (ln # lns) = (case ln of WarpsDirective v \<Rightarrow> [v] | _ \<Rightarrow> []) @ warp_directives lns"
  by (simp_all add: instructions_of_def block_directives_def warp_directives_def)

lemma declared_labels_append:
  "declared_labels n (lns @ lns') =
     declared_labels n lns @ declared_labels (n + length (instructions_of lns)) lns'"
  by (induction n lns rule: declared_labels.induct) simp_all

lemma well_formed_prefix: "well_formed_lines (lns @ lns') \<Longrightarrow> well_formed_lines lns"
  by (auto simp: well_formed_lines_def declared_labels_append)

lemma label_map_Nil: "label_map [] = Map.empty"
  by (rule ext) (simp add: label_map_def)

lemma tracks_initial: "tracks_lines [] initial_state"
  by (simp add: tracks_lines_def initial_state_def well_formed_lines_def label_map_Nil)

lemma label_map_None: "label_map ds l = None \<longleftrightarrow> l \<notin> fst ` set ds"
  by (simp add: label_map_def map_of_eq_None_iff)

lemma label_map_snoc:
  assumes "l \<notin> fst ` set ds"
  shows "label_map (ds @ [(l, n)]) = (label_map ds)(l \<mapsto> of_nat n)"
proof (rule ext)
  fix x
  have "map_of ds l = None" using assms by (simp add: map_of_eq_None_iff)
  then show "label_map (ds @ [(l, n)]) x = ((label_map ds)(l \<mapsto> of_nat n)) x"
    by (cases "map_of ds x") (auto simp: label_map_def map_add_def)
qed

lemma add_label_tracks:
  assumes "label_mappings (program s) = label_map ds"
    and "instr_count s = of_nat n" and "program_errors s = []"
  shows "l \<notin> fst ` set ds \<Longrightarrow> add_label l s =
      s\<lparr>program := (program s)\<lparr>label_mappings := label_map (ds @ [(l, n)])\<rparr>\<rparr>"
    and "l \<in> fst ` set ds \<Longrightarrow> program_errors (add_label l s) \<noteq> []"
  using assms label_map_None [of ds l]
  by (simp_all add: add_label_def label_map_snoc emplace_error_def)

lemma add_line_tracks:
  assumes "tracks_lines lns s" "well_formed_lines (lns @ [ln])"
  shows "tracks_lines (lns @ [ln]) (add_line ln s)"
proof (cases ln)
  case (JustLabel l)
  then show ?thesis
    using assms add_label_tracks(1) [of s "declared_labels 0 lns" "length (instructions_of lns)" l]
    by (auto simp: tracks_lines_def well_formed_lines_def declared_labels_append)
next
  case (InstructionLine i)
  show ?thesis
    using assms InstructionLine
      add_label_tracks(1) [of "s\<lparr>program := (program s)\<lparr>instructions := instructions (program s) @ [i]\<rparr>\<rparr>"
        "declared_labels 0 lns" "length (instructions_of lns)"]
    by (cases "label i")
      (auto simp: tracks_lines_def well_formed_lines_def declared_labels_append Let_def)
next
  case (BlocksDirective v)
  then show ?thesis
    using assms by (cases "block_directives lns")
      (auto simp: tracks_lines_def well_formed_lines_def declared_labels_append)
next
  case (WarpsDirective v)
  then show ?thesis
    using assms by (cases "warp_directives lns")
      (auto simp: tracks_lines_def well_formed_lines_def declared_labels_append)
qed

lemma add_line_error:
  assumes "tracks_lines lns s" "\<not> well_formed_lines (lns @ [ln])"
  shows "program_errors (add_line ln s) \<noteq> []"
proof (cases ln)
  case (JustLabel l)
  then show ?thesis
    using assms add_label_tracks(2) [of s "declared_labels 0 lns" "length (instructions_of lns)" l]
    by (auto simp: tracks_lines_def well_formed_lines_def declared_labels_append)
next
  case (InstructionLine i)
  show ?thesis
    using assms InstructionLine
      add_label_tracks(2) [of "s\<lparr>program := (program s)\<lparr>instructions := instructions (program s) @ [i]\<rparr>\<rparr>"
        "declared_labels 0 lns" "length (instructions_of lns)"]
    by (cases "label i")
      (auto simp: tracks_lines_def well_formed_lines_def declared_labels_append Let_def)
next
  case (BlocksDirective v)
  then show ?thesis
    using assms by (cases "block_directives lns")
      (auto simp: tracks_lines_def well_formed_lines_def declared_labels_append emplace_error_def)
next
  case (WarpsDirective v)
  then show ?thesis
    using assms by (cases "warp_directives lns")
      (auto simp: tracks_lines_def well_formed_lines_def declared_labels_append emplace_error_def)
qed

lemma tracks_line_nr [simp]: "tracks_lines lns (s\<lparr>line_nr := n\<rparr>) = tracks_lines lns s"
  by (simp add: tracks_lines_def)

text \<open>Errors are only ever added, and each carries the number of a line read so far.\<close>

definition logs_at :: "idata \<Rightarrow> program_state \<Rightarrow> program_state \<Rightarrow> bool" where
  "logs_at n s s' \<longleftrightarrow> line_nr s' = n \<and>
     (\<exists>es. program_errors s' = program_errors s @ es \<and> (\<forall>e\<in>set es. line e = n))"

lemma logs_at_refl: "logs_at (line_nr s) s s"
  by (simp add: logs_at_def)

lemma logs_at_trans: "logs_at n s s' \<Longrightarrow> logs_at n s' s'' \<Longrightarrow> logs_at n s s''"
  by (auto simp: logs_at_def)

lemma logs_at_intros:
  "logs_at (line_nr s) s (emplace_error msg s)"
  "logs_at (line_nr s) s (push_errors es s)"
  "logs_at (line_nr s) s (add_label l s)"
  by (auto simp: logs_at_def emplace_error_def push_errors_def add_label_def with_line_def)

lemma logs_at_update [simp]:
  "logs_at n s (s'\<lparr>program := p\<rparr>) = logs_at n s s'"
  "logs_at n s (s'\<lparr>instr_count := c\<rparr>) = logs_at n s s'"
  "logs_at n s (s'\<lparr>block_count := b\<rparr>) = logs_at n s s'"
  "logs_at n s (s'\<lparr>warp_count := w\<rparr>) = logs_at n s s'"
  "logs_at n (s\<lparr>program := p\<rparr>) s' = logs_at n s s'"
  by (simp_all add: logs_at_def)

lemma add_line_logs: "logs_at (line_nr s) s (add_line ln s)"
proof (cases ln)
  case (InstructionLine i)
  then show ?thesis
    using logs_at_intros(3) [of "s\<lparr>program := (program s)\<lparr>instructions := instructions (program s) @ [i]\<rparr>\<rparr>"]
    by (auto simp: Let_def logs_at_refl split: option.splits)
qed (auto simp: Let_def logs_at_refl logs_at_intros)

lemma push_errors_Nil [simp]: "push_errors [] s = s"
  by (simp add: push_errors_def)

definition line_started :: "error list \<Rightarrow> program_state \<Rightarrow> program_state" where
  "line_started les s = push_errors les (s\<lparr>line_nr := line_nr s + 1\<rparr>)"

lemma process_line_eq:
  "process_line src s =
     (case collect_tokens src of
        None \<Rightarrow> Diverges
      | Some (toks, les) \<Rightarrow>
          if toks = [] then Done (line_started les s)
          else (case parse_line toks of
                  Value (Inl es) \<Rightarrow> Done (push_errors es (line_started les s))
                | Value (Inr ln) \<Rightarrow> Done (add_line ln (line_started les s))
                | Nullopt \<Rightarrow> Throws Bad_variant_access
                | Crash c \<Rightarrow> Throws c))"
proof (cases "collect_tokens src")
  case (Some r)
  obtain toks les where r: "r = (toks, les)" by force
  show ?thesis
    unfolding process_line_def by (cases les) (simp_all add: Some r Let_def line_started_def
        split: outcome.split sum.split)
qed (simp add: process_line_def)

lemma process_line_DoneE:
  assumes "process_line src s = Done s'"
  obtains (blank) les where "collect_tokens src = Some ([], les)" "s' = line_started les s"
  | (rejected) toks les es where "collect_tokens src = Some (toks, les)" "toks \<noteq> []"
      "parse_line toks = Value (Inl es)" "es \<noteq> []" "s' = push_errors es (line_started les s)"
  | (parsed) toks les ln where "collect_tokens src = Some (toks, les)" "toks \<noteq> []"
      "parse_line toks = Value (Inr ln)" "s' = add_line ln (line_started les s)"
proof -
  obtain toks les where lexed: "collect_tokens src = Some (toks, les)"
    using assms by (cases "collect_tokens src") (auto simp: process_line_eq)
  show ?thesis
  proof (cases "toks = []")
    case True
    then show ?thesis using assms lexed blank by (simp add: process_line_eq)
  next
    case False
    then consider ln where "parse_line toks = Value (Inr ln)"
      | es where "parse_line toks = Value (Inl es)" "es \<noteq> []"
      using parse_line_outcome [of toks, unfolded line_outcome_def] by fastforce
    then show ?thesis
      using False assms lexed parsed rejected by cases (simp_all add: process_line_eq)
  qed
qed

lemma line_started_logs:
  "logs_at (line_nr s + 1) (s\<lparr>line_nr := line_nr s + 1\<rparr>) (line_started les s)"
  "line_nr (line_started les s) = line_nr s + 1"
  using logs_at_intros(2) [of "s\<lparr>line_nr := line_nr s + 1\<rparr>" les]
  by (simp_all add: line_started_def logs_at_def)

lemma process_line_logs:
  assumes "process_line src s = Done s'"
  shows "logs_at (line_nr s + 1) (s\<lparr>line_nr := line_nr s + 1\<rparr>) s'"
  using assms
proof (cases rule: process_line_DoneE)
  case (rejected toks les es)
  then show ?thesis
    using logs_at_trans [OF line_started_logs(1)] logs_at_intros(2) [of "line_started les s" es]
    by (simp add: line_started_logs)
next
  case (parsed toks les ln)
  then show ?thesis
    using logs_at_trans [OF line_started_logs(1)] add_line_logs [of "line_started les s" ln]
    by (simp add: line_started_logs)
qed (simp add: line_started_logs)

lemma process_lines_logs:
  assumes "process_lines srcs s = Done s'" and "line_nr s = of_nat k"
  shows "\<exists>es. program_errors s' = program_errors s @ es \<and>
    (\<forall>e\<in>set es. \<exists>n. k < n \<and> n \<le> k + length srcs \<and> line e = of_nat n)"
  using assms
proof (induction srcs arbitrary: s k)
  case (Cons src srcs)
  obtain s1 where s1: "process_line src s = Done s1" "process_lines srcs s1 = Done s'"
    using Cons.prems(1) by (auto split: run.splits)
  have "line_nr s1 = of_nat (Suc k)"
    using process_line_logs [OF s1(1)] Cons.prems(2) by (simp add: logs_at_def)
  then obtain es where es: "program_errors s' = program_errors s1 @ es"
      "\<forall>e\<in>set es. \<exists>n. Suc k < n \<and> n \<le> Suc k + length srcs \<and> line e = of_nat n"
    using Cons.IH [OF s1(2)] by blast
  obtain es1 where "program_errors s1 = program_errors s @ es1"
      "\<forall>e\<in>set es1. line e = of_nat (Suc k)"
    using process_line_logs [OF s1(1)] Cons.prems(2) by (auto simp: logs_at_def)
  then have "\<exists>n. k < n \<and> n \<le> k + length (src # srcs) \<and> line e = of_nat n"
    if e: "e \<in> set (es1 @ es)" for e
  proof (cases "e \<in> set es1")
    case True
    then show ?thesis
      using \<open>\<forall>e\<in>set es1. line e = of_nat (Suc k)\<close> by (intro exI [of _ "Suc k"]) simp
  next
    case False
    then obtain n where "Suc k < n" "n \<le> Suc k + length srcs" "line e = of_nat n"
      using e es(2) by auto
    then show ?thesis by (intro exI [of _ n]) simp
  qed
  then show ?case
    using es(1) \<open>program_errors s1 = program_errors s @ es1\<close> by (intro exI [of _ "es1 @ es"]) simp
qed simp

text \<open>One line: either it is read and the state follows the specification, or an error is logged.\<close>

lemma process_line_tracks:
  assumes "tracks_lines pre s" "process_line src s = Done s'"
  shows "(\<exists>lns. read_line src = Some lns \<and> well_formed_lines (pre @ lns) \<and>
      tracks_lines (pre @ lns) s') \<or>
    (\<nexists>lns. read_line src = Some lns \<and> well_formed_lines (pre @ lns)) \<and> program_errors s' \<noteq> []"
proof -
  have wf: "well_formed_lines pre" using assms(1) by (simp add: tracks_lines_def)
  have started: "tracks_lines pre (line_started [] s)" using assms(1) by (simp add: line_started_def)
  have lex_error: "read_line src = None \<and> program_errors s' \<noteq> []"
    if "collect_tokens src = Some (toks, les)" "les \<noteq> []" "logs_at n (line_started les s) s'"
    for toks les n
    using that by (cases les) (auto simp: read_line_def line_started_def logs_at_def push_errors_def)
  from assms(2) show ?thesis
  proof (cases rule: process_line_DoneE)
    case (blank les)
    then show ?thesis
      using lex_error [OF blank(1)] logs_at_refl [of s'] started wf
      by (cases "les = []") (simp_all add: read_line_def)
  next
    case (rejected toks les es)
    then show ?thesis
      using lex_error [OF rejected(1)] logs_at_intros(2) [of "line_started les s" es]
      by (cases "les = []") (simp_all add: read_line_def push_errors_def)
  next
    case (parsed toks les ln)
    then show ?thesis
      using lex_error [OF parsed(1)] add_line_logs [of "line_started les s" ln]
        add_line_tracks [OF started, of ln] add_line_error [OF started, of ln]
      by (cases "les = []"; cases "well_formed_lines (pre @ [ln])") (simp_all add: read_line_def)
  qed
qed

lemma process_lines_errors_stay:
  assumes "process_lines srcs s = Done s'" "program_errors s \<noteq> []"
  shows "program_errors s' \<noteq> []"
  using assms
proof (induction srcs arbitrary: s)
  case (Cons src srcs)
  obtain s1 where s1: "process_line src s = Done s1" "process_lines srcs s1 = Done s'"
    using Cons.prems(1) by (auto split: run.splits)
  then show ?case
    using Cons.IH [OF s1(2)] process_line_logs [OF s1(1)] Cons.prems(2) by (auto simp: logs_at_def)
qed simp

lemma process_lines_tracks:
  assumes "process_lines srcs s = Done s'" "tracks_lines pre s"
  shows "(\<exists>lns. read_lines srcs = Some lns \<and> well_formed_lines (pre @ lns) \<and>
      tracks_lines (pre @ lns) s') \<or>
    (\<nexists>lns. read_lines srcs = Some lns \<and> well_formed_lines (pre @ lns)) \<and> program_errors s' \<noteq> []"
  using assms
proof (induction srcs arbitrary: s pre)
  case Nil
  then show ?case by (auto simp: tracks_lines_def)
next
  case (Cons src srcs)
  obtain s1 where s1: "process_line src s = Done s1" "process_lines srcs s1 = Done s'"
    using Cons.prems(1) by (auto split: run.splits)
  from process_line_tracks [OF Cons.prems(2) s1(1)] show ?case
  proof (elim disjE exE conjE)
    fix lns assume lns: "read_line src = Some lns" "tracks_lines (pre @ lns) s1"
    show ?thesis using Cons.IH [OF s1(2) lns(2)] lns(1) by auto
  next
    assume no: "\<nexists>lns. read_line src = Some lns \<and> well_formed_lines (pre @ lns)"
      and "program_errors s1 \<noteq> []"
    then have "program_errors s' \<noteq> []" using process_lines_errors_stay [OF s1(2)] by simp
    moreover have "\<nexists>lns. read_lines (src # srcs) = Some lns \<and> well_formed_lines (pre @ lns)"
    proof
      assume "\<exists>lns. read_lines (src # srcs) = Some lns \<and> well_formed_lines (pre @ lns)"
      then obtain lns rest where "read_line src = Some lns" "well_formed_lines ((pre @ lns) @ rest)"
        by (auto split: option.splits)
      then show False using no well_formed_prefix by blast
    qed
    ultimately show ?thesis by blast
  qed
qed

lemma tracks_program:
  assumes "tracks_lines lns s"
  shows "(program s)\<lparr>blocks := value_or (block_count s) 1, warps := value_or (warp_count s) 1\<rparr> =
    program_of lns"
  using assms
  by (auto simp: tracks_lines_def program_of_def value_or_def split: list.splits)

lemma process_lines_total:
  "process_lines srcs s \<noteq> Throws c \<and>
   (process_lines srcs s = Diverges \<longleftrightarrow> list_ex (\<lambda>src. collect_tokens src = None) srcs)"
proof (induction srcs arbitrary: s)
  case (Cons src srcs)
  have "process_line src s \<noteq> Throws c \<and> (process_line src s = Diverges \<longleftrightarrow> collect_tokens src = None)"
    for c
  proof (cases "collect_tokens src")
    case (Some r)
    then show ?thesis
      using parse_line_outcome [of "fst r", unfolded line_outcome_def]
      by (cases r) (auto simp: process_line_eq)
  qed (simp add: process_line_eq)
  then show ?case using Cons by (cases "process_line src s") auto
qed simp

lemma parse_program_Inr_iff:
  "parse_program srcs = Done (Inr p) \<longleftrightarrow>
     (\<exists>lns. read_lines srcs = Some lns \<and> well_formed_lines lns \<and> p = program_of lns)"
proof (cases "process_lines srcs initial_state")
  case (Done s)
  show ?thesis
    using process_lines_tracks [OF Done tracks_initial] tracks_program [of _ s]
    by (auto simp: parse_program_def Done Let_def tracks_lines_def)
next
  case Diverges
  then have "list_ex (\<lambda>src. collect_tokens src = None) srcs"
    using process_lines_total [of srcs initial_state] by simp
  then have "read_lines srcs = None"
    by (induction srcs) (auto simp: read_line_def split: option.splits)
  then show ?thesis by (simp add: parse_program_def Diverges)
qed (simp add: process_lines_total [THEN conjunct1])

text \<open>C2. \<open>parse_program\<close> succeeds if and only if every line lexes and parses without error, no
  label is declared twice and there is at most one directive of each kind; its result is then the
  specified program: the instructions in order, each label mapped to the number of instructions
  before its declaration, and block and warp counts that default to one.\<close>

theorem parse_program_accepts:
  "parse_program srcs = Done (Inr p) \<longleftrightarrow>
     (\<exists>lns. read_lines srcs = Some lns \<and> well_formed_lines lns \<and> p = program_of lns)"
  by (rule parse_program_Inr_iff)

lemma parse_program_total:
  "parse_program srcs \<noteq> Throws c \<and>
   (parse_program srcs = Diverges \<longleftrightarrow> list_ex (\<lambda>src. collect_tokens src = None) srcs)"
  using process_lines_total [where srcs = srcs and s = initial_state]
  by (auto simp: parse_program_def Let_def split: run.splits)

text \<open>C13. \<open>parse_program\<close> never throws, and it fails to return exactly when some line makes the
  lexer loop for ever.\<close>

theorem parse_program_returns:
  "parse_program srcs \<noteq> Throws c \<and>
   (parse_program srcs = Diverges \<longleftrightarrow> list_ex (\<lambda>src. collect_tokens src = None) srcs)"
  by (rule parse_program_total)

text \<open>C14. When \<open>parse_program\<close> rejects the source there is at least one error, and every error
  carries the number of a line of the source, counted from one.\<close>

theorem parse_program_errors_located:
  assumes "parse_program srcs = Done (Inl es)"
  shows "es \<noteq> [] \<and> list_all (\<lambda>e. \<exists>n. 0 < n \<and> n \<le> length srcs \<and> line e = of_nat n) es"
proof -
  obtain s where s: "process_lines srcs initial_state = Done s" "es = program_errors s" "es \<noteq> []"
    using assms by (auto simp: parse_program_def Let_def split: run.splits if_splits)
  show ?thesis
    using process_lines_logs [OF s(1), of 0] s by (auto simp: initial_state_def list_all_iff)
qed

theorem parse_program_errors_located_witness:
  "\<exists>es. parse_program [''.warps 2'', ''x: addi x1, x2'', ''x:''] = Done (Inl es) \<and> es \<noteq> [] \<and>
     list_all (\<lambda>e. \<exists>n. 0 < n \<and> n \<le> length [''.warps 2'', ''x: addi x1, x2'', ''x:''] \<and>
       line e = of_nat n) es"
proof -
  have "case parse_program [''.warps 2'', ''x: addi x1, x2'', ''x:''] of
      Done (Inl es) \<Rightarrow> es = [\<lparr>message = ''Unexpected end of stream: Expected '' @ quoted '','',
        column = 0, line = 2\<rparr>]
    | _ \<Rightarrow> False"
    by code_simp
  then obtain es where "parse_program [''.warps 2'', ''x: addi x1, x2'', ''x:''] = Done (Inl es)"
    by (simp split: run.splits sum.splits)
  then show ?thesis using parse_program_errors_located by blast
qed

section \<open>Parsed programs are well typed\<close>

text \<open>
  The type of an instruction: the operands are of the alternative that belongs to its mnemonic, and
  their registers are scalar or vector as the mnemonic says; of a program: all its instructions are
  well typed, and its counts of blocks and warps are positive.
\<close>

definition program_typed :: "program \<Rightarrow> bool" where
  "program_typed p \<longleftrightarrow>
     list_all (\<lambda>i. operands_ok (instr_mnemonic i) (operands i)) (instructions p) \<and>
     1 \<le> sint (blocks p) \<and> 1 \<le> sint (warps p)"

lemma parse_line_ok: "parse_line toks = Value (Inr ln) \<Longrightarrow> line_ok ln"
  using parse_line_outcome [of toks, unfolded line_outcome_def spells_line_def] by auto

lemma read_lines_ok: "read_lines srcs = Some lns \<Longrightarrow> list_all line_ok lns"
proof (induction srcs arbitrary: lns)
  case (Cons src srcs)
  have "list_all line_ok ln" if "read_line src = Some ln" for ln
    using that parse_line_ok
    by (auto simp: read_line_def split: option.splits list.splits if_splits outcome.splits sum.splits)
  then show ?case using Cons by (auto split: option.splits)
qed simp

lemma lines_typed:
  "list_all line_ok lns \<Longrightarrow> list_all (\<lambda>i. operands_ok (instr_mnemonic i) (operands i)) (instructions_of lns)"
  "list_all line_ok lns \<Longrightarrow> list_all (\<lambda>v. 1 \<le> sint v) (block_directives lns)"
  "list_all line_ok lns \<Longrightarrow> list_all (\<lambda>v. 1 \<le> sint v) (warp_directives lns)"
  by (auto simp: list_all_iff instructions_of_def block_directives_def warp_directives_def split: line.splits)

text \<open>C10. Every program that \<open>parse_program\<close> returns is well typed: the operands of each
  instruction are of the alternative its mnemonic has, their registers scalar or vector as the
  mnemonic asks, and the counts of blocks and warps are positive numbers.\<close>

theorem parse_program_typed:
  assumes "parse_program srcs = Done (Inr p)"
  shows "program_typed p"
proof -
  obtain lns where "list_all line_ok lns" "p = program_of lns"
    using assms parse_program_Inr_iff read_lines_ok by blast
  then show ?thesis
    using lines_typed [of lns] by (auto simp: program_typed_def program_of_def split: list.split)
qed

theorem parse_program_typed_witness:
  "\<exists>p. parse_program [''.warps 2'', ''loop: s.addi s1, s2, 3'', ''lw x1, 4(x2)''] = Done (Inr p) \<and>
     program_typed p \<and> length (instructions p) = 2"
proof -
  have "case parse_program [''.warps 2'', ''loop: s.addi s1, s2, 3'', ''lw x1, 4(x2)''] of
      Done (Inr p) \<Rightarrow> length (instructions p) = 2 | _ \<Rightarrow> False"
    by code_simp
  then obtain p where "parse_program [''.warps 2'', ''loop: s.addi s1, s2, 3'', ''lw x1, 4(x2)''] = Done (Inr p)"
    "length (instructions p) = 2"
    by (simp split: run.splits sum.splits)
  then show ?thesis using parse_program_typed by blast
qed

end
