(* ===== verification/Emitter.thy ===== *)
theory Emitter
  imports Encoding Program
begin

text \<open>
  Machine code (\<open>sim/aslib/emitter.cpp\<close>). \<open>translate_to_binary\<close> encodes the instructions
  of a program in order. It fails where the code aborts in an assertion of the encoder, or where
  \<open>std::unordered_map::at\<close> throws \<open>std::out_of_range\<close> for a label that is not declared.
\<close>

section \<open>The emitter\<close>

datatype emit_failure = Assertion error | Out_of_range

fun asserting :: "error + 'a \<Rightarrow> emit_failure + 'a" where
  "asserting (Inl e) = Inl (Assertion e)"
| "asserting (Inr x) = Inr x"

definition emit_instruction :: "program \<Rightarrow> instruction \<Rightarrow> emit_failure + idata" where
  "emit_instruction p i =
     (let det = name_to_determinant (name (instr_mnemonic i));
          opc = det_opcode det; f3 = det_funct3 det; f7 = det_funct7 det
      in case operands i of
           ItypeOperands rd rs1 imm12 \<Rightarrow> asserting (create_itype_instruction opc f3 rd rs1 imm12)
         | RtypeOperands rd rs1 rs2 \<Rightarrow> asserting (create_rtype_instruction opc f3 f7 rd rs1 rs2)
         | StypeOperands rs1 rs2 imm12 \<Rightarrow> asserting (create_stype_instruction opc f3 rs1 rs2 imm12)
         | UtypeOperands rd imm20 \<Rightarrow> asserting (create_utype_instruction opc rd imm20)
         | JtypeOperands rd imm20 \<Rightarrow> asserting (create_jtype_instruction opc rd imm20)
         | JalrOperands rd rs1 (LabelRef l) \<Rightarrow>
             (case label_mappings p l of
                None \<Rightarrow> Inl Out_of_range
              | Some n \<Rightarrow> asserting (i_jalr rd (vector_reg 0) n))
         | JalrOperands rd rs1 (Imm imm) \<Rightarrow> asserting (i_jalr rd rs1 imm))"

fun emit_all :: "program \<Rightarrow> instruction list \<Rightarrow> emit_failure + idata list" where
  "emit_all p [] = Inr []"
| "emit_all p (i # is) = and_then (emit_instruction p i)
     (\<lambda>w. and_then (emit_all p is) (\<lambda>ws. Inr (w # ws)))"

definition translate_to_binary :: "program \<Rightarrow> emit_failure + idata list" where
  "translate_to_binary p = emit_all p (instructions p)"


section \<open>The specification: one word for each instruction\<close>

text \<open>The fields of a word, by format, and the ranges the operands must be in.\<close>

definition itype_word ::
    "opcode \<Rightarrow> funct3 \<Rightarrow> register \<Rightarrow> register \<Rightarrow> idata \<Rightarrow> idata \<Rightarrow> bool" where
  "itype_word opc f3 rd rs1 imm w \<longleftrightarrow>
     validate rd \<and> validate rs1 \<and> imm < 4096
     \<and> field 0 7 w = opcode_bits opc \<and> field 7 5 w = register_bits rd
     \<and> field 12 3 w = funct3_bits f3 \<and> field 15 5 w = register_bits rs1 \<and> field 20 12 w = imm"

definition rtype_word ::
    "opcode \<Rightarrow> funct3 \<Rightarrow> funct7 \<Rightarrow> register \<Rightarrow> register \<Rightarrow> register \<Rightarrow> idata \<Rightarrow> bool" where
  "rtype_word opc f3 f7 rd rs1 rs2 w \<longleftrightarrow>
     validate rd \<and> validate rs1 \<and> validate rs2
     \<and> field 0 7 w = opcode_bits opc \<and> field 7 5 w = register_bits rd
     \<and> field 12 3 w = funct3_bits f3 \<and> field 15 5 w = register_bits rs1
     \<and> field 20 5 w = register_bits rs2 \<and> field 25 7 w = funct7_bits f7"

definition utype_word :: "opcode \<Rightarrow> register \<Rightarrow> idata \<Rightarrow> idata \<Rightarrow> bool" where
  "utype_word opc rd imm w \<longleftrightarrow>
     validate rd \<and> imm < 1048576
     \<and> field 0 7 w = opcode_bits opc \<and> field 7 5 w = register_bits rd \<and> field 12 20 w = imm"

text \<open>The store format as the code writes it: the immediate lies over the source register.\<close>

definition stype_word ::
    "opcode \<Rightarrow> funct3 \<Rightarrow> register \<Rightarrow> register \<Rightarrow> idata \<Rightarrow> idata \<Rightarrow> bool" where
  "stype_word opc f3 rs1 rs2 imm w \<longleftrightarrow>
     validate rs1 \<and> validate rs2 \<and> imm < 4096
     \<and> field 0 7 w = opcode_bits opc \<and> field 7 5 w = 0
     \<and> field 12 3 w = funct3_bits f3 \<and> field 15 5 w = register_bits rs1
     \<and> field 20 12 w = register_bits rs2 OR imm"

definition jtype_word :: "opcode \<Rightarrow> register \<Rightarrow> idata \<Rightarrow> idata \<Rightarrow> bool" where
  "jtype_word opc rd imm21 w \<longleftrightarrow>
     validate rd \<and> imm21 < 2097152
     \<and> field 0 7 w = opcode_bits opc \<and> field 7 5 w = register_bits rd
     \<and> field 31 1 w = field 20 1 imm21 \<and> field 21 10 w = field 1 10 imm21
     \<and> field 20 1 w = field 11 1 imm21 \<and> field 12 8 w = field 12 8 imm21"

fun instruction_word :: "program \<Rightarrow> mnemonic_name \<Rightarrow> operands \<Rightarrow> idata \<Rightarrow> bool" where
  "instruction_word p n (ItypeOperands rd rs1 imm12) w \<longleftrightarrow>
     itype_word (det_opcode (name_to_determinant n)) (det_funct3 (name_to_determinant n)) rd rs1 imm12 w"
| "instruction_word p n (RtypeOperands rd rs1 rs2) w \<longleftrightarrow>
     rtype_word (det_opcode (name_to_determinant n)) (det_funct3 (name_to_determinant n))
       (det_funct7 (name_to_determinant n)) rd rs1 rs2 w"
| "instruction_word p n (StypeOperands rs1 rs2 imm12) w \<longleftrightarrow>
     stype_word (det_opcode (name_to_determinant n)) (det_funct3 (name_to_determinant n)) rs1 rs2 imm12 w"
| "instruction_word p n (UtypeOperands rd imm20) w \<longleftrightarrow>
     utype_word (det_opcode (name_to_determinant n)) rd imm20 w"
| "instruction_word p n (JtypeOperands rd imm20) w \<longleftrightarrow>
     jtype_word (det_opcode (name_to_determinant n)) rd imm20 w"
| "instruction_word p n (JalrOperands rd rs1 (Imm imm)) w \<longleftrightarrow> itype_word Op_JALR F3_JALR rd rs1 imm w"
| "instruction_word p n (JalrOperands rd rs1 (LabelRef l)) w \<longleftrightarrow>
     (\<exists>target. label_mappings p l = Some target \<and>
        itype_word Op_JALR F3_JALR rd (vector_reg 0) target w)"

lemma asserting_Inr_iff: "asserting m = Inr x \<longleftrightarrow> m = Inr x"
  by (cases m) simp_all

lemmas word_iffs =
  create_itype_instruction_iff [folded itype_word_def]
  create_rtype_instruction_iff [folded rtype_word_def]
  create_utype_instruction_iff [folded utype_word_def]
  create_stype_instruction_iff [folded stype_word_def]
  create_jtype_instruction_iff [folded jtype_word_def]

lemma emit_instruction_iff:
  "emit_instruction p i = Inr w \<longleftrightarrow> instruction_word p (name (instr_mnemonic i)) (operands i) w"
  by (cases "(p, name (instr_mnemonic i), operands i, w)" rule: instruction_word.cases)
    (auto simp: emit_instruction_def Let_def asserting_Inr_iff word_iffs i_jalr_def
      split: option.splits)

lemma emit_all_iff: "emit_all p instrs = Inr ws \<longleftrightarrow> list_all2 (\<lambda>i w. emit_instruction p i = Inr w) instrs ws"
  by (induction instrs arbitrary: ws) (auto simp: and_then_Inr_iff list_all2_Cons1)

lemma translate_to_binary_Inr_iff:
  "translate_to_binary p = Inr code \<longleftrightarrow>
     list_all2 (\<lambda>i. instruction_word p (name (instr_mnemonic i)) (operands i)) (instructions p) code"
  by (simp add: translate_to_binary_def emit_all_iff emit_instruction_iff)


section \<open>Failures\<close>

fun undeclared_target :: "program \<Rightarrow> operands \<Rightarrow> bool" where
  "undeclared_target p (JalrOperands rd rs1 (LabelRef l)) \<longleftrightarrow> label_mappings p l = None"
| "undeclared_target p _ \<longleftrightarrow> False"

lemma asserting_not_out_of_range [simp]: "asserting m \<noteq> Inl Out_of_range"
  by (cases m) simp_all

lemma emit_instruction_out_of_range:
  "emit_instruction p i = Inl Out_of_range \<longleftrightarrow> undeclared_target p (operands i)"
  by (cases "(p, operands i)" rule: undeclared_target.cases)
    (auto simp: emit_instruction_def Let_def split: option.splits)

lemma and_then_Inl_iff: "and_then m k = Inl e \<longleftrightarrow> m = Inl e \<or> (\<exists>x. m = Inr x \<and> k x = Inl e)"
  by (cases m) simp_all

lemma emit_all_Inl_iff:
  "emit_all p instrs = Inl e \<longleftrightarrow>
     (\<exists>n < length instrs. emit_instruction p (instrs ! n) = Inl e \<and>
        (\<exists>ws. emit_all p (take n instrs) = Inr ws))"
proof (induction instrs)
  case (Cons i instrs)
  show ?case
  proof (cases "emit_instruction p i")
    case (Inl e')
    then show ?thesis by (auto simp: Ex_less_Suc2)
  next
    case (Inr w)
    have "emit_all p (i # instrs) = Inl e \<longleftrightarrow> emit_all p instrs = Inl e"
      using Inr by (auto simp: and_then_Inl_iff)
    moreover have "(\<exists>ws. emit_all p (take (Suc n) (i # instrs)) = Inr ws) \<longleftrightarrow>
        (\<exists>ws. emit_all p (take n instrs) = Inr ws)" for n
      using Inr by (auto simp: and_then_Inr_iff)
    ultimately show ?thesis using Cons Inr by (simp add: Ex_less_Suc2)
  qed
qed simp

text \<open>Only the labels of the program matter, not its list of instructions.\<close>

lemma emit_instruction_labels [simp]:
  "emit_instruction (p\<lparr>instructions := is\<rparr>) i = emit_instruction p i"
  by (simp add: emit_instruction_def Let_def split: operands.split imm_or_label_ref.split)

lemma emit_all_labels [simp]: "emit_all (p\<lparr>instructions := is\<rparr>) js = emit_all p js"
  by (induction js) simp_all

text \<open>\<open>translate_to_binary\<close> lets \<open>std::out_of_range\<close> escape exactly when some jump names an
  undeclared label and the instructions before it encode.\<close>

theorem translate_to_binary_out_of_range:
  "translate_to_binary p = Inl Out_of_range \<longleftrightarrow>
     (\<exists>n < length (instructions p). undeclared_target p (operands (instructions p ! n)) \<and>
        (\<exists>ws. translate_to_binary (p\<lparr>instructions := take n (instructions p)\<rparr>) = Inr ws))"
  by (simp add: translate_to_binary_def emit_all_Inl_iff emit_instruction_out_of_range)

section \<open>What the encoding loses\<close>

text \<open>The \<open>s.\<close> prefix does not reach the machine code: a scalar instruction is encoded
  as the vector instruction of the same name.\<close>

theorem emit_ignores_scalar_prefix:
  "emit_instruction p (i\<lparr>instr_mnemonic := (instr_mnemonic i)\<lparr>has_s_prefix := b\<rparr>\<rparr>) =
     emit_instruction p i"
  by (simp add: emit_instruction_def)

text \<open>The funct7 of the shifts by an immediate does not reach the machine code: \<open>srai\<close> is
  encoded as \<open>srli\<close>.\<close>

theorem emit_srai_as_srli:
  "emit_instruction p \<lparr>label = l, instr_mnemonic = \<lparr>name = Mn_SRAI, has_s_prefix = s\<rparr>,
       operands = ItypeOperands rd rs1 imm\<rparr> =
   emit_instruction p \<lparr>label = l, instr_mnemonic = \<lparr>name = Mn_SRLI, has_s_prefix = s\<rparr>,
       operands = ItypeOperands rd rs1 imm\<rparr>"
  by (simp add: emit_instruction_def create_defs setter_defs)

end
