(* ===== verification/Memory.thy ===== *)
theory Memory
  imports Prelude "HOL-Library.AList_Mapping"
begin

text \<open>
  The memories that the simulator attaches to the hardware, and the simulation loop
  (\<open>sim/simlib/sim.hpp\<close>). The ports of the generated class \<open>Vgpu\<close> are a record; what is behind
  them is a field of an unknown type, and \<open>Vgpu::eval\<close> is a parameter of the loop. A port
  array has one word for each channel. The only pointers of a memory that the code ever changes
  are those to the read data of \<open>DataMemory\<close>, so these are part of its state; \<open>None\<close> is a
  null pointer, and a step that would write through it has no result.
\<close>

section \<open>The ports of the hardware\<close>

record 'h vgpu =
  clk :: cdata
  execution_start :: cdata
  execution_done :: cdata
  kernel_config :: "idata list"
  instruction_mem_read_valid :: cdata
  instruction_mem_read_address :: "nat \<Rightarrow> idata"
  instruction_mem_read_ready :: cdata
  instruction_mem_read_data :: "nat \<Rightarrow> idata"
  data_mem_read_valid :: cdata
  data_mem_read_address :: "nat \<Rightarrow> idata"
  data_mem_read_ready :: cdata
  data_mem_read_data :: "nat \<Rightarrow> idata"
  data_mem_write_valid :: cdata
  data_mem_write_address :: "nat \<Rightarrow> idata"
  data_mem_write_data :: "nat \<Rightarrow> idata"
  data_mem_write_ready :: cdata
  hidden :: 'h

definition tick :: "('h vgpu \<Rightarrow> 'h vgpu) \<Rightarrow> 'h vgpu \<Rightarrow> 'h vgpu" where
  "tick eval gpu = eval ((eval (gpu\<lparr>clk := 0\<rparr>))\<lparr>clk := 1\<rparr>)"

definition set_bit_of :: "cdata \<Rightarrow> nat \<Rightarrow> bool \<Rightarrow> cdata" where
  "set_bit_of signal b value =
     (if value then signal OR push_bit b 1 else signal AND NOT (push_bit b 1))"

definition get_bit_of :: "cdata \<Rightarrow> nat \<Rightarrow> bool" where
  "get_bit_of signal b \<longleftrightarrow> drop_bit b signal AND 1 \<noteq> 0"

text \<open>The test \<open>signal & (1 << i)\<close> of the memories, an \<open>int\<close> computation on a byte.\<close>

definition channel_valid :: "cdata \<Rightarrow> nat \<Rightarrow> bool" where
  "channel_valid signal i \<longleftrightarrow> signal AND push_bit i 1 \<noteq> 0"

definition max_size :: idata where
  "max_size = 0xFFFFFFFF"

section \<open>Containers\<close>

type_synonym container = "(idata, idata) mapping"

text \<open>
  \<open>operator[]\<close> of the standard maps: the value, and the container, in which a missing key has
  been inserted with the value 0.
\<close>

definition subscript :: "container \<Rightarrow> idata \<Rightarrow> idata \<times> container" where
  "subscript m addr =
     (case Mapping.lookup m addr of
        Some v \<Rightarrow> (v, m)
      | None \<Rightarrow> (0, Mapping.update addr 0 m))"

section \<open>Instruction memory\<close>

record instruction_memory =
  imemory :: container
  istack_ptr :: idata

definition make_instruction_memory :: instruction_memory where
  "make_instruction_memory = \<lparr>imemory = Mapping.empty, istack_ptr = 0\<rparr>"

definition instruction_channel ::
    "nat \<Rightarrow> instruction_memory \<times> 'h vgpu \<Rightarrow> instruction_memory \<times> 'h vgpu" where
  "instruction_channel i st =
     (let (mem, gpu) = st
      in if channel_valid (instruction_mem_read_valid gpu) i then
           let addr = instruction_mem_read_address gpu i;
               (v, m) = (if addr < max_size then subscript (imemory mem) addr else (0, imemory mem));
               gpu = gpu\<lparr>instruction_mem_read_data := (instruction_mem_read_data gpu)(i := v)\<rparr>
           in (mem\<lparr>imemory := m\<rparr>, gpu\<lparr>instruction_mem_read_ready :=
                set_bit_of (instruction_mem_read_ready gpu) i True\<rparr>)
         else
           (mem, gpu\<lparr>instruction_mem_read_ready :=
              set_bit_of (instruction_mem_read_ready gpu) i False\<rparr>))"

definition instruction_process ::
    "nat \<Rightarrow> instruction_memory \<times> 'h vgpu \<Rightarrow> instruction_memory \<times> 'h vgpu" where
  "instruction_process num_channels st =
     foldl (\<lambda>st i. instruction_channel i st) st [0..<num_channels]"

definition load_instruction :: "idata \<Rightarrow> idata \<Rightarrow> instruction_memory \<Rightarrow> instruction_memory" where
  "load_instruction addr instr mem =
     (if addr < max_size then mem\<lparr>imemory := Mapping.update addr instr (imemory mem)\<rparr> else mem)"

definition push_instruction :: "idata \<Rightarrow> instruction_memory \<Rightarrow> instruction_memory" where
  "push_instruction instr mem =
     mem\<lparr>imemory := Mapping.update (istack_ptr mem) instr (imemory mem),
         istack_ptr := istack_ptr mem + 1\<rparr>"

section \<open>Data memory\<close>

record data_memory =
  dmemory :: container
  dstack_ptr :: idata
  read_data_ptr :: "nat \<Rightarrow> nat option"

definition make_data_memory :: data_memory where
  "make_data_memory = \<lparr>dmemory = Mapping.empty, dstack_ptr = 0, read_data_ptr = Some\<rparr>"

definition push_data :: "idata \<Rightarrow> data_memory \<Rightarrow> data_memory" where
  "push_data d mem =
     mem\<lparr>dmemory := Mapping.update (dstack_ptr mem) d (dmemory mem),
         dstack_ptr := dstack_ptr mem + 1\<rparr>"

definition write_channel :: "nat \<Rightarrow> data_memory \<times> 'h vgpu \<Rightarrow> data_memory \<times> 'h vgpu" where
  "write_channel i st =
     (let (mem, gpu) = st
      in if channel_valid (data_mem_write_valid gpu) i then
           let addr = data_mem_write_address gpu i;
               mem = (if addr < max_size
                      then mem\<lparr>dmemory := Mapping.update addr (data_mem_write_data gpu i) (dmemory mem)\<rparr>
                      else mem)
           in (mem, gpu\<lparr>data_mem_write_ready := set_bit_of (data_mem_write_ready gpu) i True\<rparr>)
         else
           (mem, gpu\<lparr>data_mem_write_ready := set_bit_of (data_mem_write_ready gpu) i False\<rparr>))"

definition read_channel ::
    "nat \<Rightarrow> data_memory \<times> 'h vgpu \<Rightarrow> (data_memory \<times> 'h vgpu) option" where
  "read_channel i st =
     (let (mem, gpu) = st
      in if channel_valid (data_mem_read_valid gpu) i then
           let addr = data_mem_read_address gpu i;
               ready = (\<lambda>gpu. gpu\<lparr>data_mem_read_ready :=
                          set_bit_of (data_mem_read_ready gpu) i True\<rparr>)
           in if addr < max_size then
                let (v, m) = subscript (dmemory mem) addr
                in (case read_data_ptr mem i of
                      None \<Rightarrow> None
                    | Some j \<Rightarrow>
                        Some (mem\<lparr>dmemory := m\<rparr>,
                          ready (gpu\<lparr>data_mem_read_data := (data_mem_read_data gpu)(j := v)\<rparr>)))
              else
                Some (mem\<lparr>read_data_ptr := (read_data_ptr mem)(i := None)\<rparr>, ready gpu)
         else
           Some (mem, gpu\<lparr>data_mem_read_ready := set_bit_of (data_mem_read_ready gpu) i False\<rparr>))"

fun read_channels ::
    "nat list \<Rightarrow> data_memory \<times> 'h vgpu \<Rightarrow> (data_memory \<times> 'h vgpu) option" where
  "read_channels [] st = Some st"
| "read_channels (i # is) st = Option.bind (read_channel i st) (read_channels is)"

definition data_process ::
    "nat \<Rightarrow> data_memory \<times> 'h vgpu \<Rightarrow> (data_memory \<times> 'h vgpu) option" where
  "data_process num_channels st =
     read_channels [0..<num_channels] (foldl (\<lambda>st i. write_channel i st) st [0..<num_channels])"

text \<open>The lines that \<open>print_memory\<close> prints, in the order of the keys.\<close>

fun print_entries :: "idata \<Rightarrow> idata \<Rightarrow> (idata \<times> idata) list \<Rightarrow> string list" where
  "print_entries max_num_lines i [] = []"
| "print_entries max_num_lines i ((key, v) # kvs) =
     (let i = i + 1
      in if max_num_lines \<le> i then []
         else (''Memory['' @ show_idata key @ '']: '' @ show_idata v) # print_entries max_num_lines i kvs)"

definition memory_entries :: "container \<Rightarrow> (idata \<times> idata) list" where
  "memory_entries m = map (\<lambda>k. (k, the (Mapping.lookup m k))) (Mapping.ordered_keys m)"

definition print_memory :: "idata \<Rightarrow> data_memory \<Rightarrow> string list" where
  "print_memory max_num_lines mem = print_entries max_num_lines 0 (memory_entries (dmemory mem))"

section \<open>Running the hardware\<close>

definition set_kernel_config :: "idata \<Rightarrow> idata \<Rightarrow> idata \<Rightarrow> idata \<Rightarrow> 'h vgpu \<Rightarrow> 'h vgpu" where
  "set_kernel_config base_instructions_address base_data_address num_blocks num_warps_per_block gpu =
     gpu\<lparr>kernel_config := (kernel_config gpu)[3 := base_instructions_address, 2 := base_data_address,
         1 := num_blocks, 0 := num_warps_per_block]\<rparr>"

record 'h machine =
  dut :: "'h vgpu"
  imem :: instruction_memory
  dmem :: data_memory

text \<open>
  The body of the loop of \<open>simulate\<close>: \<open>Inl\<close> when the hardware reports that it is done, after
  the first evaluation; \<open>None\<close> when a memory writes through a null pointer.
\<close>

definition simulate_cycle ::
    "('h vgpu \<Rightarrow> 'h vgpu) \<Rightarrow> nat \<Rightarrow> 'h machine \<Rightarrow> ('h machine + 'h machine) option" where
  "simulate_cycle eval num_channels s =
     (let t = eval (dut s)
      in if execution_done t \<noteq> 0 then Some (Inl (s\<lparr>dut := t\<rparr>))
         else
           let (im, t) = instruction_process num_channels (imem s, t)
           in (case data_process num_channels (dmem s, t) of
                 None \<Rightarrow> None
               | Some (dm, t) \<Rightarrow> Some (Inr \<lparr>dut = tick eval (eval t), imem = im, dmem = dm\<rparr>)))"

fun simulate_loop ::
    "('h vgpu \<Rightarrow> 'h vgpu) \<Rightarrow> nat \<Rightarrow> nat \<Rightarrow> 'h machine \<Rightarrow> (bool \<times> 'h machine) option" where
  "simulate_loop eval num_channels 0 s = Some (False, s)"
| "simulate_loop eval num_channels (Suc cycles) s =
     (case simulate_cycle eval num_channels s of
        None \<Rightarrow> None
      | Some (Inl s) \<Rightarrow> Some (True, s)
      | Some (Inr s) \<Rightarrow> simulate_loop eval num_channels cycles s)"

definition simulate ::
    "('h vgpu \<Rightarrow> 'h vgpu) \<Rightarrow> nat \<Rightarrow> idata \<Rightarrow> 'h machine \<Rightarrow> (bool \<times> 'h machine) option" where
  "simulate eval num_channels max_num_cycles s =
     simulate_loop eval num_channels (unat max_num_cycles) (s\<lparr>dut := (dut s)\<lparr>execution_start := 1\<rparr>\<rparr>)"

section \<open>A store of words\<close>

text \<open>
  What the simulator relies on in a container: a total memory, which writing changes at one address
  and fetching does not change, although fetching may change the container.
\<close>

locale word_store =
  fixes get :: "'s \<Rightarrow> idata \<Rightarrow> idata"
    and put :: "idata \<Rightarrow> idata \<Rightarrow> 's \<Rightarrow> 's"
    and fetch :: "'s \<Rightarrow> idata \<Rightarrow> idata \<times> 's"
  assumes get_put: "get (put a v s) = (get s)(a := v)"
    and fetch_value: "fst (fetch s a) = get s a"
    and fetch_state: "get (snd (fetch s a)) = get s"
begin

lemma fetch_put: "fst (fetch (put a v s) b) = (if b = a then v else get s b)"
  by (simp add: fetch_value get_put)

lemma put_commute: "a \<noteq> b \<Longrightarrow> get (put a v (put b w s)) = get (put b w (put a v s))"
  by (simp add: get_put fun_upd_twist)

lemma get_puts: "get (fold (\<lambda>(a, v). put a v) ws s) = fold (\<lambda>(a, v) m. m(a := v)) ws (get s)"
  by (induction ws arbitrary: s) (auto simp: get_put)

lemma get_numbered:
  "get (fold (\<lambda>i. put (of_nat i) (xs ! i)) [0..<n] s) a =
     (if unat a < n then xs ! unat a else get s a)" if "n \<le> 2 ^ 32"
  using that
proof (induction n)
  case (Suc n)
  have "unat (of_nat n :: idata) = n" using Suc.prems by (simp add: unsigned_of_nat take_bit_nat_eq_self)
  then have "a = of_nat n \<longleftrightarrow> unat a = n"
    by auto
  then show ?case using Suc by (auto simp: get_put less_Suc_eq)
qed simp

end

definition contents :: "container \<Rightarrow> idata \<Rightarrow> idata" where
  "contents m a = (case Mapping.lookup m a of Some v \<Rightarrow> v | None \<Rightarrow> 0)"

interpretation store: word_store contents Mapping.update subscript
  by unfold_locales
    (auto simp: contents_def subscript_def fun_eq_iff lookup_update' split: option.splits)

lemma contents_empty [simp]: "contents Mapping.empty = (\<lambda>a. 0)"
  by (simp add: contents_def fun_eq_iff)

lemma max_size_minus: "max_size = - 1"
  by (simp add: max_size_def)

section \<open>Handshake bits\<close>

lemma channel_valid_iff [simp]: "channel_valid s i \<longleftrightarrow> bit s i"
  using and_exp_eq_0_iff_not_bit [of s i] by (simp add: channel_valid_def)

lemma bit_set_bit_of: "bit (set_bit_of s b v) k \<longleftrightarrow> (if k = b then v \<and> b < 8 else bit s k)"
  by (auto simp: set_bit_of_def bit_simps bit_push_bit_iff bit_1_iff dest: bit_imp_le_length)

text \<open>Setting a bit of a signal is read back by \<open>get_bit\<close>, and no other bit changes.\<close>

theorem get_bit_set_bit:
  "get_bit_of (set_bit_of s b v) k \<longleftrightarrow> (if k = b then v \<and> b < 8 else get_bit_of s k)"
proof -
  have "get_bit_of s k \<longleftrightarrow> bit s k" for s k
    by (simp add: get_bit_of_def bit_iff_odd_drop_bit odd_iff_mod_2_eq_one and_one_eq)
  then show ?thesis by (simp add: bit_set_bit_of)
qed

text \<open>The ready signal after a memory has looked at its first \<open>n\<close> channels.\<close>

definition mirror :: "nat \<Rightarrow> cdata \<Rightarrow> cdata \<Rightarrow> cdata" where
  "mirror n valid ready = (valid AND mask n) OR (ready AND NOT (mask n))"

lemma mirror_0 [simp]: "mirror 0 valid ready = ready"
  by (simp add: mirror_def)

lemma mirror_Suc: "set_bit_of (mirror n valid ready) n (bit valid n) = mirror (Suc n) valid ready"
  by (rule bit_word_eqI) (auto simp: bit_set_bit_of mirror_def bit_simps less_Suc_eq)

lemma mirror_all: "8 \<le> n \<Longrightarrow> mirror n valid ready = valid"
  by (rule bit_word_eqI) (auto simp: mirror_def bit_simps)

section \<open>Instruction memory\<close>

definition fetched :: "nat \<Rightarrow> (idata \<Rightarrow> idata) \<Rightarrow> 'h vgpu \<Rightarrow> nat \<Rightarrow> idata" where
  "fetched n m gpu i =
     (if i < n \<and> bit (instruction_mem_read_valid gpu) i
      then if instruction_mem_read_address gpu i < max_size
           then m (instruction_mem_read_address gpu i) else 0
      else instruction_mem_read_data gpu i)"

lemma fetched_Suc:
  "fetched (Suc n) m gpu =
     (if bit (instruction_mem_read_valid gpu) n
      then (fetched n m gpu)(n := if instruction_mem_read_address gpu n < max_size
           then m (instruction_mem_read_address gpu n) else 0)
      else fetched n m gpu)"
  by (rule ext) (auto simp: fetched_def less_Suc_eq)

lemma instruction_process_steps:
  "\<exists>m. instruction_process n (mem, gpu) = (mem\<lparr>imemory := m\<rparr>,
       gpu\<lparr>instruction_mem_read_data := fetched n (contents (imemory mem)) gpu,
           instruction_mem_read_ready :=
             mirror n (instruction_mem_read_valid gpu) (instruction_mem_read_ready gpu)\<rparr>) \<and>
     contents m = contents (imemory mem)"
proof (induction n)
  case 0
  have "fetched 0 (contents (imemory mem)) gpu = instruction_mem_read_data gpu"
    by (rule ext) (simp add: fetched_def)
  then show ?case by (intro exI [of _ "imemory mem"]) (simp add: instruction_process_def)
next
  case (Suc n)
  then obtain m where m: "instruction_process n (mem, gpu) = (mem\<lparr>imemory := m\<rparr>,
       gpu\<lparr>instruction_mem_read_data := fetched n (contents (imemory mem)) gpu,
           instruction_mem_read_ready :=
             mirror n (instruction_mem_read_valid gpu) (instruction_mem_read_ready gpu)\<rparr>)"
    "contents m = contents (imemory mem)" by blast
  have step: "instruction_process (Suc n) (mem, gpu) =
      instruction_channel n (instruction_process n (mem, gpu))"
    by (simp add: instruction_process_def)
  let ?a = "instruction_mem_read_address gpu n"
  show ?case
    unfolding step m instruction_channel_def
    using store.fetch_value [of m ?a] store.fetch_state [of m ?a] m(2)
      mirror_Suc [of n "instruction_mem_read_valid gpu" "instruction_mem_read_ready gpu"]
    by (cases "subscript m ?a") (auto simp: Let_def fetched_Suc fun_upd_def)
qed

text \<open>C15. One cycle of the instruction memory, for any number of channels: a channel that asks gets
  the word at its address (0 at the one address out of range), the ready bits mirror the valid
  bits, every other port keeps its value, and the memory holds what it held.\<close>

theorem instruction_process_spec:
  "case instruction_process n (mem, gpu) of (mem', gpu') \<Rightarrow>
     contents (imemory mem') = contents (imemory mem) \<and> istack_ptr mem' = istack_ptr mem \<and>
     gpu' = gpu\<lparr>instruction_mem_read_data := (\<lambda>i.
           if i < n \<and> bit (instruction_mem_read_valid gpu) i
           then if instruction_mem_read_address gpu i < max_size
                then contents (imemory mem) (instruction_mem_read_address gpu i) else 0
           else instruction_mem_read_data gpu i),
         instruction_mem_read_ready :=
           mirror n (instruction_mem_read_valid gpu) (instruction_mem_read_ready gpu)\<rparr>"
proof -
  have "fetched n (contents (imemory mem)) gpu = (\<lambda>i.
           if i < n \<and> bit (instruction_mem_read_valid gpu) i
           then if instruction_mem_read_address gpu i < max_size
                then contents (imemory mem) (instruction_mem_read_address gpu i) else 0
           else instruction_mem_read_data gpu i)"
    by (rule ext) (simp add: fetched_def)
  then show ?thesis using instruction_process_steps [of n mem gpu] by auto
qed

section \<open>Data memory\<close>

text \<open>The memory after the writes of the first \<open>n\<close> channels: of the channels that write to an
  address, the last one wins.\<close>

definition last_writer :: "nat \<Rightarrow> 'h vgpu \<Rightarrow> idata \<Rightarrow> nat option" where
  "last_writer n gpu a =
     find (\<lambda>i. bit (data_mem_write_valid gpu) i \<and> data_mem_write_address gpu i = a) (rev [0..<n])"

definition written :: "nat \<Rightarrow> 'h vgpu \<Rightarrow> (idata \<Rightarrow> idata) \<Rightarrow> idata \<Rightarrow> idata" where
  "written n gpu m a =
     (if a < max_size
      then case last_writer n gpu a of Some i \<Rightarrow> data_mem_write_data gpu i | None \<Rightarrow> m a
      else m a)"

lemma written_0 [simp]: "written 0 gpu m = m"
  by (rule ext) (simp add: written_def last_writer_def)

lemma written_Suc:
  "written (Suc n) gpu m =
     (if bit (data_mem_write_valid gpu) n \<and> data_mem_write_address gpu n < max_size
      then (written n gpu m)(data_mem_write_address gpu n := data_mem_write_data gpu n)
      else written n gpu m)"
  by (rule ext) (auto simp: written_def last_writer_def)

definition write_channels :: "nat \<Rightarrow> data_memory \<times> 'h vgpu \<Rightarrow> data_memory \<times> 'h vgpu" where
  "write_channels n st = foldl (\<lambda>st i. write_channel i st) st [0..<n]"

lemma write_channels_steps:
  "\<exists>m. write_channels n (mem, gpu) = (mem\<lparr>dmemory := m\<rparr>,
       gpu\<lparr>data_mem_write_ready :=
         mirror n (data_mem_write_valid gpu) (data_mem_write_ready gpu)\<rparr>) \<and>
     contents m = written n gpu (contents (dmemory mem))"
proof (induction n)
  case 0
  show ?case by (intro exI [of _ "dmemory mem"]) (simp add: write_channels_def)
next
  case (Suc n)
  then obtain m where m: "write_channels n (mem, gpu) = (mem\<lparr>dmemory := m\<rparr>,
       gpu\<lparr>data_mem_write_ready :=
         mirror n (data_mem_write_valid gpu) (data_mem_write_ready gpu)\<rparr>)"
    "contents m = written n gpu (contents (dmemory mem))" by blast
  have step: "write_channels (Suc n) (mem, gpu) = write_channel n (write_channels n (mem, gpu))"
    by (simp add: write_channels_def)
  show ?case
    unfolding step m write_channel_def
    using mirror_Suc [of n "data_mem_write_valid gpu" "data_mem_write_ready gpu"] m(2)
    by (auto simp: Let_def written_Suc store.get_put)
qed

text \<open>A read is blocked when it would go through a pointer that is null.\<close>

definition reads :: "nat \<Rightarrow> 'h vgpu \<Rightarrow> nat \<Rightarrow> bool" where
  "reads n gpu i \<longleftrightarrow> i < n \<and> bit (data_mem_read_valid gpu) i"

definition blocked :: "nat \<Rightarrow> data_memory \<Rightarrow> 'h vgpu \<Rightarrow> bool" where
  "blocked n mem gpu \<longleftrightarrow> list_ex (\<lambda>i. reads n gpu i \<and> data_mem_read_address gpu i < max_size \<and>
     read_data_ptr mem i = None) [0..<n]"

definition pointers_ok :: "data_memory \<Rightarrow> bool" where
  "pointers_ok mem \<longleftrightarrow> (\<forall>i. read_data_ptr mem i = None \<or> read_data_ptr mem i = Some i)"

definition delivered :: "nat \<Rightarrow> (idata \<Rightarrow> idata) \<Rightarrow> 'h vgpu \<Rightarrow> nat \<Rightarrow> idata" where
  "delivered n m gpu i =
     (if reads n gpu i \<and> data_mem_read_address gpu i < max_size
      then m (data_mem_read_address gpu i) else data_mem_read_data gpu i)"

definition nulled :: "nat \<Rightarrow> 'h vgpu \<Rightarrow> (nat \<Rightarrow> nat option) \<Rightarrow> nat \<Rightarrow> nat option" where
  "nulled n gpu ptr i =
     (if reads n gpu i \<and> \<not> data_mem_read_address gpu i < max_size then None else ptr i)"

lemma read_channels_append:
  "read_channels (is @ js) st = Option.bind (read_channels is st) (read_channels js)"
  by (induction "is" arbitrary: st) (auto split: bind_splits)

lemma read_channels_single: "read_channels [i] = read_channel i"
proof (rule ext)
  fix st
  show "read_channels [i] st = read_channel i st" by (cases "read_channel i st") simp_all
qed

lemma reads_Suc: "reads (Suc n) gpu i \<longleftrightarrow> reads n gpu i \<or> i = n \<and> bit (data_mem_read_valid gpu) n"
  by (auto simp: reads_def less_Suc_eq)

lemma blocked_Suc: "blocked (Suc n) mem gpu \<longleftrightarrow> blocked n mem gpu \<or>
    bit (data_mem_read_valid gpu) n \<and> data_mem_read_address gpu n < max_size \<and> read_data_ptr mem n = None"
  by (auto simp: blocked_def list_ex_iff reads_def less_Suc_eq)

lemma delivered_Suc:
  "delivered (Suc n) m gpu =
     (if bit (data_mem_read_valid gpu) n \<and> data_mem_read_address gpu n < max_size
      then (delivered n m gpu)(n := m (data_mem_read_address gpu n)) else delivered n m gpu)"
  by (rule ext) (auto simp: delivered_def reads_def less_Suc_eq)

lemma nulled_Suc:
  "nulled (Suc n) gpu ptr =
     (if bit (data_mem_read_valid gpu) n \<and> \<not> data_mem_read_address gpu n < max_size
      then (nulled n gpu ptr)(n := None) else nulled n gpu ptr)"
  by (rule ext) (auto simp: nulled_def reads_def less_Suc_eq)

lemma nulled_self [simp]: "nulled n gpu ptr n = ptr n"
  by (simp add: nulled_def reads_def)

lemma read_channels_steps:
  assumes "pointers_ok mem"
  shows "if blocked n mem gpu then read_channels [0..<n] (mem, gpu) = None
    else \<exists>m. read_channels [0..<n] (mem, gpu) =
      Some (mem\<lparr>dmemory := m, read_data_ptr := nulled n gpu (read_data_ptr mem)\<rparr>,
        gpu\<lparr>data_mem_read_data := delivered n (contents (dmemory mem)) gpu,
            data_mem_read_ready :=
              mirror n (data_mem_read_valid gpu) (data_mem_read_ready gpu)\<rparr>) \<and>
      contents m = contents (dmemory mem)"
proof (induction n)
  case 0
  have "delivered 0 (contents (dmemory mem)) gpu = data_mem_read_data gpu"
    "nulled 0 gpu (read_data_ptr mem) = read_data_ptr mem"
    by (auto simp: delivered_def nulled_def reads_def)
  then show ?case by (auto simp: blocked_def intro!: exI [of _ "dmemory mem"])
next
  case (Suc n)
  have step: "read_channels [0..<Suc n] (mem, gpu) =
      Option.bind (read_channels [0..<n] (mem, gpu)) (read_channel n)"
    by (simp add: read_channels_append read_channels_single)
  show ?case
  proof (cases "blocked n mem gpu")
    case True
    then show ?thesis using Suc unfolding step blocked_Suc by simp
  next
    case False
    let ?a = "data_mem_read_address gpu n"
    obtain m where m: "read_channels [0..<n] (mem, gpu) =
      Some (mem\<lparr>dmemory := m, read_data_ptr := nulled n gpu (read_data_ptr mem)\<rparr>,
        gpu\<lparr>data_mem_read_data := delivered n (contents (dmemory mem)) gpu,
            data_mem_read_ready :=
              mirror n (data_mem_read_valid gpu) (data_mem_read_ready gpu)\<rparr>)"
      "contents m = contents (dmemory mem)"
      using Suc False by auto
    obtain v m' where sub: "subscript m ?a = (v, m')" by force
    have v: "v = contents (dmemory mem) ?a" "contents m' = contents (dmemory mem)"
      using store.fetch_value [of m ?a] store.fetch_state [of m ?a] m(2) sub by simp_all
    have ptr: "read_data_ptr mem n = None \<or> read_data_ptr mem n = Some n"
      using assms by (simp add: pointers_ok_def)
    note simps = read_channel_def sub blocked_Suc delivered_Suc nulled_Suc False v
      mirror_Suc [of n "data_mem_read_valid gpu" "data_mem_read_ready gpu", symmetric]
    consider "\<not> bit (data_mem_read_valid gpu) n"
      | "bit (data_mem_read_valid gpu) n" "\<not> ?a < max_size"
      | "bit (data_mem_read_valid gpu) n" "?a < max_size" "read_data_ptr mem n = None"
      | "bit (data_mem_read_valid gpu) n" "?a < max_size" "read_data_ptr mem n = Some n"
      using ptr by (cases "bit (data_mem_read_valid gpu) n"; cases "?a < max_size") auto
    then show ?thesis
    proof cases
      case 1
      then show ?thesis unfolding step m(1) using m(2) by (auto simp: simps)
    next
      case 2
      then show ?thesis unfolding step m(1) using m(2) by (auto simp: simps)
    next
      case 3
      then show ?thesis unfolding step m(1) by (simp add: simps)
    next
      case 4
      then show ?thesis unfolding step m(1) by (auto simp: simps intro: exI [of _ m'])
    qed
  qed
qed

lemma pointers_ok_nulled: "pointers_ok mem \<Longrightarrow>
    pointers_ok (mem\<lparr>dmemory := m, read_data_ptr := nulled n gpu (read_data_ptr mem)\<rparr>)"
  by (auto simp: pointers_ok_def nulled_def)

lemma data_process_eq: "data_process n st = read_channels [0..<n] (write_channels n st)"
  by (simp add: data_process_def write_channels_def)

lemma blocked_ports [simp]:
  "blocked n (mem\<lparr>dmemory := m\<rparr>) (gpu\<lparr>data_mem_write_ready := r\<rparr>) = blocked n mem gpu"
  by (simp add: blocked_def reads_def)

lemma delivered_ports [simp]:
  "delivered n m (gpu\<lparr>data_mem_write_ready := r\<rparr>) = delivered n m gpu"
  by (rule ext) (simp add: delivered_def reads_def)

lemma nulled_ports [simp]:
  "nulled n (gpu\<lparr>data_mem_write_ready := r\<rparr>) ptr = nulled n gpu ptr"
  by (rule ext) (simp add: nulled_def reads_def)

lemma data_process_steps:
  assumes "pointers_ok mem"
  shows "if blocked n mem gpu then data_process n (mem, gpu) = None
    else \<exists>m. data_process n (mem, gpu) =
      Some (mem\<lparr>dmemory := m, read_data_ptr := nulled n gpu (read_data_ptr mem)\<rparr>,
        gpu\<lparr>data_mem_read_data := delivered n (written n gpu (contents (dmemory mem))) gpu,
            data_mem_read_ready := mirror n (data_mem_read_valid gpu) (data_mem_read_ready gpu),
            data_mem_write_ready := mirror n (data_mem_write_valid gpu) (data_mem_write_ready gpu)\<rparr>) \<and>
      contents m = written n gpu (contents (dmemory mem))"
proof -
  obtain m where m: "write_channels n (mem, gpu) = (mem\<lparr>dmemory := m\<rparr>,
       gpu\<lparr>data_mem_write_ready :=
         mirror n (data_mem_write_valid gpu) (data_mem_write_ready gpu)\<rparr>)"
    "contents m = written n gpu (contents (dmemory mem))"
    using write_channels_steps [of n mem gpu] by blast
  have "pointers_ok (mem\<lparr>dmemory := m\<rparr>)" using assms by (simp add: pointers_ok_def)
  note read_channels_steps [OF this, of n "gpu\<lparr>data_mem_write_ready :=
      mirror n (data_mem_write_valid gpu) (data_mem_write_ready gpu)\<rparr>"]
  then show ?thesis
    unfolding data_process_eq m(1) by (cases "blocked n mem gpu") (force simp: m(2))+
qed

text \<open>C6. One cycle of the data memory refines a total memory: the writes of the cycle take effect
  first, the last channel winning; every reading channel gets the word the memory then holds; the
  ready bits mirror the valid bits. It fails only when a channel reads through a pointer that is
  null, and a read of the address out of range makes the channel's pointer null.\<close>

theorem data_process_spec:
  assumes "pointers_ok mem"
  shows "case data_process n (mem, gpu) of
      None \<Rightarrow> blocked n mem gpu
    | Some (mem', gpu') \<Rightarrow>
        \<not> blocked n mem gpu \<and> pointers_ok mem' \<and>
        contents (dmemory mem') = written n gpu (contents (dmemory mem)) \<and>
        read_data_ptr mem' = nulled n gpu (read_data_ptr mem) \<and> dstack_ptr mem' = dstack_ptr mem \<and>
        gpu' = gpu\<lparr>
          data_mem_read_data := (\<lambda>i.
            if reads n gpu i \<and> data_mem_read_address gpu i < max_size
            then contents (dmemory mem') (data_mem_read_address gpu i) else data_mem_read_data gpu i),
          data_mem_read_ready := mirror n (data_mem_read_valid gpu) (data_mem_read_ready gpu),
          data_mem_write_ready := mirror n (data_mem_write_valid gpu) (data_mem_write_ready gpu)\<rparr>"
  using data_process_steps [OF assms, of n gpu] pointers_ok_nulled [OF assms]
  by (auto simp: delivered_def [abs_def] split: if_splits cong: if_cong)

definition idle_gpu :: "unit vgpu" where
  "idle_gpu =
     \<lparr>clk = 0, execution_start = 0, execution_done = 0, kernel_config = [0, 0, 0, 0],
      instruction_mem_read_valid = 0, instruction_mem_read_address = (\<lambda>_. 0),
      instruction_mem_read_ready = 0, instruction_mem_read_data = (\<lambda>_. 0),
      data_mem_read_valid = 0, data_mem_read_address = (\<lambda>_. 0), data_mem_read_ready = 0,
      data_mem_read_data = (\<lambda>_. 0), data_mem_write_valid = 0, data_mem_write_address = (\<lambda>_. 0),
      data_mem_write_data = (\<lambda>_. 0), data_mem_write_ready = 0, hidden = ()\<rparr>"

lemma pointers_ok_make [simp]: "pointers_ok make_data_memory"
  by (simp add: pointers_ok_def make_data_memory_def)

theorem data_process_spec_witness:
  "pointers_ok make_data_memory \<and>
   (case data_process 2 (make_data_memory, idle_gpu\<lparr>data_mem_read_valid := 1, data_mem_write_valid := 3,
        data_mem_write_data := (\<lambda>i. of_nat i + 7)\<rparr>) of
      None \<Rightarrow> False
    | Some (mem', gpu') \<Rightarrow> data_mem_read_data gpu' 0 = 8)"
proof -
  let ?gpu = "idle_gpu\<lparr>data_mem_read_valid := 1, data_mem_write_valid := 3,
    data_mem_write_data := (\<lambda>i. of_nat i + 7)\<rparr>"
  have reads: "reads 2 ?gpu 0" by (simp add: reads_def)
  have "\<not> blocked 2 make_data_memory ?gpu"
    by (simp add: blocked_def make_data_memory_def list_ex_iff)
  moreover have "written 2 ?gpu (\<lambda>a. 0) 0 = 8"
    by (simp add: written_def last_writer_def max_size_def idle_gpu_def upt_rec)
  moreover have "data_mem_read_address ?gpu 0 < max_size" "contents (dmemory make_data_memory) = (\<lambda>a. 0)"
    "data_mem_read_address ?gpu 0 = 0"
    by (simp_all add: max_size_def idle_gpu_def make_data_memory_def)
  ultimately show ?thesis
    using data_process_spec [OF pointers_ok_make, of 2 ?gpu] reads pointers_ok_make
    by (auto split: option.splits)
qed

text \<open>C16. After a channel has read the address out of range, its next read of any address in
  range writes through a null pointer.\<close>

theorem out_of_range_read_is_fatal:
  assumes "pointers_ok mem" and "data_process n (mem, gpu) = Some (mem', gpu')"
    and "reads n gpu i" and "data_mem_read_address gpu i = max_size"
    and "reads n next i" and "data_mem_read_address next i \<noteq> max_size"
  shows "data_process n (mem', next) = None"
proof -
  have ok: "pointers_ok mem'" "read_data_ptr mem' i = None"
    using data_process_steps [OF assms(1), of n gpu] pointers_ok_nulled [OF assms(1)] assms(2-4)
    by (auto simp: nulled_def split: if_splits)
  have "data_mem_read_address next i < max_size"
    using assms(6) word_order.not_eq_extremum [of "data_mem_read_address next i"]
    by (simp add: max_size_minus)
  then have "blocked n mem' next"
    using assms(5) ok(2) by (auto simp: blocked_def list_ex_iff reads_def)
  then show ?thesis using data_process_steps [OF ok(1), of n "next"] by simp
qed

theorem out_of_range_read_is_fatal_witness:
  "\<exists>mem' gpu'. data_process 1 (make_data_memory, idle_gpu\<lparr>data_mem_read_valid := 1,
      data_mem_read_address := (\<lambda>_. max_size)\<rparr>) = Some (mem', gpu') \<and>
    data_process 1 (mem', idle_gpu\<lparr>data_mem_read_valid := 1\<rparr>) = None"
proof -
  let ?gpu = "idle_gpu\<lparr>data_mem_read_valid := 1, data_mem_read_address := (\<lambda>_. max_size)\<rparr>"
  let ?next = "idle_gpu\<lparr>data_mem_read_valid := 1\<rparr>"
  have "\<not> blocked 1 make_data_memory ?gpu" by (simp add: blocked_def)
  then obtain mem' gpu' where step: "data_process 1 (make_data_memory, ?gpu) = Some (mem', gpu')"
    using data_process_steps [OF pointers_ok_make, of 1 ?gpu] by auto
  moreover have "reads 1 ?gpu 0" "reads 1 ?next 0" by (simp_all add: reads_def)
  moreover have "data_mem_read_address ?next 0 \<noteq> max_size" by (simp add: max_size_def idle_gpu_def)
  ultimately show ?thesis
    using out_of_range_read_is_fatal [OF pointers_ok_make step, of 0 ?next] by auto
qed

lemma print_entries_eq:
  assumes "i < k \<or> i = 0"
  shows "print_entries k i kvs =
    map (\<lambda>(key, v). ''Memory['' @ show_idata key @ '']: '' @ show_idata v) (take (unat k - unat i - 1) kvs)"
  using assms
proof (induction kvs arbitrary: i)
  case (Cons kv kvs)
  obtain key v where kv: "kv = (key, v)" by force
  have i: "unat (i + 1) = unat i + 1"
  proof -
    have "i \<noteq> - 1" using Cons.prems by (auto simp: word_order.extremum_strict)
    then have "1 + i \<noteq> 0" by (metis add.commute eq_neg_iff_add_eq_0)
    then show ?thesis using unatSuc [of i] by (simp add: add.commute)
  qed
  show ?case
  proof (cases "k \<le> i + 1")
    case True
    then have "unat k - unat i - 1 = 0" by (simp add: word_le_nat_alt i)
    then show ?thesis using True kv by (simp add: Let_def)
  next
    case False
    then obtain n where n: "unat k - unat i - 1 = Suc n" "n = unat k - unat (i + 1) - 1"
      by (cases "unat k - unat i - 1") (auto simp: word_le_nat_alt i)
    have "print_entries k (i + 1) kvs = map (\<lambda>(key, v). ''Memory['' @ show_idata key @ '']: '' @ show_idata v)
        (take n kvs)"
      using Cons.IH [of "i + 1"] False n(2) by (simp add: not_le)
    then show ?thesis using False kv n(1) by (simp add: Let_def)
  qed
qed simp

text \<open>\<open>print_memory\<close> prints the entries in the order of their addresses, one line less than the
  limit it is given.\<close>

theorem print_memory_lines:
  "print_memory k mem = map (\<lambda>(key, v). ''Memory['' @ show_idata key @ '']: '' @ show_idata v)
     (take (unat k - 1) (memory_entries (dmemory mem)))"
  using print_entries_eq [of 0 k] by (simp add: print_memory_def)

section \<open>The simulation loop\<close>

text \<open>\<open>cycles eval n k s t\<close>: \<open>k\<close> full cycles of the loop lead from \<open>s\<close> to \<open>t\<close>.\<close>

inductive cycles ::
    "('h vgpu \<Rightarrow> 'h vgpu) \<Rightarrow> nat \<Rightarrow> nat \<Rightarrow> 'h machine \<Rightarrow> 'h machine \<Rightarrow> bool"
  for eval n where
  cycles_0: "cycles eval n 0 s s"
| cycles_Suc: "simulate_cycle eval n s = Some (Inr s') \<Longrightarrow> cycles eval n k s' t \<Longrightarrow>
    cycles eval n (Suc k) s t"

inductive_cases cycles_SucE [elim!]: "cycles eval n (Suc k) s t"

inductive_simps cycles_0_iff [simp]: "cycles eval n 0 s t"

lemma cycles_Suc_iff:
  "cycles eval n (Suc k) s t \<longleftrightarrow> (\<exists>s'. simulate_cycle eval n s = Some (Inr s') \<and> cycles eval n k s' t)"
  by (auto intro: cycles_Suc)

lemma simulate_loop_outcome:
  "(simulate_loop eval n m s = Some (True, t) \<longleftrightarrow>
      (\<exists>k<m. \<exists>u. cycles eval n k s u \<and> simulate_cycle eval n u = Some (Inl t))) \<and>
   (simulate_loop eval n m s = Some (False, t) \<longleftrightarrow> cycles eval n m s t) \<and>
   (simulate_loop eval n m s = None \<longleftrightarrow>
      (\<exists>k<m. \<exists>u. cycles eval n k s u \<and> simulate_cycle eval n u = None))"
proof (induction m arbitrary: s)
  case (Suc m)
  show ?case
  proof (cases "simulate_cycle eval n s")
    case (Some r)
    then show ?thesis
      using Suc by (cases r) (simp_all add: cycles_Suc_iff Ex_less_Suc2)
  qed (simp add: cycles_Suc_iff Ex_less_Suc2)
qed auto

definition started :: "'h machine \<Rightarrow> 'h machine" where
  "started s = s\<lparr>dut := (dut s)\<lparr>execution_start := 1\<rparr>\<rparr>"


text \<open>What a cycle keeps: the pointers of the data memory and the contents of the instruction
  memory.\<close>

definition keeps :: "'h machine \<Rightarrow> 'h machine \<Rightarrow> bool" where
  "keeps s t \<longleftrightarrow> contents (imemory (imem t)) = contents (imemory (imem s)) \<and>
     istack_ptr (imem t) = istack_ptr (imem s) \<and> dstack_ptr (dmem t) = dstack_ptr (dmem s) \<and>
     (pointers_ok (dmem s) \<longrightarrow> pointers_ok (dmem t))"

lemma simulate_cycle_done:
  "simulate_cycle eval n s = Some (Inl t) \<longleftrightarrow>
     execution_done (eval (dut s)) \<noteq> 0 \<and> t = s\<lparr>dut := eval (dut s)\<rparr>"
  by (auto simp: simulate_cycle_def Let_def split: prod.splits option.splits)

lemma keeps_refl: "keeps s s"
  by (simp add: keeps_def)

lemma keeps_trans: "keeps s t \<Longrightarrow> keeps t u \<Longrightarrow> keeps s u"
  by (simp add: keeps_def)

lemma data_process_pointers:
  assumes "data_process n (mem, gpu) = Some (mem', gpu')" "pointers_ok mem"
  shows "pointers_ok mem'"
  using data_process_steps [OF assms(2), of n gpu] pointers_ok_nulled [OF assms(2)] assms(1)
  by (auto split: if_splits)

lemma read_channel_stack: "read_channel i (mem, gpu) = Some (mem', gpu') \<Longrightarrow> dstack_ptr mem' = dstack_ptr mem"
  by (auto simp: read_channel_def Let_def split: if_splits prod.splits option.splits)

lemma read_channels_stack:
  "read_channels is (mem, gpu) = Some (mem', gpu') \<Longrightarrow> dstack_ptr mem' = dstack_ptr mem"
proof (induction "is" arbitrary: mem gpu)
  case (Cons i "is")
  then obtain mem1 gpu1 where "read_channel i (mem, gpu) = Some (mem1, gpu1)"
      "read_channels is (mem1, gpu1) = Some (mem', gpu')"
    by (cases "read_channel i (mem, gpu)") auto
  then show ?case using Cons.IH read_channel_stack by fastforce
qed simp

lemma data_process_stack:
  assumes "data_process n (mem, gpu) = Some (mem', gpu')"
  shows "dstack_ptr mem' = dstack_ptr mem"
  using assms write_channels_steps [of n mem gpu] read_channels_stack
  by (fastforce simp: data_process_eq)

lemma simulate_cycle_keeps:
  assumes "simulate_cycle eval n s = Some (Inr t)"
  shows "keeps s t"
proof -
  obtain im g where im: "instruction_process n (imem s, eval (dut s)) = (im, g)" by force
  obtain dm g' where dm: "data_process n (dmem s, g) = Some (dm, g')"
    using assms im by (auto simp: simulate_cycle_def Let_def split: if_splits option.splits)
  have t: "imem t = im" "dmem t = dm"
    using assms im dm by (auto simp: simulate_cycle_def Let_def split: if_splits)
  show ?thesis
    using instruction_process_steps [of n "imem s" "eval (dut s)"] im
      data_process_pointers [OF dm] data_process_stack [OF dm]
    by (auto simp: keeps_def t)
qed

lemma cycles_keeps: "cycles eval n k s t \<Longrightarrow> keeps s t"
  by (induction rule: cycles.induct) (auto intro: keeps_refl keeps_trans simulate_cycle_keeps)

text \<open>C8. Whatever the hardware does, a run of the simulator leaves the program in the instruction
  memory and the load positions of both memories as they were, and keeps every pointer of the data
  memory either null or at its own channel.\<close>

theorem simulate_keeps:
  assumes "simulate eval n limit s = Some (finished, t)"
  shows "contents (imemory (imem t)) = contents (imemory (imem s)) \<and>
    istack_ptr (imem t) = istack_ptr (imem s) \<and> dstack_ptr (dmem t) = dstack_ptr (dmem s) \<and>
    (pointers_ok (dmem s) \<longrightarrow> pointers_ok (dmem t))"
proof -
  have "\<exists>k u. cycles eval n k (started s) u \<and> (t = u \<or> (\<exists>g. t = u\<lparr>dut := g\<rparr>))"
  proof (cases finished)
    case True
    then show ?thesis
      using assms simulate_loop_outcome [of eval n "unat limit" "started s" t]
      by (auto simp: simulate_def started_def simulate_cycle_done)
  next
    case False
    then show ?thesis
      using assms simulate_loop_outcome [of eval n "unat limit" "started s" t]
      by (auto simp: simulate_def started_def)
  qed
  then obtain k u where run: "cycles eval n k (started s) u" and t: "t = u \<or> (\<exists>g. t = u\<lparr>dut := g\<rparr>)"
    by blast
  have "keeps (started s) t"
    using cycles_keeps [OF run] t by (auto simp: keeps_def)
  then show ?thesis by (simp add: keeps_def started_def)
qed

text \<open>A hardware that counts its evaluations and is done after \<open>k\<close> of them.\<close>

definition done_after :: "nat \<Rightarrow> nat vgpu \<Rightarrow> nat vgpu" where
  "done_after k gpu = gpu\<lparr>hidden := hidden gpu + 1,
     execution_done := (if k \<le> hidden gpu + 1 then 1 else 0)\<rparr>"

definition idle_machine :: "nat machine" where
  "idle_machine = \<lparr>dut = \<lparr>clk = 0, execution_start = 0, execution_done = 0, kernel_config = [0, 0, 0, 0],
      instruction_mem_read_valid = 0, instruction_mem_read_address = (\<lambda>_. 0),
      instruction_mem_read_ready = 0, instruction_mem_read_data = (\<lambda>_. 0),
      data_mem_read_valid = 0, data_mem_read_address = (\<lambda>_. 0), data_mem_read_ready = 0,
      data_mem_read_data = (\<lambda>_. 0), data_mem_write_valid = 0, data_mem_write_address = (\<lambda>_. 0),
      data_mem_write_data = (\<lambda>_. 0), data_mem_write_ready = 0, hidden = 0\<rparr>,
    imem = push_instruction 19 make_instruction_memory, dmem = make_data_memory\<rparr>"

theorem simulate_keeps_witness:
  "\<exists>t. simulate (done_after 6) 1 200 idle_machine = Some (True, t) \<and>
     contents (imemory (imem t)) 0 = 19 \<and> pointers_ok (dmem t)"
proof -
  have "case simulate (done_after 6) 1 200 idle_machine of Some (True, t) \<Rightarrow> True | _ \<Rightarrow> False"
    by code_simp
  then obtain t where t: "simulate (done_after 6) 1 200 idle_machine = Some (True, t)"
    by (auto split: option.splits bool.splits)
  have "contents (imemory (imem idle_machine)) 0 = 19" "pointers_ok (dmem idle_machine)"
    by (simp_all add: idle_machine_def push_instruction_def make_instruction_memory_def
        contents_def)
  then show ?thesis using simulate_keeps [OF t] t by auto
qed

end
