(* ===== verification/Data_Reader.thy ===== *)
theory Data_Reader
  imports Numbers Memory
begin

text \<open>
  The reader of data files (\<open>sim/aslib/data_reader.cpp\<close>): each line is an address and a value
  separated by a colon. Also the splitting of a file into lines (\<open>get_lines\<close> of
  \<open>sim/aslib/common.hpp\<close>). The contents of the file are given; opening it is left to the driver.
\<close>

section \<open>Lines\<close>

text \<open>\<open>std::getline\<close> until it fails: a last line without a newline counts, unless it is empty.\<close>

fun getline :: "string \<Rightarrow> string \<times> string" where
  "getline [] = ([], [])"
| "getline (c # cs) =
     (if c = CHR 0x0A then ([], cs) else (let (l, rest) = getline cs in (c # l, rest)))"

lemma getline_shorter: "length (snd (getline cs)) \<le> length cs"
  by (induction cs) (auto split: prod.splits)

function get_lines :: "string \<Rightarrow> string list" where
  "get_lines [] = []"
| "get_lines (c # cs) = (let (l, rest) = getline (c # cs) in l # get_lines rest)"
  by pat_completeness auto
termination
proof (relation "measure length", goal_cases)
  case (2 c cs x l rest)
  with getline_shorter [of cs] show ?case by (auto split: if_splits prod.splits)
qed simp

lemma getline_newline [simp]: "CHR 0x0A \<notin> set xs \<Longrightarrow> getline (xs @ CHR 0x0A # ys) = (xs, ys)"
  by (induction xs) auto

lemma getline_last [simp]: "CHR 0x0A \<notin> set xs \<Longrightarrow> getline xs = (xs, [])"
  by (induction xs) auto

lemma get_lines_newline:
  "CHR 0x0A \<notin> set xs \<Longrightarrow> get_lines (xs @ CHR 0x0A # ys) = xs # get_lines ys"
  by (cases xs) auto

lemma get_lines_last: "CHR 0x0A \<notin> set xs \<Longrightarrow> xs \<noteq> [] \<Longrightarrow> get_lines xs = [xs]"
  by (cases xs) auto

text \<open>Lines written one after the other are read back, whether or not the last one ends in a
  newline.\<close>

lemma get_lines_written:
  assumes "\<forall>l \<in> set ls. CHR 0x0A \<notin> set l" "CHR 0x0A \<notin> set l"
  shows "get_lines (concat (map (\<lambda>l. l @ [CHR 0x0A]) ls) @ l) = ls @ (if l = [] then [] else [l])"
  using assms(1) by (induction ls) (auto simp: get_lines_newline get_lines_last assms(2))

section \<open>The reader\<close>

text \<open>\<open>line.find(':')\<close>, with \<open>npos\<close> as \<open>None\<close>.\<close>

fun find_char :: "char \<Rightarrow> string \<Rightarrow> nat option" where
  "find_char c [] = None"
| "find_char c (d # ds) = (if d = c then Some 0 else map_option Suc (find_char c ds))"

definition parse_data_line :: "string \<Rightarrow> (idata \<times> idata) option" where
  "parse_data_line src =
     (let src = trim_line src
      in case find_char (CHR '':'') src of
           None \<Rightarrow> None
         | Some pos \<Rightarrow>
             (let left = trim_line (take pos src);
                  right = trim_line (drop (pos + 1) src)
              in case parse_num left of
                   (Inl e, _) \<Rightarrow> None
                 | (Inr address, _) \<Rightarrow>
                     (case parse_num right of
                        (Inl e, _) \<Rightarrow> None
                      | (Inr v, _) \<Rightarrow> Some (address, v))))"

text \<open>The first line that does not parse is the error.\<close>

fun read_data_lines :: "string list \<Rightarrow> container \<Rightarrow> string + container" where
  "read_data_lines [] m = Inr m"
| "read_data_lines (src # srcs) m =
     (case parse_data_line src of
        None \<Rightarrow> Inl (''Failed to parse line: '' @ quoted src)
      | Some (address, v) \<Rightarrow> read_data_lines srcs (Mapping.update address v m))"

definition read_data :: "string list \<Rightarrow> string + container" where
  "read_data srcs = read_data_lines srcs Mapping.empty"

section \<open>What it accepts\<close>

lemma find_char_append: "c \<notin> set xs \<Longrightarrow> find_char c (xs @ c # ys) = Some (length xs)"
  by (induction xs) auto

lemma trim_line_padded:
  assumes "list_all is_whitespace xs" "list_all is_whitespace ys"
    and "zs \<noteq> []" "\<not> is_whitespace (hd zs)" "\<not> is_whitespace (last zs)"
  shows "trim_line (xs @ zs @ ys) = zs"
proof -
  have "dropWhile is_whitespace (xs @ zs @ ys) = zs @ ys"
    using assms(1,3,4) by (subst dropWhile_append2) (auto simp: list_all_iff neq_Nil_conv)
  moreover have "dropWhile is_whitespace (rev ys @ rev zs) = rev zs"
    using assms(2,3,5) by (subst dropWhile_append2)
      (auto simp: list_all_iff hd_rev [symmetric] dropWhile_eq_self_iff)
  ultimately show ?thesis by (simp add: trim_line_def)
qed

lemma show_int_nonempty [simp]: "show_int n \<noteq> []" "[] \<noteq> show_int n"
  by (simp_all add: show_int_def show_digits.simps [of n] show_digits.simps [of "- n"])

lemma show_int_chars:
  assumes "c \<in> set (show_int n)"
  shows "\<not> is_whitespace c \<and> c \<noteq> CHR '':''"
proof -
  have digit: "\<not> is_whitespace c \<and> c \<noteq> CHR '':''" if c: "c \<in> set (show_digits m)" "0 \<le> m" for m
  proof -
    obtain d where d: "d \<in> {0..<10}" "c = digit_char d"
      using show_digits_chars [OF c(2,1)] by blast
    then have "48 \<le> ord c" "ord c < 58" by (auto simp: ord_digit_char)
    then show ?thesis by (auto simp: is_whitespace_def ord_def)
  qed
  show ?thesis
    using assms digit [of n] digit [of "- n"]
    by (auto simp: show_int_def is_whitespace_def split: if_splits)
qed

lemma show_int_ends [simp]:
  "\<not> is_whitespace (hd (show_int n))" "\<not> is_whitespace (last (show_int n))"
  using show_int_chars [of "hd (show_int n)" n] show_int_chars [of "last (show_int n)" n] by simp_all

lemma trim_line_show_int:
  "list_all is_whitespace xs \<Longrightarrow> list_all is_whitespace ys \<Longrightarrow> trim_line (xs @ show_int n @ ys) = show_int n"
  by (intro trim_line_padded) (simp_all add: show_int_chars)

lemma colon_not_blank: "\<not> is_whitespace (CHR '':'')"
  by (simp add: is_whitespace_def)

text \<open>C19. A line with two printed numbers of magnitude below 2^31, with any white space around the
  numbers and the colon, is read back as these numbers.\<close>

theorem parse_data_line_show:
  assumes "\<bar>a\<bar> < 2 ^ 31" "\<bar>v\<bar> < 2 ^ 31"
    and ws: "list_all is_whitespace s1" "list_all is_whitespace s2" "list_all is_whitespace s3"
      "list_all is_whitespace s4"
  shows "parse_data_line (s1 @ show_int a @ s2 @ '':'' @ s3 @ show_int v @ s4) =
    Some (word_of_int a, word_of_int v)"
proof -
  let ?z = "show_int a @ s2 @ '':'' @ s3 @ show_int v"
  have "trim_line (s1 @ ?z @ s4) = ?z"
    using ws by (intro trim_line_padded) (simp_all add: show_int_chars)
  then have line: "trim_line (s1 @ show_int a @ s2 @ '':'' @ s3 @ show_int v @ s4) = ?z" by simp
  have "CHR '':'' \<notin> set (show_int a @ s2)"
    using ws(2) show_int_chars [of "CHR '':''" a] colon_not_blank by (auto simp: list_all_iff)
  then have pos: "find_char (CHR '':'') ?z = Some (length (show_int a @ s2))"
    using find_char_append [of "CHR '':''" "show_int a @ s2" "s3 @ show_int v"] by simp
  have "trim_line (take (length (show_int a @ s2)) ?z) = show_int a"
    using trim_line_show_int [of "[]" s2 a] ws by simp
  moreover have "trim_line (drop (length (show_int a @ s2) + 1) ?z) = show_int v"
    using trim_line_show_int [of s3 "[]" v] ws by simp
  moreover have "parse_num (show_int n) = (Inr (word_of_int n), [])" if "\<bar>n\<bar> < 2 ^ 31" for n
    using parse_num_show [OF that, of "[]"] by (simp add: ends_literal_def)
  ultimately show ?thesis
    using assms(1,2) unfolding parse_data_line_def line Let_def pos
    by (simp only: option.case prod.case sum.case)
qed

theorem parse_data_line_show_witness:
  "parse_data_line (''  '' @ show_int 16 @ '' '' @ '':'' @ [] @ show_int (- 5) @ [CHR 0x0A]) = Some (16, - 5)"
  using parse_data_line_show [of 16 "- 5" "''  ''" "'' ''" "[]" "[CHR 0x0A]"]
  by (simp add: is_whitespace_def)

lemma read_data_lines_result:
  "case read_data_lines srcs m of
     Inr m' \<Rightarrow> (\<exists>kvs. map parse_data_line srcs = map Some kvs \<and>
        contents m' = fold (\<lambda>(a, v) g. g(a := v)) kvs (contents m))
   | Inl msg \<Rightarrow> (\<exists>k < length srcs. parse_data_line (srcs ! k) = None \<and>
        list_all (\<lambda>src. parse_data_line src \<noteq> None) (take k srcs) \<and>
        msg = ''Failed to parse line: '' @ quoted (srcs ! k))"
proof (induction srcs arbitrary: m)
  case (Cons src srcs)
  show ?case
  proof (cases "parse_data_line src")
    case (Some kv)
    obtain a v where kv: "kv = (a, v)" by force
    show ?thesis
    proof (cases "read_data_lines srcs (Mapping.update a v m)")
      case (Inl msg)
      then show ?thesis using Cons [of "Mapping.update a v m"] Some kv by (simp add: Ex_less_Suc2)
    next
      case (Inr m')
      then obtain kvs where "map parse_data_line srcs = map Some kvs"
          "contents m' = fold (\<lambda>(a, v) g. g(a := v)) kvs ((contents m)(a := v))"
        using Cons [of "Mapping.update a v m"] by (auto simp: store.get_put)
      then show ?thesis using Some kv Inr by (auto intro!: exI [of _ "kv # kvs"])
    qed
  qed (simp add: Ex_less_Suc2)
qed simp


end
