(* ===== verification/Driver.thy ===== *)
theory Driver
  imports Emitter Data_Reader
begin

text \<open>
  The simulator's \<open>main\<close> (\<open>sim/main.cpp\<close>). The file system is a parameter that gives the
  contents of a file that can be opened; so is the hardware, and the order in which the entries of a
  \<open>std::unordered_map\<close> come. The program ends with an exit code and the lines on the standard
  output, or abnormally (a failed assertion, an uncaught exception, a null pointer), or not at all.
\<close>

datatype ending = Exit int "string list" | Abnormal | Hangs

definition load_code :: "idata list \<Rightarrow> instruction_memory \<Rightarrow> instruction_memory" where
  "load_code code mem =
     mem\<lparr>imemory := fold (\<lambda>i. Mapping.update (of_nat i) (code ! i)) [0..<length code] (imemory mem)\<rparr>"

definition num_channels :: nat where
  "num_channels = 8"

text \<open>The machine \<open>main\<close> builds for a parsed program, its code and the optional data.\<close>

definition build_machine ::
    "'h vgpu \<Rightarrow> program \<Rightarrow> idata list \<Rightarrow> container option \<Rightarrow> 'h machine" where
  "build_machine gpu p code data =
     \<lparr>dut = set_kernel_config 0 0 (blocks p) (warps p) gpu,
      imem = load_code code make_instruction_memory,
      dmem = (case data of
                Some d \<Rightarrow> make_data_memory\<lparr>dmemory := d\<rparr>
              | None \<Rightarrow> make_data_memory)\<rparr>"

type_synonym map_order = "(string \<rightharpoonup> idata) \<Rightarrow> (string \<times> idata) list"

text \<open>The report of the parsed program; the numbers in front are three characters wide.\<close>

definition width3 :: "string \<Rightarrow> string" where
  "width3 s = replicate (3 - length s) CHR '' '' @ s"

definition report :: "map_order \<Rightarrow> program \<Rightarrow> string list" where
  "report order p =
     [[], ''Succesfully parsed the entire file.'',
      ''Warps: '' @ show_idata (warps p) @ '', Blocks: '' @ show_idata (blocks p),
      ''Parsed '' @ show_int (int (length (instructions p))) @ '' instructions:''] @
     map (\<lambda>(i, instr). width3 (show_idata (of_nat i)) @ '': '' @ instruction_to_str instr)
       (enumerate 0 (instructions p)) @
     [''Labels:''] @
     map (\<lambda>(i, l, n). width3 (show_idata (of_nat i)) @ '': '' @ l @ '': '' @ show_idata n)
       (enumerate 0 (order (label_mappings p)))"

definition not_done :: string where
  "not_done = ''Simulation didn'' @ [CHR 0x27] @ ''t finish before the max operation limit!''"

definition usage :: "string \<Rightarrow> string" where
  "usage prog = ''Usage: '' @ prog @ '' <input file> [data file]''"

definition run_program ::
    "map_order \<Rightarrow> ('h vgpu \<Rightarrow> 'h vgpu) \<Rightarrow> 'h vgpu \<Rightarrow> container option \<Rightarrow> program \<Rightarrow> ending" where
  "run_program order eval gpu data p =
     (case translate_to_binary p of
        Inl e \<Rightarrow> Abnormal
      | Inr code \<Rightarrow>
          (case simulate eval num_channels 200 (build_machine gpu p code data) of
             None \<Rightarrow> Abnormal
           | Some (False, s) \<Rightarrow> Exit 1 (report order p @ [not_done])
           | Some (True, s) \<Rightarrow> Exit 0 (report order p @ print_memory 100 (dmem s))))"

definition run_source ::
    "map_order \<Rightarrow> ('h vgpu \<Rightarrow> 'h vgpu) \<Rightarrow> 'h vgpu \<Rightarrow> container option \<Rightarrow> string list \<Rightarrow> ending" where
  "run_source order eval gpu data srcs =
     (case parse_program srcs of
        Diverges \<Rightarrow> Hangs
      | Throws c \<Rightarrow> Abnormal
      | Done (Inl es) \<Rightarrow> if es = [] then Exit 1 [] else Abnormal
      | Done (Inr p) \<Rightarrow> run_program order eval gpu data p)"

definition open_file :: "(string \<Rightarrow> string option) \<Rightarrow> string \<Rightarrow> string + string" where
  "open_file files path =
     (case files path of None \<Rightarrow> Inl (''Failed to open file: '' @ path) | Some txts \<Rightarrow> Inr txts)"

text \<open>The error goes to the error stream, and the program exits.\<close>

definition unwrap :: "'e + 'a \<Rightarrow> ending + 'a" where
  "unwrap expected = (case expected of Inl e \<Rightarrow> Inl (Exit 1 []) | Inr x \<Rightarrow> Inr x)"

definition run_input ::
    "(string \<Rightarrow> string option) \<Rightarrow> map_order \<Rightarrow> ('h vgpu \<Rightarrow> 'h vgpu) \<Rightarrow> 'h vgpu \<Rightarrow> string \<Rightarrow>
     container option \<Rightarrow> ending" where
  "run_input files order eval gpu input_filename data =
     (case unwrap (open_file files input_filename) of
        Inl ending \<Rightarrow> ending
      | Inr input_file \<Rightarrow> run_source order eval gpu data (get_lines input_file))"

definition main ::
    "(string \<Rightarrow> string option) \<Rightarrow> map_order \<Rightarrow> ('h vgpu \<Rightarrow> 'h vgpu) \<Rightarrow> 'h vgpu \<Rightarrow> string list \<Rightarrow> ending" where
  "main files order eval gpu argv =
     (if length argv < 2 \<or> length argv > 3 then
        (case argv of [] \<Rightarrow> Abnormal | prog # _ \<Rightarrow> Exit 1 [usage prog])
      else if length argv = 3 then
        (case open_file files (argv ! 2) of
           Inl e \<Rightarrow> Exit 1 []
         | Inr data_file \<Rightarrow>
             (case read_data (get_lines data_file) of
                Inl e \<Rightarrow> Exit 1 []
              | Inr d \<Rightarrow> run_input files order eval gpu (argv ! 1) (Some d)))
      else run_input files order eval gpu (argv ! 1) None)"

section \<open>Loading\<close>

lemma load_code_contents:
  assumes "length code \<le> 2 ^ 32"
  shows "contents (imemory (load_code code make_instruction_memory)) a =
    (if unat a < length code then code ! unat a else 0)"
  using store.get_numbered [OF assms, of code Mapping.empty a]
  by (simp add: load_code_def make_instruction_memory_def)

text \<open>The instruction memory \<open>main\<close> builds holds the machine code from address 0 on and
  zeros after it.\<close>

theorem build_machine_code:
  assumes "length code \<le> 2 ^ 32"
  shows "contents (imemory (imem (build_machine gpu p code data))) a =
    (if unat a < length code then code ! unat a else 0)"
  using load_code_contents [OF assms] by (simp add: build_machine_def)

theorem build_machine_code_witness:
  "contents (imemory (imem (build_machine idle_gpu (program_of []) [19, 127] None))) 1 = 127"
  using build_machine_code [of "[19, 127]" idle_gpu "program_of []" None 1] by simp

section \<open>Endings\<close>

text \<open>The data file, where there is one, is read before anything else.\<close>

definition file_lines :: "(string \<Rightarrow> string option) \<Rightarrow> string \<Rightarrow> string list option" where
  "file_lines files path = map_option get_lines (files path)"

definition data_given :: "(string \<Rightarrow> string option) \<Rightarrow> string list \<Rightarrow> container option \<Rightarrow> bool" where
  "data_given files argv data \<longleftrightarrow>
     length argv = 2 \<and> data = None \<or>
     length argv = 3 \<and> (\<exists>lns d. file_lines files (argv ! 2) = Some lns \<and> read_data lns = Inr d \<and> data = Some d)"

lemma main_cases:
  "(\<exists>data. data_given files argv data \<and> main files order eval gpu argv = run_input files order eval gpu (argv ! 1) data) \<or>
   (\<nexists>data. data_given files argv data) \<and>
     (main files order eval gpu argv = Abnormal \<or> (\<exists>out. main files order eval gpu argv = Exit 1 out))"
  by (auto simp: main_def data_given_def open_file_def file_lines_def split: option.splits sum.splits list.splits)

lemma data_given_unique: "data_given files argv d \<Longrightarrow> data_given files argv d' \<Longrightarrow> d = d'"
  by (auto simp: data_given_def)

lemma main_eq_iff:
  assumes "e \<noteq> Abnormal" "\<forall>out. e \<noteq> Exit 1 out"
  shows "main files order eval gpu argv = e \<longleftrightarrow>
    (\<exists>data srcs. data_given files argv data \<and> file_lines files (argv ! 1) = Some srcs \<and>
       run_source order eval gpu data srcs = e)"
  using main_cases [of files argv order eval gpu] assms data_given_unique [of files argv]
  by (auto simp: run_input_def unwrap_def open_file_def file_lines_def split: option.splits)

text \<open>C17. The simulator hangs exactly when it gets as far as reading the source and some line of it
  makes the lexer loop; the hardware cannot keep it from ending.\<close>

theorem main_hangs_iff:
  "main files order eval gpu argv = Hangs \<longleftrightarrow>
     (\<exists>data srcs. data_given files argv data \<and> file_lines files (argv ! 1) = Some srcs \<and>
        list_ex (\<lambda>src. collect_tokens src = None) srcs)"
proof -
  have "run_source order eval gpu data srcs = Hangs \<longleftrightarrow> list_ex (\<lambda>src. collect_tokens src = None) srcs"
    for data srcs
    using parse_program_total [of srcs]
    by (auto simp: run_source_def run_program_def
        split: run.splits sum.splits option.splits bool.splits)
  then show ?thesis by (simp add: main_eq_iff)
qed

text \<open>C4. The exit code 0 means what it should: the source consists of well-formed lines, the machine
  code is the encoding of the program they describe, the machine started with that code at address 0,
  the blocks and warps of the program and the data of the file, and the hardware was done within 200
  cycles; what is printed is the report on
  the program and the data memory at that point. And whenever this is so, the exit code
  is 0.\<close>

theorem main_succeeds_iff:
  "main files order eval gpu argv = Exit 0 out \<longleftrightarrow>
     (\<exists>data srcs lns code t.
        data_given files argv data \<and> file_lines files (argv ! 1) = Some srcs \<and>
        read_lines srcs = Some lns \<and> well_formed_lines lns \<and>
        list_all2 (\<lambda>i. instruction_word (program_of lns) (name (instr_mnemonic i)) (operands i))
          (instructions_of lns) code \<and>
        simulate eval 8 200 (build_machine gpu (program_of lns) code data) = Some (True, t) \<and>
        out = report order (program_of lns) @ print_memory 100 (dmem t))"
proof -
  have "run_source order eval gpu data srcs = Exit 0 out \<longleftrightarrow>
      (\<exists>p code t. parse_program srcs = Done (Inr p) \<and> translate_to_binary p = Inr code \<and>
         simulate eval 8 200 (build_machine gpu p code data) = Some (True, t) \<and>
         out = report order p @ print_memory 100 (dmem t))" for data srcs
    by (auto simp: run_source_def run_program_def num_channels_def
        split: run.splits sum.splits option.splits bool.splits if_splits)
  moreover have "instructions (program_of lns) = instructions_of lns" for lns
    by (simp add: program_of_def)
  ultimately show ?thesis
    by (auto simp: main_eq_iff parse_program_Inr_iff translate_to_binary_Inr_iff) blast+
qed

end
