(* ===== verification/Decoder.thy ===== *)
theory Decoder
  imports Emitter
begin

text \<open>
  The instruction decoder of the hardware (\<open>src/decoder.sv\<close>, with the types and functions of
  \<open>src/common/common.sv\<close>), which is what the emitted machine code is for. Wires narrower than 32
  bits are words with the upper bits zero. The decoder's outputs are registers: a clock edge sets
  them all, and an invalid encoding leaves the ALU instruction at its default.
\<close>

section \<open>The decoder\<close>

datatype alu_instruction =
    Alu_ADDI | Alu_SLTI | Alu_XORI | Alu_ORI | Alu_ANDI | Alu_SLLI | Alu_SRLI | Alu_SRAI
  | Alu_ADD | Alu_SUB | Alu_SLL | Alu_SLT | Alu_XOR | Alu_SRL | Alu_SRA | Alu_OR | Alu_AND
  | Alu_BEQ | Alu_BNE | Alu_BLT | Alu_BGE | Alu_JAL | Alu_JALR

datatype warp_state =
    Warp_IDLE | Warp_FETCH | Warp_DECODE | Warp_REQUEST | Warp_WAIT | Warp_EXECUTE | Warp_UPDATE
  | Warp_DONE

datatype reg_input_mux = Mux_ALU_OUT | Mux_LSU_OUT | Mux_IMMEDIATE | Mux_PC_PLUS_1 | Mux_VECTOR_TO_SCALAR

record decoded =
  reg_write_enable :: bool
  mem_write_enable :: bool
  mem_read_enable :: bool
  branch :: bool
  input_mux :: reg_input_mux
  scalar_instruction :: bool
  immediate :: idata
  rd_address :: idata
  rs1_address :: idata
  rs2_address :: idata
  alu :: alu_instruction
  halted :: bool

definition sign_extend :: "idata \<Rightarrow> idata" where
  "sign_extend imm12 = (if bit imm12 11 then 0xFFFFF000 OR imm12 else imm12)"

definition sign_extend_13 :: "idata \<Rightarrow> idata" where
  "sign_extend_13 imm13 = (if bit imm13 12 then 0xFFFFE000 OR imm13 else imm13)"

definition sign_extend_21 :: "idata \<Rightarrow> idata" where
  "sign_extend_21 imm21 = (if bit imm21 20 then 0xFFE00000 OR imm21 else imm21)"

definition reset_outputs :: decoded where
  "reset_outputs =
     \<lparr>reg_write_enable = False, mem_write_enable = False, mem_read_enable = False, branch = False,
      input_mux = Mux_ALU_OUT, scalar_instruction = False, immediate = 0, rd_address = 0,
      rs1_address = 0, rs2_address = 0, alu = Alu_ADDI, halted = False\<rparr>"

text \<open>The wires.\<close>

definition imm_s :: "idata \<Rightarrow> idata" where
  "imm_s w = push_bit 5 (field 25 7 w) OR field 7 5 w"

definition imm_b :: "idata \<Rightarrow> idata" where
  "imm_b w = push_bit 12 (field 31 1 w) OR push_bit 11 (field 7 1 w) OR push_bit 5 (field 25 6 w)
     OR push_bit 1 (field 8 4 w)"

definition imm_j :: "idata \<Rightarrow> idata" where
  "imm_j w = push_bit 20 (field 31 1 w) OR push_bit 12 (field 12 8 w) OR push_bit 11 (field 20 1 w)
     OR push_bit 1 (field 21 10 w)"

definition alu_of_branch :: "idata \<Rightarrow> alu_instruction" where
  "alu_of_branch f3 =
     (if f3 = 0 then Alu_BEQ else if f3 = 1 then Alu_BNE else if f3 = 4 then Alu_BLT
      else if f3 = 5 then Alu_BGE else Alu_ADDI)"

definition alu_of_rtype :: "idata \<Rightarrow> idata \<Rightarrow> alu_instruction" where
  "alu_of_rtype f3 f7 =
     (if f3 = 0 then (if f7 = 0 then Alu_ADD else if f7 = 0x20 then Alu_SUB else Alu_ADDI)
      else if f3 = 1 then Alu_SLL
      else if f3 = 2 then Alu_SLT
      else if f3 = 4 then Alu_XOR
      else if f3 = 5 then (if f7 = 0 then Alu_SRL else if f7 = 0x20 then Alu_SRA else Alu_ADDI)
      else if f3 = 6 then Alu_OR
      else if f3 = 7 then Alu_AND
      else Alu_ADDI)"

definition alu_of_itype :: "idata \<Rightarrow> idata \<Rightarrow> alu_instruction" where
  "alu_of_itype f3 f7 =
     (if f3 = 0 then Alu_ADDI
      else if f3 = 2 then Alu_SLTI
      else if f3 = 4 then Alu_XORI
      else if f3 = 6 then Alu_ORI
      else if f3 = 7 then Alu_ANDI
      else if f3 = 1 then Alu_SLLI
      else if f3 = 5 then (if f7 = 0 then Alu_SRLI else if f7 = 0x20 then Alu_SRAI else Alu_ADDI)
      else Alu_ADDI)"

definition decode :: "idata \<Rightarrow> decoded" where
  "decode w =
     (let opcode = field 0 7 w; inst = field 0 6 w; rd = field 7 5 w; f3 = field 12 3 w;
          rs1 = field 15 5 w; rs2 = field 20 5 w; f7 = field 25 7 w; imm_i = field 20 12 w;
          imm_u = field 12 20 w;
          d = reset_outputs\<lparr>scalar_instruction := bit w 6\<rparr>
      in if opcode = 0x7F then d\<lparr>halted := True\<rparr>
         else if opcode = 0x7E then
           d\<lparr>scalar_instruction := False, rd_address := rd, rs1_address := rs1, rs2_address := rs2,
             reg_write_enable := True, input_mux := Mux_VECTOR_TO_SCALAR, alu := Alu_SLT\<rparr>
         else if opcode = 0x7D then
           d\<lparr>scalar_instruction := False, rd_address := rd, rs1_address := rs1,
             immediate := sign_extend imm_i,
             reg_write_enable := True, input_mux := Mux_VECTOR_TO_SCALAR, alu := Alu_SLTI\<rparr>
         else if opcode = 0x63 then
           d\<lparr>rs1_address := rs1, rs2_address := rs2, immediate := sign_extend_13 (imm_b w),
             branch := True, alu := alu_of_branch f3\<rparr>
         else if opcode = 0x6F then
           d\<lparr>rd_address := rd, reg_write_enable := True, input_mux := Mux_PC_PLUS_1,
             scalar_instruction := True, alu := Alu_JAL, immediate := sign_extend_21 (imm_j w)\<rparr>
         else if opcode = 0x67 then
           d\<lparr>rd_address := rd, rs1_address := rs1, reg_write_enable := True,
             input_mux := Mux_PC_PLUS_1, scalar_instruction := True, alu := Alu_JALR,
             immediate := sign_extend imm_i\<rparr>
         else if inst = 0x33 then
           d\<lparr>rd_address := rd, rs1_address := rs1, rs2_address := rs2, reg_write_enable := True,
             input_mux := Mux_ALU_OUT, alu := alu_of_rtype f3 f7\<rparr>
         else if inst = 0x13 then
           d\<lparr>rd_address := rd, rs1_address := rs1, reg_write_enable := True,
             input_mux := Mux_ALU_OUT, immediate := sign_extend imm_i, alu := alu_of_itype f3 f7\<rparr>
         else if inst = 0x03 then
           d\<lparr>rd_address := rd, rs1_address := rs1, reg_write_enable := True,
             input_mux := Mux_LSU_OUT, immediate := sign_extend imm_i, mem_read_enable := True,
             alu := Alu_ADDI\<rparr>
         else if inst = 0x23 then
           d\<lparr>rs1_address := rs1, rs2_address := rs2, immediate := sign_extend (imm_s w),
             mem_write_enable := True, alu := Alu_ADDI\<rparr>
         else if inst = 0x37 then
           d\<lparr>rd_address := rd, immediate := push_bit 12 imm_u, reg_write_enable := True,
             input_mux := Mux_IMMEDIATE\<rparr>
         else if inst = 0x17 then
           d\<lparr>rd_address := rd, immediate := push_bit 12 imm_u, reg_write_enable := True,
             alu := Alu_ADD\<rparr>
         else d)"

text \<open>A rising edge of the clock.\<close>

definition decoder_posedge :: "bool \<Rightarrow> warp_state \<Rightarrow> idata \<Rightarrow> decoded \<Rightarrow> decoded" where
  "decoder_posedge reset state w out =
     (if reset then reset_outputs else if state = Warp_DECODE then decode w else out)"

section \<open>What an instruction is meant to be decoded as\<close>

fun intended_alu :: "mnemonic_name \<Rightarrow> alu_instruction" where
  "intended_alu Mn_SLTI = Alu_SLTI"
| "intended_alu Mn_XORI = Alu_XORI"
| "intended_alu Mn_ORI = Alu_ORI"
| "intended_alu Mn_ANDI = Alu_ANDI"
| "intended_alu Mn_SLLI = Alu_SLLI"
| "intended_alu Mn_SRLI = Alu_SRLI"
| "intended_alu Mn_SRAI = Alu_SRAI"
| "intended_alu Mn_ADD = Alu_ADD"
| "intended_alu Mn_SUB = Alu_SUB"
| "intended_alu Mn_SLL = Alu_SLL"
| "intended_alu Mn_SLT = Alu_SLT"
| "intended_alu Mn_XOR = Alu_XOR"
| "intended_alu Mn_SRL = Alu_SRL"
| "intended_alu Mn_SRA = Alu_SRA"
| "intended_alu Mn_OR = Alu_OR"
| "intended_alu Mn_AND = Alu_AND"
| "intended_alu Mn_AUIPC = Alu_ADD"
| "intended_alu Mn_JAL = Alu_JAL"
| "intended_alu Mn_JALR = Alu_JALR"
| "intended_alu Mn_SX_SLT = Alu_SLT"
| "intended_alu Mn_SX_SLTI = Alu_SLTI"
| "intended_alu _ = Alu_ADDI"

definition intended_mux :: "mnemonic_name \<Rightarrow> reg_input_mux" where
  "intended_mux n =
     (if is_load_type n then Mux_LSU_OUT
      else if n = Mn_LUI then Mux_IMMEDIATE
      else if n = Mn_JAL \<or> n = Mn_JALR then Mux_PC_PLUS_1
      else if n = Mn_SX_SLT \<or> n = Mn_SX_SLTI then Mux_VECTOR_TO_SCALAR
      else Mux_ALU_OUT)"

text \<open>The scalar file is used by \<open>s.\<close> instructions, jumps and \<open>halt\<close>; the two vector-scalar
  instructions are executed by the vector lanes.\<close>

definition intended_scalar :: "mnemonic \<Rightarrow> bool" where
  "intended_scalar m \<longleftrightarrow>
     name m \<noteq> Mn_SX_SLT \<and> name m \<noteq> Mn_SX_SLTI \<and>
     (has_s_prefix m \<or> name m \<in> {Mn_JAL, Mn_JALR, Mn_HALT})"

fun intended :: "program \<Rightarrow> mnemonic \<Rightarrow> operands \<Rightarrow> decoded" where
  "intended p m (ItypeOperands rd rs1 imm12) =
     (if name m = Mn_HALT
      then reset_outputs\<lparr>scalar_instruction := True, halted := True\<rparr>
      else reset_outputs\<lparr>reg_write_enable := True, mem_read_enable := is_load_type (name m),
        input_mux := intended_mux (name m), scalar_instruction := intended_scalar m,
        immediate := sign_extend imm12, rd_address := register_number rd,
        rs1_address := register_number rs1, alu := intended_alu (name m)\<rparr>)"
| "intended p m (RtypeOperands rd rs1 rs2) =
     reset_outputs\<lparr>reg_write_enable := True, input_mux := intended_mux (name m),
       scalar_instruction := intended_scalar m, rd_address := register_number rd,
       rs1_address := register_number rs1, rs2_address := register_number rs2,
       alu := intended_alu (name m)\<rparr>"
| "intended p m (StypeOperands rs1 rs2 imm12) =
     reset_outputs\<lparr>mem_write_enable := True, scalar_instruction := intended_scalar m,
       immediate := sign_extend imm12, rs1_address := register_number rs1,
       rs2_address := register_number rs2\<rparr>"
| "intended p m (UtypeOperands rd imm20) =
     reset_outputs\<lparr>reg_write_enable := True, input_mux := intended_mux (name m),
       scalar_instruction := intended_scalar m, immediate := push_bit 12 imm20,
       rd_address := register_number rd, alu := intended_alu (name m)\<rparr>"
| "intended p m (JtypeOperands rd imm21) =
     reset_outputs\<lparr>reg_write_enable := True, input_mux := Mux_PC_PLUS_1, scalar_instruction := True,
       immediate := sign_extend_21 imm21, rd_address := register_number rd, alu := Alu_JAL\<rparr>"
| "intended p m (JalrOperands rd rs1 target) =
     reset_outputs\<lparr>reg_write_enable := True, input_mux := Mux_PC_PLUS_1, scalar_instruction := True,
       immediate := sign_extend (case target of Imm imm \<Rightarrow> imm | LabelRef l \<Rightarrow> the (label_mappings p l)),
       rd_address := register_number rd, rs1_address := register_number rs1, alu := Alu_JALR\<rparr>"

text \<open>When the encoding gets through to the decoder.\<close>

fun encoding_faithful :: "mnemonic \<Rightarrow> operands \<Rightarrow> bool" where
  "encoding_faithful m (ItypeOperands rd rs1 imm12) \<longleftrightarrow>
     (name m = Mn_HALT \<or> name m = Mn_SX_SLTI \<or> \<not> has_s_prefix m) \<and>
     (name m = Mn_SRLI \<longrightarrow> field 5 7 imm12 = 0) \<and> (name m = Mn_SRAI \<longrightarrow> field 5 7 imm12 = 0x20)"
| "encoding_faithful m (RtypeOperands rd rs1 rs2) \<longleftrightarrow> name m = Mn_SX_SLT \<or> \<not> has_s_prefix m"
| "encoding_faithful m (StypeOperands rs1 rs2 imm12) \<longleftrightarrow> \<not> has_s_prefix m \<and> field 0 5 imm12 = 0"
| "encoding_faithful m (UtypeOperands rd imm20) \<longleftrightarrow> \<not> has_s_prefix m"
| "encoding_faithful m (JtypeOperands rd imm21) \<longleftrightarrow> \<not> bit imm21 0"
| "encoding_faithful m (JalrOperands rd rs1 target) \<longleftrightarrow> True"

section \<open>The decoder on emitted words\<close>

lemma opcode_views:
  assumes "field 0 7 w = opcode_bits opc"
  shows "field 0 6 w = take_bit 6 (opcode_bits opc)" "bit w 6 \<longleftrightarrow> bit (opcode_bits opc) 6"
proof -
  show "field 0 6 w = take_bit 6 (opcode_bits opc)"
    unfolding assms [symmetric] by (rule bit_word_eqI) (auto simp: bit_simps)
  show "bit w 6 \<longleftrightarrow> bit (opcode_bits opc) 6"
    unfolding assms [symmetric] by (simp add: bit_simps)
qed

lemma high_immediate: "field 25 7 w = field 5 7 (field 20 12 w)" "field 20 5 w = take_bit 5 (field 20 12 w)"
  by (rule bit_word_eqI; auto simp: bit_simps)+

lemmas decoded_as = decode_def Let_def alu_of_rtype_def alu_of_itype_def intended_mux_def
  intended_scalar_def is_load_type_def is_store_type_def is_rtype_def is_utype_def
  is_itype_arithmetic_def reset_outputs_def register_bits_def

lemma decode_rtype:
  assumes "rtype_word (det_opcode (name_to_determinant (name m))) (det_funct3 (name_to_determinant (name m)))
      (det_funct7 (name_to_determinant (name m))) rd rs1 rs2 w"
    and "operands_ok m (RtypeOperands rd rs1 rs2)"
  shows "decode w = intended p m (RtypeOperands rd rs1 rs2) \<longleftrightarrow>
    encoding_faithful m (RtypeOperands rd rs1 rs2)"
proof -
  have "field 0 7 w = opcode_bits (det_opcode (name_to_determinant (name m)))"
    using assms(1) by (simp add: rtype_word_def)
  note opcode_views [OF this]
  with assms show ?thesis
    by (cases "name m") (simp_all add: decoded_as rtype_word_def)
qed

lemma decode_itype:
  assumes "itype_word (det_opcode (name_to_determinant (name m))) (det_funct3 (name_to_determinant (name m)))
      rd rs1 imm12 w"
    and "operands_ok m (ItypeOperands rd rs1 imm12)"
  shows "decode w = intended p m (ItypeOperands rd rs1 imm12) \<longleftrightarrow>
    encoding_faithful m (ItypeOperands rd rs1 imm12)"
proof -
  have "field 0 7 w = opcode_bits (det_opcode (name_to_determinant (name m)))"
    using assms(1) by (simp add: itype_word_def)
  note opcode_views [OF this]
  with assms show ?thesis
    by (cases "name m") (auto simp: decoded_as itype_word_def high_immediate(1) default_operands_def)
qed

lemma decode_utype:
  assumes "utype_word (det_opcode (name_to_determinant (name m))) rd imm20 w"
    and "operands_ok m (UtypeOperands rd imm20)"
  shows "decode w = intended p m (UtypeOperands rd imm20) \<longleftrightarrow>
    encoding_faithful m (UtypeOperands rd imm20)"
proof -
  have "field 0 7 w = opcode_bits (det_opcode (name_to_determinant (name m)))"
    using assms(1) by (simp add: utype_word_def)
  note opcode_views [OF this]
  with assms show ?thesis
    by (cases "name m") (simp_all add: decoded_as utype_word_def)
qed

lemma decode_jalr:
  assumes "itype_word Op_JALR F3_JALR rd rs1 imm12 w"
    and "name m = Mn_JALR"
  shows "decode w = intended p m (JalrOperands rd rs1 (Imm imm12))"
proof -
  have "field 0 7 w = opcode_bits Op_JALR"
    using assms(1) by (simp add: itype_word_def)
  note opcode_views [OF this]
  with assms show ?thesis
    by (simp add: decoded_as itype_word_def)
qed

lemma store_immediate:
  assumes "imm12 < 4096" "r < 32" "field 7 5 w = 0" "field 20 12 w = r OR imm12"
  shows "imm_s w = push_bit 5 (field 5 7 imm12)" "field 20 5 w = r OR field 0 5 imm12"
proof -
  have r: "take_bit 5 r = r"
    using assms(2) by (auto intro!: take_bit_unat_less simp: word_less_nat_alt)
  then have "\<not> bit r n" if "5 \<le> n" for n
    using that by (metis bit_take_bit_iff linorder_not_less)
  then have "field 5 7 r = 0" by (intro bit_word_eqI) (simp add: bit_field_iff)
  then show "imm_s w = push_bit 5 (field 5 7 imm12)"
    by (simp add: imm_s_def assms(3,4) high_immediate field_or)
  show "field 20 5 w = r OR field 0 5 imm12"
    unfolding high_immediate assms(4) using r by (simp add: field_def take_bit_or)
qed

lemma upper_part:
  assumes "x < 4096" "field 0 5 x = 0"
  shows "push_bit 5 (field 5 7 x) = x"
proof (rule bit_word_eqI)
  fix n assume n: "n < LENGTH(32)"
  have "take_bit 12 x = x"
    using assms(1) by (auto intro!: take_bit_unat_less simp: word_less_nat_alt)
  then have "bit x n \<Longrightarrow> n < 12" by (metis bit_take_bit_iff)
  moreover have "\<not> bit (field 0 5 x) n" by (simp add: assms(2))
  ultimately show "bit (push_bit 5 (field 5 7 x)) n = bit x n"
    using n by (auto simp: bit_push_bit_iff bit_field_iff)
qed

lemma sign_extend_low: "take_bit 5 (sign_extend y) = take_bit 5 y"
  by (simp add: sign_extend_def take_bit_or)

lemma sign_extend_upper_part:
  assumes "x < 4096"
  shows "sign_extend (push_bit 5 (field 5 7 x)) = sign_extend x \<longleftrightarrow> field 0 5 x = 0"
proof
  assume "sign_extend (push_bit 5 (field 5 7 x)) = sign_extend x"
  then have "take_bit 5 (sign_extend (push_bit 5 (field 5 7 x))) = take_bit 5 (sign_extend x)" by simp
  then show "field 0 5 x = 0" by (simp add: sign_extend_low field_def take_bit_push_bit)
qed (simp add: upper_part assms)

lemma decode_stype:
  assumes "stype_word (det_opcode (name_to_determinant (name m))) (det_funct3 (name_to_determinant (name m)))
      rs1 rs2 imm12 w"
    and "operands_ok m (StypeOperands rs1 rs2 imm12)"
  shows "decode w = intended p m (StypeOperands rs1 rs2 imm12) \<longleftrightarrow>
    encoding_faithful m (StypeOperands rs1 rs2 imm12)"
proof -
  have "field 0 7 w = opcode_bits (det_opcode (name_to_determinant (name m)))"
    using assms(1) by (simp add: stype_word_def)
  note views = opcode_views [OF this]
  have wd: "field 7 5 w = 0" "imm12 < 4096" "register_number rs2 < 32"
      "field 20 12 w = register_number rs2 OR imm12" "field 15 5 w = register_number rs1"
    using assms(1) by (simp_all add: stype_word_def validate_def register_bits_def)
  note imm = store_immediate [OF wd(2,3,1,4)]
  with views assms wd show ?thesis
    by (cases "name m") (auto simp: decoded_as stype_word_def sign_extend_upper_part)
qed

lemma jump_immediate:
  assumes "jtype_word opc rd imm21 w"
  shows "imm_j w = push_bit 1 (field 1 20 imm21)"
proof (rule bit_word_eqI)
  fix n assume "n < LENGTH(32)"
  have f: "bit (field 31 1 w) k = bit (field 20 1 imm21) k" "bit (field 21 10 w) k = bit (field 1 10 imm21) k"
      "bit (field 20 1 w) k = bit (field 11 1 imm21) k" "bit (field 12 8 w) k = bit (field 12 8 imm21) k" for k
    using assms by (simp_all add: jtype_word_def)
  have "take_bit 21 imm21 = imm21"
    using assms by (auto intro!: take_bit_unat_less simp: jtype_word_def word_less_nat_alt)
  then have wide: "bit imm21 n \<Longrightarrow> n < 21" by (metis bit_take_bit_iff)
  have "bit (imm_j w) n \<longleftrightarrow>
      20 \<le> n \<and> bit (field 20 1 imm21) (n - 20) \<or> 12 \<le> n \<and> bit (field 12 8 imm21) (n - 12)
      \<or> 11 \<le> n \<and> bit (field 11 1 imm21) (n - 11) \<or> 1 \<le> n \<and> bit (field 1 10 imm21) (n - 1)"
    using \<open>n < LENGTH(32)\<close> by (auto simp only: imm_j_def bit_or_iff bit_push_bit_iff f possible_bit_word)
  also have "\<dots> \<longleftrightarrow> 1 \<le> n \<and> bit imm21 n"
  proof -
    consider "n = 0" | "1 \<le> n" "n < 11" | "n = 11" | "12 \<le> n" "n < 20" | "n = 20" | "21 \<le> n" by linarith
    then show ?thesis using wide by cases (auto simp: bit_field_iff)
  qed
  also have "\<dots> \<longleftrightarrow> bit (push_bit 1 (field 1 20 imm21)) n"
    using \<open>n < LENGTH(32)\<close> wide
    by (cases n) (auto simp only: bit_push_bit_iff bit_field_iff possible_bit_word, auto)
  finally show "bit (imm_j w) n = bit (push_bit 1 (field 1 20 imm21)) n" .
qed

lemma sign_extend_21_even:
  assumes "x < 2097152"
  shows "sign_extend_21 (push_bit 1 (field 1 20 x)) = sign_extend_21 x \<longleftrightarrow> \<not> bit x 0"
proof
  assume eq: "sign_extend_21 (push_bit 1 (field 1 20 x)) = sign_extend_21 x"
  have "bit (sign_extend_21 y) 0 = bit y 0" for y
    by (auto simp: sign_extend_21_def bit_simps)
  with arg_cong [OF eq, of "\<lambda>y. bit y 0"] show "\<not> bit x 0"
    by (simp only: bit_push_bit_iff) simp
next
  assume even: "\<not> bit x 0"
  have "push_bit 1 (field 1 20 x) = x"
  proof (rule bit_word_eqI)
    fix n assume n: "n < LENGTH(32)"
    have "take_bit 21 x = x"
      using assms(1) by (auto intro!: take_bit_unat_less simp: word_less_nat_alt)
    then have "bit x n \<Longrightarrow> n < 21" by (metis bit_take_bit_iff)
    then show "bit (push_bit 1 (field 1 20 x)) n = bit x n"
      using n even by (cases n) (auto simp only: bit_push_bit_iff bit_field_iff possible_bit_word, auto)
  qed
  then show "sign_extend_21 (push_bit 1 (field 1 20 x)) = sign_extend_21 x" by simp
qed

lemma decode_jtype:
  assumes "jtype_word Op_JTYPE rd imm21 w"
    and "name m = Mn_JAL"
  shows "decode w = intended p m (JtypeOperands rd imm21) \<longleftrightarrow>
    encoding_faithful m (JtypeOperands rd imm21)"
proof -
  have "field 0 7 w = opcode_bits Op_JTYPE"
    using assms(1) by (simp add: jtype_word_def)
  note opcode_views [OF this]
  moreover have "imm_j w = push_bit 1 (field 1 20 imm21)" using assms(1) by (rule jump_immediate)
  moreover have "imm21 < 2097152" "field 0 7 w = 111" "field 7 5 w = register_number rd"
    using assms(1) by (simp_all add: jtype_word_def register_bits_def)
  ultimately show ?thesis
    using assms(2) sign_extend_21_even by (simp add: decoded_as del: push_bit_Suc)
qed

text \<open>C5. What the emitter encodes, the decoder decodes as what the instruction means, with exactly
  these exceptions: the scalar prefix is lost (except for the jumps, the vector-scalar comparisons and
  \<open>halt\<close>); a store keeps its meaning only if the low five bits of its offset are zero;
  \<open>srli\<close> and \<open>srai\<close> keep theirs only if bits 5 to 11 of the amount happen to be
  their function codes; an odd jump distance loses its lowest bit.\<close>

theorem decode_emitted_iff:
  assumes "emit_instruction p i = Inr w" and "operands_ok (instr_mnemonic i) (operands i)"
  shows "decode w = intended p (instr_mnemonic i) (operands i) \<longleftrightarrow>
    encoding_faithful (instr_mnemonic i) (operands i)"
proof -
  let ?m = "instr_mnemonic i"
  have word: "instruction_word p (name ?m) (operands i) w"
    using assms(1) by (simp add: emit_instruction_iff)
  show ?thesis
  proof (cases "operands i")
    case (JalrOperands rd rs1 target)
    then show ?thesis
      using word assms(2) decode_jalr [of rd rs1 _ w ?m p]
      by (cases target) auto
  next
    case (JtypeOperands rd imm21)
    then show ?thesis using word assms(2) decode_jtype by simp
  qed (use word assms(2) decode_rtype decode_itype decode_utype decode_stype in simp_all)
qed

definition store_at_4 :: instruction where
  "store_at_4 = \<lparr>label = None, instr_mnemonic = \<lparr>name = Mn_SW, has_s_prefix = False\<rparr>,
     operands = StypeOperands (vector_reg 5) (vector_reg 6) 4\<rparr>"

lemma store_at_4_word: "emit_instruction (program_of []) store_at_4 = Inr 0x0062A023"
  by code_simp

theorem decode_emitted_iff_witness:
  "emit_instruction (program_of []) store_at_4 = Inr 0x0062A023 \<and>
   decode 0x0062A023 \<noteq> intended (program_of []) (instr_mnemonic store_at_4) (operands store_at_4)"
proof -
  have "operands_ok (instr_mnemonic store_at_4) (operands store_at_4)"
    by (simp add: store_at_4_def is_store_type_def regs_match_def vector_reg_def reg_is_scalar_def
        mnemonic_is_scalar_def is_vector_scalar_def is_branch_def is_jump_def)
  moreover have "\<not> encoding_faithful (instr_mnemonic store_at_4) (operands store_at_4)" by code_simp
  ultimately show ?thesis
    using decode_emitted_iff [OF store_at_4_word] store_at_4_word by simp
qed

end
