(* ===== verification/Printing.thy ===== *)
theory Printing
  imports Program
begin

text \<open>
  Printing lines (\<open>line_to_str\<close> and \<open>Instruction::to_str\<close> of the parser) and reading them
  again. \<open>reads\<close> is the contract of one token, \<open>lexes\<close> that of the rest of a line; the
  lemmas give one rule for each kind of token and put them together as the printer does.
\<close>

section \<open>Lexing a given text\<close>

text \<open>\<open>lexes src tys\<close>: from any state with the source \<open>src\<close> the token loop comes to an end,
  with tokens of the types \<open>tys\<close> and no error.\<close>

definition lexes :: "string \<Rightarrow> token_type list \<Rightarrow> bool" where
  "lexes src tys \<longleftrightarrow>
     (\<forall>lx ts es. source lx = src \<longrightarrow>
        (\<exists>toks. collect_loop lx ts es = Some (ts @ toks, es) \<and> map token_type toks = tys))"

text \<open>\<open>reads src ty rest\<close>: from such a state the next token is of type \<open>ty\<close>, before \<open>rest\<close>.\<close>

definition reads :: "string \<Rightarrow> token_type \<Rightarrow> string \<Rightarrow> bool" where
  "reads src ty rest \<longleftrightarrow>
     (\<forall>lx. source lx = src \<longrightarrow>
        (\<exists>c lx'. next_token lx = (Some (Inr \<lparr>token_type = ty, col = c\<rparr>), lx') \<and> source lx' = rest))"

lemma lexes_Nil: "lexes [] []"
  by (simp add: lexes_def collect_loop_end next_token_def trim_whitespace_id peek_def Let_def)

lemma lexes_token:
  assumes "reads src ty rest" "lexes rest tys"
  shows "lexes src (ty # tys)"
  unfolding lexes_def
proof (intro allI impI)
  fix lx :: lexer and ts es assume "source lx = src"
  then obtain c lx' where next_lx: "next_token lx = (Some (Inr \<lparr>token_type = ty, col = c\<rparr>), lx')" "source lx' = rest"
    using assms(1) by (auto simp: reads_def)
  obtain toks where "collect_loop lx' (ts @ [\<lparr>token_type = ty, col = c\<rparr>]) es =
      Some ((ts @ [\<lparr>token_type = ty, col = c\<rparr>]) @ toks, es)" "map token_type toks = tys"
    using assms(2) next_lx(2) unfolding lexes_def by blast
  then show "\<exists>toks. collect_loop lx ts es = Some (ts @ toks, es) \<and> map token_type toks = ty # tys"
    using collect_loop_step [OF next_lx(1), of ts es]
    by (intro exI [of _ "\<lparr>token_type = ty, col = c\<rparr> # toks"]) simp
qed

lemma lexes_blank:
  assumes "is_whitespace c" "lexes src tys"
  shows "lexes (c # src) tys"
  unfolding lexes_def
proof (intro allI impI)
  fix lx :: lexer and ts es assume src: "source lx = c # src"
  have "trim_whitespace lx = trim_whitespace (snd (chop lx))"
    using assms(1) src by (auto simp: trim_whitespace.simps [of lx] peek_def is_whitespace_def)
  then have "next_token lx = next_token (snd (chop lx))"
    using next_token_trim [of lx] next_token_trim [of "snd (chop lx)"] by simp
  then have "collect_loop lx ts es = collect_loop (snd (chop lx)) ts es"
    by (subst (1 2) collect_loop.simps) (simp cong: option.case_cong sum.case_cong)
  moreover have "source (snd (chop lx)) = src" using src by (simp add: chop_def)
  ultimately show "\<exists>toks. collect_loop lx ts es = Some (ts @ toks, es) \<and> map token_type toks = tys"
    using assms(2) by (simp add: lexes_def)
qed

section \<open>Printed tokens are read back\<close>

lemma not_blank [simp]: "\<not> is_whitespace CHR '',''" "\<not> is_whitespace CHR ''(''" "\<not> is_whitespace CHR '')''"
    "\<not> is_whitespace CHR ''.''" "is_whitespace CHR '' ''"
  by (simp_all add: is_whitespace_def)

lemma not_numeric_alphabetic [simp]:
  "\<not> is_numeric CHR '','' 10" "\<not> is_numeric CHR ''('' 10" "\<not> is_numeric CHR '')'' 10" "\<not> is_numeric CHR ''.'' 10"
  "\<not> is_alphabetic CHR '',''" "\<not> is_alphabetic CHR ''(''" "\<not> is_alphabetic CHR '')''" "\<not> is_alphabetic CHR ''.''"
  by (simp_all add: is_numeric_def is_alphabetic_def is_lowercase_alphabetic_def is_uppercase_alphabetic_def ord_def)

lemma reads_punctuation:
  "reads (CHR '','' # rest) T_Comma rest"
  "reads (CHR ''('' # rest) T_Lparen rest"
  "reads (CHR '')'' # rest) T_Rparen rest"
  by (simp_all add: reads_def next_token_def trim_whitespace_id peek_def chop_def Let_def)

lemma reads_directive:
  "reads (''.blocks '' @ rest) T_BlocksDirective (CHR '' '' # rest)"
  "reads (''.warps '' @ rest) T_WarpsDirective (CHR '' '' # rest)"
  by (simp_all add: reads_def next_token_def trim_whitespace_id peek_def chop_def Let_def
      lexer_parse_directive_def chop_while_def is_whitespace_def)

lemma reads_number:
  assumes "\<bar>n\<bar> < 2 ^ 31" "ends_literal rest"
  shows "reads (show_int n @ rest) (T_Immediate (word_of_int n)) rest"
  unfolding reads_def
proof (intro allI impI)
  fix lx :: lexer assume src: "source lx = show_int n @ rest"
  have first: "hd (show_int n) = CHR ''-'' \<or> is_numeric (hd (show_int n)) 10" "show_int n \<noteq> []"
    using is_numeric_show_digits [of n] show_digits_nonempty [of n] show_digits_nonempty [of "- n"]
    by (cases "show_digits n") (auto simp: show_int_def)
  moreover have "\<not> is_whitespace (hd (show_int n))"
    using first(1) by (auto simp: is_whitespace_def is_numeric_def ord_def)
  moreover have "hd (show_int n) \<noteq> CHR ''#''"
    using first(1) by (auto simp: is_numeric_def ord_def)
  moreover have "parse_num (source lx) = (Inr (word_of_int n), rest)"
    using parse_num_show [OF assms] src by simp
  ultimately show "\<exists>c lx'. next_token lx = (Some (Inr \<lparr>token_type = T_Immediate (word_of_int n), col = c\<rparr>), lx') \<and> source lx' = rest"
    using src
    by (cases "show_int n") (auto simp: next_token_def trim_whitespace_id peek_def Let_def lexer_parse_number_def)
qed

text \<open>A word ends before anything that is not a keyword character.\<close>

definition ends_word :: "string \<Rightarrow> bool" where
  "ends_word rest \<longleftrightarrow> (case rest of [] \<Rightarrow> True | c # _ \<Rightarrow> \<not> is_keyword_char c)"

lemma reads_word:
  assumes w: "list_all is_keyword_char w" "w \<noteq> []" "is_alphabetic (hd w)" and rest: "ends_word rest"
    and ty: "\<And>lx. source lx = w @ rest \<Longrightarrow> \<exists>c. fst (lexer_parse_keyword lx) = Inr \<lparr>token_type = ty, col = c\<rparr>"
  shows "reads (w @ rest) ty rest"
  unfolding reads_def
proof (intro allI impI)
  fix lx :: lexer assume src: "source lx = w @ rest"
  obtain c where "fst (lexer_parse_keyword lx) = Inr \<lparr>token_type = ty, col = c\<rparr>" using ty [OF src] by blast
  moreover have "source (snd (lexer_parse_keyword lx)) = rest"
    using w(1) rest src by (auto simp: lex_len dropWhile_append2 list_all_iff ends_word_def split: list.splits)
  moreover have "\<not> is_whitespace (hd w)" "hd w \<noteq> CHR ''#''" "hd w \<noteq> CHR ''-''" "\<not> is_numeric (hd w) 10"
    using w(3) number_not_alphabetic
    by (auto simp: is_whitespace_def is_alphabetic_def is_lowercase_alphabetic_def is_uppercase_alphabetic_def ord_def)
  ultimately show "\<exists>c lx'. next_token lx = (Some (Inr \<lparr>token_type = ty, col = c\<rparr>), lx') \<and> source lx' = rest"
    using src w(2,3)
    by (cases w; cases "lexer_parse_keyword lx") (auto simp: next_token_def trim_whitespace_id peek_def Let_def)
qed

lemma keyword_word:
  fixes lx :: lexer
  assumes "list_all is_keyword_char w" "ends_word rest" "source lx = w @ rest"
  shows "\<exists>lx'. chop_while is_keyword_char lx = (w, lx')"
proof -
  have "takeWhile is_keyword_char (source lx) = w"
    using assms by (auto simp: takeWhile_append2 list_all_iff ends_word_def split: list.splits)
  then have "fst (chop_while is_keyword_char lx) = w" by simp
  then show ?thesis by (metis prod.collapse)
qed

lemma reads_mnemonic:
  assumes "ends_word rest"
  shows "reads (mnemonic_to_str m @ rest) (T_Mnemonic m) rest"
proof (rule reads_word [OF _ _ _ assms])
  show w: "list_all is_keyword_char (mnemonic_to_str m)"
    by (cases "name m")
      (auto simp: mnemonic_to_str_def is_keyword_char_def is_alphanumeric_def is_alphabetic_def
        is_lowercase_alphabetic_def ord_def)
  show "mnemonic_to_str m \<noteq> []" "is_alphabetic (hd (mnemonic_to_str m))"
    by (cases "name m"; auto simp: mnemonic_to_str_def is_alphabetic_def is_lowercase_alphabetic_def ord_def)+
  show "\<exists>c. fst (lexer_parse_keyword lx) = Inr \<lparr>token_type = T_Mnemonic m, col = c\<rparr>"
    if "source lx = mnemonic_to_str m @ rest" for lx :: lexer
  proof -
    from keyword_word [OF w assms that] obtain lx' where "chop_while is_keyword_char lx = (mnemonic_to_str m, lx')" by blast
    then show ?thesis by (simp add: lexer_parse_keyword_def)
  qed
qed

lemma label_char_keyword: "list_all is_label_char w \<Longrightarrow> list_all is_keyword_char w"
  by (auto simp: list_all_iff is_keyword_char_def)

lemma no_colon: "list_all is_label_char w \<Longrightarrow> w \<noteq> [] \<Longrightarrow> last w \<noteq> CHR '':''"
  by (auto simp: list_all_iff is_label_char_def is_alphanumeric_def is_alphabetic_def
      is_lowercase_alphabetic_def is_uppercase_alphabetic_def is_numeric_def ord_def dest!: last_in_set)

lemma reads_register:
  assumes "uint (register_number r) < 2 ^ 31" "ends_word rest"
  shows "reads (reg_to_str r @ rest) (T_Register r) rest"
proof (rule reads_word [OF _ _ _ assms(2)])
  let ?ds = "show_digits (uint (register_number r))"
  have str: "reg_to_str r = (case type r of VECTOR \<Rightarrow> CHR ''x'' | SCALAR \<Rightarrow> CHR ''s'') # ?ds"
    by (simp add: reg_to_str_def show_idata_def show_int_def split: register_type.split)
  have ds: "list_all (\<lambda>c. is_numeric c 10) ?ds" "?ds \<noteq> []"
    using is_numeric_show_digits [of "uint (register_number r)"] show_digits_nonempty by auto
  have label: "list_all is_label_char (reg_to_str r)"
    using ds(1) by (auto simp: str list_all_iff is_label_char_def is_alphanumeric_def is_alphabetic_def
        is_lowercase_alphabetic_def ord_def split: register_type.split)
  then show w: "list_all is_keyword_char (reg_to_str r)" by (rule label_char_keyword)
  show "reg_to_str r \<noteq> []" "is_alphabetic (hd (reg_to_str r))"
    by (auto simp: str is_alphabetic_def is_lowercase_alphabetic_def ord_def split: register_type.split)
  have no_mnemonic: "str_to_mnemonic (reg_to_str r) = None"
  proof (rule ccontr)
    assume "str_to_mnemonic (reg_to_str r) \<noteq> None"
    then obtain m where m: "reg_to_str r = mnemonic_to_str m" using str_to_mnemonic_sound by blast
    then have "reg_to_str r ! 1 = mnemonic_to_str m ! 1" by simp
    moreover have "is_numeric (reg_to_str r ! 1) 10" using ds by (cases ?ds) (auto simp: str)
    moreover have "\<not> is_numeric (mnemonic_to_str m ! 1) 10"
      by (cases "name m") (auto simp: mnemonic_to_str_def is_numeric_def ord_def)
    ultimately show False by simp
  qed
  have "last (reg_to_str r) \<noteq> CHR '':''"
    using label by (rule no_colon) (simp add: str)
  have "str_to_reg (reg_to_str r) = Inr r" using str_to_reg_to_str [of r "[]"] assms(1) by simp
  have first: "reg_to_str r ! 0 = CHR ''x'' \<or> reg_to_str r ! 0 = CHR ''s''"
    by (simp add: str split: register_type.split)
  show "\<exists>c. fst (lexer_parse_keyword lx) = Inr \<lparr>token_type = T_Register r, col = c\<rparr>"
    if "source lx = reg_to_str r @ rest" for lx :: lexer
  proof -
    from keyword_word [OF w assms(2) that] obtain lx' where "chop_while is_keyword_char lx = (reg_to_str r, lx')" by blast
    then show ?thesis
      using no_mnemonic \<open>last (reg_to_str r) \<noteq> CHR '':''\<close> \<open>str_to_reg (reg_to_str r) = Inr r\<close> first
      by (auto simp: lexer_parse_keyword_def Let_def)
  qed
qed

text \<open>The names a label can have: a mnemonic or a register name would be read as such.\<close>

definition label_name :: "string \<Rightarrow> bool" where
  "label_name l \<longleftrightarrow> l \<noteq> [] \<and> is_alphabetic (hd l) \<and> list_all is_label_char l"

definition label_ref_name :: "string \<Rightarrow> bool" where
  "label_ref_name l \<longleftrightarrow> label_name l \<and> str_to_mnemonic l = None \<and>
     (\<nexists>r. str_to_reg l = Inr r)"

lemma reads_label_ref:
  assumes "label_ref_name l" "ends_word rest"
  shows "reads (l @ rest) (T_LabelRef l) rest"
proof (rule reads_word [OF _ _ _ assms(2)])
  have l: "l \<noteq> []" "is_alphabetic (hd l)" "list_all is_label_char l" "str_to_mnemonic l = None" "\<nexists>r. str_to_reg l = Inr r"
    using assms(1) by (auto simp: label_ref_name_def label_name_def)
  then show w: "list_all is_keyword_char l" by (simp add: label_char_keyword)
  show "l \<noteq> []" "is_alphabetic (hd l)" by (rule l)+
  show "\<exists>c. fst (lexer_parse_keyword lx) = Inr \<lparr>token_type = T_LabelRef l, col = c\<rparr>"
    if "source lx = l @ rest" for lx :: lexer
  proof -
    from keyword_word [OF w assms(2) that] obtain lx' where "chop_while is_keyword_char lx = (l, lx')" by blast
    then show ?thesis
      using l no_colon [OF l(3,1)]
      by (cases "str_to_reg l") (auto simp: lexer_parse_keyword_def Let_def str_check_predicate_def)
  qed
qed

lemma reads_label:
  assumes "label_name l" "ends_word rest"
  shows "reads (l @ CHR '':'' # rest) (T_Label l) rest"
proof -
  have l: "l \<noteq> []" "is_alphabetic (hd l)" "list_all is_label_char l"
    using assms(1) by (auto simp: label_name_def)
  have w: "list_all is_keyword_char (l @ '':'')"
    using label_char_keyword [OF l(3)] by (simp add: is_keyword_char_def)
  have no_mnemonic: "str_to_mnemonic (l @ '':'') = None"
  proof (rule ccontr)
    assume "str_to_mnemonic (l @ '':'') \<noteq> None"
    then obtain m where "l @ '':'' = mnemonic_to_str m" using str_to_mnemonic_sound by blast
    then have "last (mnemonic_to_str m) = CHR '':''" by (metis last_snoc)
    then show False by (cases "name m") (auto simp: mnemonic_to_str_def split: if_splits)
  qed
  have "reads ((l @ '':'') @ rest) (T_Label l) rest"
  proof (rule reads_word [OF w _ _ assms(2)])
    show "\<exists>c. fst (lexer_parse_keyword lx) = Inr \<lparr>token_type = T_Label l, col = c\<rparr>"
      if "source lx = (l @ '':'') @ rest" for lx :: lexer
  proof -
    from keyword_word [OF w assms(2) that] obtain lx' where "chop_while is_keyword_char lx = (l @ '':'', lx')" by blast
    then show ?thesis
      using l no_mnemonic by (simp add: lexer_parse_keyword_def Let_def str_check_predicate_def)
  qed
  qed (use l in simp_all)
  then show ?thesis by simp
qed

section \<open>Printed lines are read back\<close>

lemma ends_word_simps [simp]:
  "ends_word []" "ends_word (CHR '' '' # rest)" "ends_word (CHR '','' # rest)" "ends_word (CHR '')'' # rest)"
  by (simp_all add: ends_word_def is_keyword_char_def is_label_char_def is_alphanumeric_def is_alphabetic_def
      is_lowercase_alphabetic_def is_uppercase_alphabetic_def is_numeric_def ord_def)

lemma ends_literal_simps [simp]: "ends_literal []" "ends_literal (CHR ''('' # rest)"
  by (simp_all add: ends_literal_def is_numeric_def ord_def)

definition register_ok :: "register \<Rightarrow> bool" where
  "register_ok r \<longleftrightarrow> uint (register_number r) < 2 ^ 31"

definition immediate_ok :: "word_type \<Rightarrow> bool" where
  "immediate_ok v \<longleftrightarrow> sint v \<noteq> - (2 ^ 31)"

lemma lexes_register:
  "register_ok r \<Longrightarrow> ends_word rest \<Longrightarrow> lexes rest tys \<Longrightarrow> lexes (reg_to_str r @ rest) (T_Register r # tys)"
  by (rule lexes_token [OF reads_register]) (simp_all add: register_ok_def)

lemma lexes_immediate:
  assumes "immediate_ok v" "ends_literal rest" "lexes rest tys"
  shows "lexes (show_word_type v @ rest) (T_Immediate v # tys)"
proof -
  have "\<bar>sint v\<bar> < 2 ^ 31"
    using assms(1) sint_greater_eq [of v] sint_less [of v] by (simp add: immediate_ok_def)
  from reads_number [OF this assms(2)] show ?thesis
    using lexes_token assms(3) by (simp add: show_word_type_def)
qed

lemma lexes_separator: "lexes rest tys \<Longrightarrow> lexes (CHR '','' # CHR '' '' # rest) (T_Comma # tys)"
  by (intro lexes_token [OF reads_punctuation(1)] lexes_blank) simp_all

lemma lexes_address:
  "register_ok r \<Longrightarrow> lexes (CHR ''('' # reg_to_str r @ '')'') [T_Lparen, T_Register r, T_Rparen]"
  by (intro lexes_token [OF reads_punctuation(2)] lexes_register lexes_token [OF reads_punctuation(3)] lexes_Nil) simp_all

lemmas lexes_intros = lexes_Nil lexes_register lexes_separator lexes_address lexes_immediate
  lexes_register [where rest = "[]", simplified] lexes_immediate [where rest = "[]", simplified]

text \<open>The operands that can be printed so that they can be read.\<close>

fun operands_printable :: "operands \<Rightarrow> bool" where
  "operands_printable (ItypeOperands rd rs1 imm12) \<longleftrightarrow> register_ok rd \<and> register_ok rs1 \<and> immediate_ok imm12"
| "operands_printable (RtypeOperands rd rs1 rs2) \<longleftrightarrow> register_ok rd \<and> register_ok rs1 \<and> register_ok rs2"
| "operands_printable (StypeOperands rs1 rs2 imm12) \<longleftrightarrow> register_ok rs1 \<and> register_ok rs2 \<and> immediate_ok imm12"
| "operands_printable (UtypeOperands rd imm20) \<longleftrightarrow> register_ok rd \<and> immediate_ok imm20"
| "operands_printable (JtypeOperands rd imm20) \<longleftrightarrow> register_ok rd \<and> immediate_ok imm20"
| "operands_printable (JalrOperands rd rs1 (LabelRef l)) \<longleftrightarrow> register_ok rd \<and> label_ref_name l"
| "operands_printable (JalrOperands rd rs1 (Imm v)) \<longleftrightarrow> register_ok rd \<and> register_ok rs1 \<and> immediate_ok v"

lemma operands_lex:
  assumes "operands_printable ops" "n \<noteq> Mn_HALT"
  shows "lexes (operands_to_str n ops) (operand_tokens n ops)"
proof (cases ops rule: operands_printable.cases)
  case (6 rd rs1 l)
  have "lexes l [T_LabelRef l]"
    using lexes_token [OF reads_label_ref [of l "[]"] lexes_Nil] assms(1) 6 by simp
  then show ?thesis using assms(1) 6 by (auto intro!: lexes_intros)
qed (use assms in \<open>auto simp: imm_or_label_to_string_def intro!: lexes_intros\<close>)

fun line_printable :: "line \<Rightarrow> bool" where
  "line_printable (JustLabel l) \<longleftrightarrow> label_name l"
| "line_printable (BlocksDirective v) \<longleftrightarrow> True"
| "line_printable (WarpsDirective v) \<longleftrightarrow> True"
| "line_printable (InstructionLine i) \<longleftrightarrow>
     (case label i of None \<Rightarrow> True | Some l \<Rightarrow> label_name l) \<and>
     name (instr_mnemonic i) \<noteq> Mn_HALT \<and> operands_printable (operands i)"

lemma instruction_lex:
  assumes "operands_printable (operands i)" "name (instr_mnemonic i) \<noteq> Mn_HALT"
  shows "lexes (mnemonic_to_str (instr_mnemonic i) @ '' '' @ operands_to_str (name (instr_mnemonic i)) (operands i))
    (instruction_tokens i)"
  unfolding instruction_tokens_def using assms
  by (intro lexes_token [OF reads_mnemonic]) (simp_all add: lexes_blank operands_lex)

lemma count_lex:
  assumes "1 \<le> sint v"
  shows "lexes (show_idata v) [T_Immediate v]"
proof -
  have "uint v = sint v" 
    using assms uint_sint [of v] sint_less [of v] by (simp add: take_bit_int_eq_self)
  then have "show_idata v = show_word_type v" "immediate_ok v"
    using assms by (simp_all add: show_idata_def show_word_type_def immediate_ok_def)
  then show ?thesis using lexes_immediate [of v "[]" "[]"] lexes_Nil by simp
qed

lemma line_lex: "line_ok ln \<Longrightarrow> line_printable ln \<Longrightarrow> lexes (line_to_str ln) (line_tokens ln)"
proof (cases ln)
  case (JustLabel l)
  assume "line_printable ln"
  then show ?thesis
    using JustLabel lexes_token [OF reads_label [of l "[]"] lexes_Nil] by (simp add: line_to_str_def)
next
  case (WarpsDirective v)
  assume "line_ok ln"
  then show ?thesis
    using WarpsDirective lexes_token [OF reads_directive(2) lexes_blank [OF _ count_lex]]
    by (simp add: line_to_str_def)
next
  case (BlocksDirective v)
  assume "line_ok ln"
  then show ?thesis
    using BlocksDirective lexes_token [OF reads_directive(1) lexes_blank [OF _ count_lex]]
    by (simp add: line_to_str_def)
next
  case (InstructionLine i)
  assume p: "line_printable ln"
  have lex: "lexes (mnemonic_to_str (instr_mnemonic i) @ '' '' @
      operands_to_str (name (instr_mnemonic i)) (operands i)) (instruction_tokens i)"
    using p InstructionLine instruction_lex by simp
  show ?thesis
  proof (cases "label i")
    case None
    then show ?thesis using lex InstructionLine by (simp add: line_to_str_def instruction_to_str_def)
  next
    case (Some l)
    then have "label_name l" using p InstructionLine by simp
    from lexes_token [OF reads_label [OF this] lexes_blank [OF _ lex], of "CHR '' ''"] Some show ?thesis
      using InstructionLine by (simp add: line_to_str_def instruction_to_str_def)
  qed
qed

lemma read_printed_line: "line_ok ln \<Longrightarrow> line_printable ln \<Longrightarrow> read_line (line_to_str ln) = Some [ln]"
proof -
  assume ln: "line_ok ln" "line_printable ln"
  obtain toks where toks: "collect_tokens (line_to_str ln) = Some (toks, [])" "map token_type toks = line_tokens ln"
    using line_lex [OF ln] by (force simp: lexes_def collect_tokens_def Lexer_init_def)
  then have "spells_line toks ln" using ln(1) by (simp add: spells_line_def)
  then have "parse_line toks = Value (Inr ln)"
    using parse_line_outcome [of toks, unfolded line_outcome_def] by (auto dest: spells_line_inj)
  moreover have "toks \<noteq> []" using toks(2) by (cases ln) (auto simp: instruction_tokens_def)
  ultimately show ?thesis using toks(1) by (simp add: read_line_def)
qed

text \<open>C3. Printing and parsing are inverse: the printed lines of a program are accepted and give the
  program back, whatever well-typed lines it has, as long as every line can be printed so that it
  can be read: no \<open>halt\<close>, which is printed with operands, register numbers and immediates that
  the literals can express, and label names that are not read as a register or a mnemonic.\<close>

theorem parse_printed_program:
  assumes "list_all line_ok lns" "list_all line_printable lns" "well_formed_lines lns"
  shows "parse_program (map line_to_str lns) = Done (Inr (program_of lns))"
proof -
  have "read_lines (map line_to_str lns) = Some lns"
    using assms(1,2) by (induction lns) (simp_all add: read_printed_line)
  then show ?thesis using assms(3) by (simp add: parse_program_Inr_iff)
qed

definition printed_program :: "line list" where
  "printed_program =
     [WarpsDirective 2,
      InstructionLine \<lparr>label = Some ''loop'', instr_mnemonic = \<lparr>name = Mn_ADDI, has_s_prefix = False\<rparr>,
        operands = ItypeOperands (vector_reg 1) (vector_reg 2) (- 5)\<rparr>,
      InstructionLine \<lparr>label = None, instr_mnemonic = \<lparr>name = Mn_LW, has_s_prefix = True\<rparr>,
        operands = ItypeOperands (scalar_reg 3) (scalar_reg 4) 8\<rparr>,
      JustLabel ''done'',
      InstructionLine \<lparr>label = None, instr_mnemonic = \<lparr>name = Mn_JALR, has_s_prefix = False\<rparr>,
        operands = JalrOperands (vector_reg 0) (vector_reg 0) (LabelRef ''loop'')\<rparr>]"

theorem parse_printed_program_witness:
  "map line_to_str printed_program =
     [''.warps 2'', ''loop: addi x1, x2, -5'', ''s.lw s3, 8(s4)'', ''done:'', ''jalr x0, loop''] \<and>
   parse_program (map line_to_str printed_program) = Done (Inr (program_of printed_program))"
proof -
  have "list_all line_ok printed_program"
    by (simp add: printed_program_def regs_match_def reg_is_scalar_def vector_reg_def scalar_reg_def
        mnemonic_is_scalar_def is_vector_scalar_def is_branch_def is_jump_def is_itype_arithmetic_def
        is_load_type_def)
  moreover have "register_ok (vector_reg 0)" "register_ok (vector_reg 1)" "register_ok (vector_reg 2)"
      "register_ok (scalar_reg 3)" "register_ok (scalar_reg 4)" "immediate_ok (- 5)" "immediate_ok 8"
    by (simp_all add: register_ok_def immediate_ok_def vector_reg_def scalar_reg_def)
  moreover have "str_to_reg ''loop'' = Inl (Error (''Invalid register name: '' @ quoted ''loop''))"
      "str_to_mnemonic ''loop'' = None" "label_name ''loop''" "label_name ''done''"
    by (simp add: str_to_reg_def, code_simp, simp_all add: label_name_def is_label_char_def is_alphanumeric_def
        is_alphabetic_def is_lowercase_alphabetic_def ord_def)
  ultimately have "list_all line_ok printed_program" "list_all line_printable printed_program"
    by (simp_all add: printed_program_def label_ref_name_def)
  moreover have "well_formed_lines printed_program" by code_simp
  moreover have "map line_to_str printed_program =
     [''.warps 2'', ''loop: addi x1, x2, -5'', ''s.lw s3, 8(s4)'', ''done:'', ''jalr x0, loop'']"
    by code_simp
  ultimately show ?thesis using parse_printed_program [of printed_program] by blast
qed

text \<open>A \<open>halt\<close> is printed with the operands it does not have, and then rejected.\<close>

lemma printed_halt_rejected:
  "line_to_str (InstructionLine \<lparr>label = None, instr_mnemonic = \<lparr>name = Mn_HALT, has_s_prefix = False\<rparr>,
     operands = default_operands\<rparr>) = ''halt x0, x0, 0'' \<and>
   read_line ''halt x0, x0, 0'' = None"
  by (rule conjI; code_simp)

end
