(* ===== verification/Doctest_String.thy ===== *)
theory Doctest_String
  imports Prelude "HOL-Library.Monad_Syntax"
begin

text \<open>
  The string class of the vendored test framework (\<open>external/doctest.h\<close>, \<open>class String\<close>),
  which keeps up to 23 characters in the object itself and longer strings on the heap. A string is
  either its 24 bytes \<open>buf\<close>, the last of which is 23 minus the size, or a heap block with its
  size and capacity; in the union of the code the last byte tells the two apart. Fresh memory has
  unknown contents, so every operation that allocates has an argument for them. Copying outside of
  a block has no result: a theorem that an operation returns \<open>Some\<close> includes that it stays
  within its blocks. Where an operation has two strings they are different objects.
\<close>

section \<open>Representation\<close>

type_synonym size_type = "32 word"

definition buf_len :: nat where
  "buf_len = 24"

definition buf_last :: size_type where
  "buf_last = 23"

definition NUL :: char where
  "NUL = CHR 0x00"

datatype str =
    Stack "char list"
  | Heap "char list" size_type size_type

definition npos :: size_type where
  "npos = - 1"

definition isOnStack :: "str \<Rightarrow> bool" where
  "isOnStack s = (case s of Stack buf \<Rightarrow> True | Heap _ _ _ \<Rightarrow> False)"

text \<open>The block \<open>c_str()\<close> points to.\<close>

definition c_block :: "str \<Rightarrow> char list" where
  "c_block s = (case s of Stack buf \<Rightarrow> buf | Heap ptr _ _ \<Rightarrow> ptr)"

definition flag_byte :: "size_type \<Rightarrow> char" where
  "flag_byte v = char_of (unat v)"

definition setLast :: "size_type \<Rightarrow> char list \<Rightarrow> char list" where
  "setLast v buf = buf[unat buf_last := flag_byte v]"

definition str_size :: "str \<Rightarrow> size_type" where
  "str_size s =
     (case s of
        Stack buf \<Rightarrow> buf_last - (word_of_nat (of_char (buf ! unat buf_last)) AND 31)
      | Heap ptr sz cap \<Rightarrow> sz)"

definition str_capacity :: "str \<Rightarrow> size_type" where
  "str_capacity s = (case s of Stack buf \<Rightarrow> of_nat buf_len | Heap ptr sz cap \<Rightarrow> cap)"

text \<open>\<open>new char[n]\<close>, \<open>memcpy\<close> to an offset of a block, and storing one character.\<close>

definition new_block :: "(nat \<Rightarrow> char) \<Rightarrow> size_type \<Rightarrow> char list" where
  "new_block junk n = map junk [0..<unat n]"

definition copy_to :: "char list \<Rightarrow> nat \<Rightarrow> char list \<Rightarrow> nat \<Rightarrow> char list option" where
  "copy_to dst off src n =
     (if off + n \<le> length dst \<and> n \<le> length src
      then Some (take off dst @ take n src @ drop (off + n) dst) else None)"

definition put_char :: "nat \<Rightarrow> char \<Rightarrow> char list \<Rightarrow> char list option" where
  "put_char i c b = (if i < length b then Some (b[i := c]) else None)"

section \<open>Operations\<close>

text \<open>\<open>allocate\<close> also gets the old contents of the object's bytes.\<close>

definition allocate :: "(nat \<Rightarrow> char) \<Rightarrow> char list \<Rightarrow> size_type \<Rightarrow> str option" where
  "allocate junk buf sz =
     (if sz \<le> buf_last then map_option (\<lambda>b. Stack (setLast (buf_last - sz) b)) (put_char (unat sz) NUL buf)
      else map_option (\<lambda>b. Heap b sz (sz + 1)) (put_char (unat sz) NUL (new_block junk (sz + 1))))"

definition with_block :: "str \<Rightarrow> char list \<Rightarrow> str" where
  "with_block s b = (case s of Stack _ \<Rightarrow> Stack b | Heap _ sz cap \<Rightarrow> Heap b sz cap)"

definition String_empty :: "char list \<Rightarrow> str" where
  "String_empty buf = Stack (setLast buf_last (buf[0 := NUL]))"

definition String_of :: "(nat \<Rightarrow> char) \<Rightarrow> char list \<Rightarrow> char list \<Rightarrow> size_type \<Rightarrow> str option" where
  "String_of junk buf in_ptr in_size =
     do { s \<leftarrow> allocate junk buf in_size;
          b \<leftarrow> copy_to (c_block s) 0 in_ptr (unat in_size);
          Some (with_block s b) }"

definition String_copy :: "(nat \<Rightarrow> char) \<Rightarrow> char list \<Rightarrow> str \<Rightarrow> str option" where
  "String_copy junk buf other =
     (case other of
        Stack obuf \<Rightarrow> map_option Stack (copy_to buf 0 obuf buf_len)
      | Heap ptr sz cap \<Rightarrow> String_of junk buf ptr sz)"

text \<open>The bytes of an object are unknown where they are overlaid by the view of a heap block.\<close>

definition own_bytes :: "char list \<Rightarrow> str \<Rightarrow> char list" where
  "own_bytes junk_buf s = (case s of Stack buf \<Rightarrow> buf | Heap _ _ _ \<Rightarrow> junk_buf)"

text \<open>Move construction: the other object becomes the empty string.\<close>

definition String_move :: "char list \<Rightarrow> str \<Rightarrow> str \<times> str" where
  "String_move junk_buf other =
     (other, String_empty (own_bytes junk_buf other))"

text \<open>The two assignments; a heap block that was there before is released.\<close>

definition String_assign :: "(nat \<Rightarrow> char) \<Rightarrow> char list \<Rightarrow> str \<Rightarrow> str \<Rightarrow> str option" where
  "String_assign junk junk_buf s other = String_copy junk (own_bytes junk_buf s) other"

definition String_move_assign :: "char list \<Rightarrow> str \<Rightarrow> str \<Rightarrow> str \<times> str" where
  "String_move_assign junk_buf s other = (other, String_empty (own_bytes junk_buf other))"

definition String_append :: "(nat \<Rightarrow> char) \<Rightarrow> str \<Rightarrow> str \<Rightarrow> str option" where
  "String_append junk s other =
     (let my_old_size = str_size s; other_size = str_size other;
          total_size = my_old_size + other_size
      in case s of
           Stack buf \<Rightarrow>
             if total_size < of_nat buf_len then
               do { b \<leftarrow> copy_to buf (unat my_old_size) (c_block other) (unat other_size + 1);
                    Some (Stack (setLast (buf_last - total_size) b)) }
             else
               do { temp \<leftarrow> copy_to (new_block junk (total_size + 1)) 0 buf (unat my_old_size);
                    b \<leftarrow> copy_to temp (unat my_old_size) (c_block other) (unat other_size + 1);
                    Some (Heap b total_size (total_size + 1)) }
         | Heap ptr sz cap \<Rightarrow>
             if total_size < cap then
               do { b \<leftarrow> copy_to ptr (unat my_old_size) (c_block other) (unat other_size + 1);
                    Some (Heap b total_size cap) }
             else
               let cap = cap * 2; cap = (if cap \<le> total_size then total_size + 1 else cap)
               in do { temp \<leftarrow> copy_to (new_block junk cap) 0 ptr (unat my_old_size);
                       b \<leftarrow> copy_to temp (unat my_old_size) (c_block other) (unat other_size + 1);
                       Some (Heap b total_size cap) })"

definition setSize :: "size_type \<Rightarrow> str \<Rightarrow> str option" where
  "setSize sz s =
     (case s of
        Stack buf \<Rightarrow> map_option (\<lambda>b. Stack (setLast (buf_last - sz) b)) (put_char (unat sz) NUL buf)
      | Heap ptr osz cap \<Rightarrow> map_option (\<lambda>b. Heap b sz cap) (put_char (unat sz) NUL ptr))"

definition char_at :: "str \<Rightarrow> size_type \<Rightarrow> char option" where
  "char_at s i = (if unat i < length (c_block s) then Some (c_block s ! unat i) else None)"

definition set_char_at :: "size_type \<Rightarrow> char \<Rightarrow> str \<Rightarrow> str option" where
  "set_char_at i c s = map_option (with_block s) (put_char (unat i) c (c_block s))"

text \<open>The two overloads of \<open>substr\<close>.\<close>

definition substr_move :: "size_type \<Rightarrow> size_type \<Rightarrow> str \<Rightarrow> str option" where
  "substr_move pos cnt s =
     (let cnt = min cnt (str_size s - 1 - pos)
      in do { b \<leftarrow> copy_to (c_block s) 0 (drop (unat pos) (c_block s)) (unat cnt);
              setSize cnt (with_block s b) })"

definition substr_const ::
    "(nat \<Rightarrow> char) \<Rightarrow> char list \<Rightarrow> size_type \<Rightarrow> size_type \<Rightarrow> str \<Rightarrow> str option" where
  "substr_const junk buf pos cnt s =
     (let cnt = min cnt (str_size s - 1 - pos)
      in String_of junk buf (drop (unat pos) (c_block s)) cnt)"

text \<open>\<open>find\<close> runs a pointer upwards to the end, \<open>rfind\<close> downwards below the start.\<close>

function find_from :: "char list \<Rightarrow> char \<Rightarrow> nat \<Rightarrow> nat \<Rightarrow> nat" where
  "find_from b ch end_pos it =
     (if it < end_pos \<and> b ! it \<noteq> ch then find_from b ch end_pos (it + 1) else it)"
  by pat_completeness auto
termination by (relation "measure (\<lambda>(b, ch, end_pos, it). end_pos - it)") auto

definition str_find :: "str \<Rightarrow> char \<Rightarrow> size_type \<Rightarrow> size_type" where
  "str_find s ch pos =
     (let end_pos = unat (str_size s); it = find_from (c_block s) ch end_pos (unat pos)
      in if it < end_pos then of_nat it else npos)"

text \<open>The result of the downward loop: the distance from the start plus one, or 0 below it.\<close>

fun rfind_from :: "char list \<Rightarrow> char \<Rightarrow> nat \<Rightarrow> nat" where
  "rfind_from b ch 0 = 0"
| "rfind_from b ch (Suc it) = (if b ! it \<noteq> ch then rfind_from b ch it else Suc it)"

definition str_rfind :: "str \<Rightarrow> char \<Rightarrow> size_type \<Rightarrow> size_type option" where
  "str_rfind s ch pos =
     (let start = unat (min pos (str_size s - 1))
      in if start < length (c_block s) then
           let it = rfind_from (c_block s) ch (Suc start)
           in Some (if it > 0 then of_nat (it - 1) else npos)
         else None)"

section \<open>Comparison\<close>

text \<open>What the C library sees of a block: the characters before the first null.\<close>

definition c_string :: "char list \<Rightarrow> char list" where
  "c_string b = takeWhile (\<lambda>c. c \<noteq> NUL) b"

definition uchar :: "char \<Rightarrow> int" where
  "uchar c = of_char c"

definition schar :: "char \<Rightarrow> int" where
  "schar c = (if uchar c < 128 then uchar c else uchar c - 256)"

text \<open>\<open>tolower\<close> of the C locale.\<close>

definition to_lower :: "char \<Rightarrow> int" where
  "to_lower c = (if 65 \<le> schar c \<and> schar c \<le> 90 then schar c + 32 else schar c)"

text \<open>The loop of \<open>stricmp\<close>; the end of a list stands for the terminating null.\<close>

fun stricmp :: "char list \<Rightarrow> char list \<Rightarrow> int" where
  "stricmp [] [] = 0"
| "stricmp [] (y # ys) = to_lower NUL - to_lower y"
| "stricmp (x # xs) [] = to_lower x - to_lower NUL"
| "stricmp (x # xs) (y # ys) =
     (let d = to_lower x - to_lower y in if d \<noteq> 0 then d else stricmp xs ys)"

text \<open>\<open>std::strcmp\<close>, whose result has the sign of the first difference of unsigned characters.\<close>

fun strcmp :: "char list \<Rightarrow> char list \<Rightarrow> int" where
  "strcmp [] [] = 0"
| "strcmp [] (y # ys) = - 1"
| "strcmp (x # xs) [] = 1"
| "strcmp (x # xs) (y # ys) = (if uchar x = uchar y then strcmp xs ys else sgn (uchar x - uchar y))"

definition str_compare :: "str \<Rightarrow> str \<Rightarrow> bool \<Rightarrow> int" where
  "str_compare s other no_case =
     (if no_case then stricmp (c_string (c_block s)) (c_string (c_block other))
      else strcmp (c_string (c_block s)) (c_string (c_block other)))"

definition str_eq :: "str \<Rightarrow> str \<Rightarrow> bool" where
  "str_eq lhs rhs \<longleftrightarrow> str_compare lhs rhs False = 0"

definition str_neq :: "str \<Rightarrow> str \<Rightarrow> bool" where
  "str_neq lhs rhs \<longleftrightarrow> str_compare lhs rhs False \<noteq> 0"

definition str_less :: "str \<Rightarrow> str \<Rightarrow> bool" where
  "str_less lhs rhs \<longleftrightarrow> str_compare lhs rhs False < 0"

definition str_greater :: "str \<Rightarrow> str \<Rightarrow> bool" where
  "str_greater lhs rhs \<longleftrightarrow> str_compare lhs rhs False > 0"

definition str_less_eq :: "str \<Rightarrow> str \<Rightarrow> bool" where
  "str_less_eq lhs rhs \<longleftrightarrow> (if str_neq lhs rhs then str_compare lhs rhs False < 0 else True)"

definition str_greater_eq :: "str \<Rightarrow> str \<Rightarrow> bool" where
  "str_greater_eq lhs rhs \<longleftrightarrow> (if str_neq lhs rhs then str_compare lhs rhs False > 0 else True)"

definition String_plus :: "(nat \<Rightarrow> char) \<Rightarrow> char list \<Rightarrow> str \<Rightarrow> str \<Rightarrow> str option" where
  "String_plus junk buf lhs rhs =
     do { s \<leftarrow> String_copy junk buf lhs; String_append junk s rhs }"

text \<open>\<open>Contains\<close>: a string to be searched for with \<open>strstr\<close>.\<close>

fun strstr :: "char list \<Rightarrow> char list \<Rightarrow> bool" where
  "strstr [] needle \<longleftrightarrow> needle = []"
| "strstr (x # xs) needle \<longleftrightarrow> prefix needle (x # xs) \<or> strstr xs needle"

definition checkWith :: "str \<Rightarrow> str \<Rightarrow> bool" where
  "checkWith needle other \<longleftrightarrow> strstr (c_string (c_block other)) (c_string (c_block needle))"

definition contains_eq :: "str \<Rightarrow> str \<Rightarrow> bool" where
  "contains_eq lhs rhs \<longleftrightarrow> checkWith rhs lhs"

definition contains_neq :: "str \<Rightarrow> str \<Rightarrow> bool" where
  "contains_neq lhs rhs \<longleftrightarrow> \<not> checkWith rhs lhs"

section \<open>The invariant and the text of a string\<close>

definition str_ok :: "str \<Rightarrow> bool" where
  "str_ok s =
     (case s of
        Stack buf \<Rightarrow> length buf = buf_len \<and> of_char (buf ! unat buf_last) \<le> (23 :: nat) \<and>
          buf ! unat (str_size s) = NUL
      | Heap ptr sz cap \<Rightarrow> length ptr = unat cap \<and> sz < cap \<and> ptr ! unat sz = NUL)"

definition str_text :: "str \<Rightarrow> char list" where
  "str_text s = take (unat (str_size s)) (c_block s)"

lemma buf_last_unat [simp]: "unat buf_last = 23"
  by (simp add: buf_last_def)

lemma flag_byte_code: "v \<le> buf_last \<Longrightarrow> of_char (flag_byte v) = unat v"
  by (simp add: flag_byte_def buf_last_def word_le_nat_alt)

lemma low_five: "n \<le> 23 \<Longrightarrow> (word_of_nat n :: size_type) AND 31 = word_of_nat n"
proof -
  assume "n \<le> 23"
  then have "take_bit 5 (word_of_nat n :: size_type) = word_of_nat n"
    by (simp add: word_unat_eq_iff unsigned_take_bit_eq take_bit_nat_eq_self unat_of_nat)
  then show ?thesis by (simp add: take_bit_eq_mask mask_eq_exp_minus_1)
qed

lemma size_Stack:
  assumes "of_char (buf ! 23) = n" "n \<le> 23"
  shows "unat (str_size (Stack buf)) = 23 - n"
proof -
  have "str_size (Stack buf) = 23 - of_nat n"
    using assms low_five [of n] by (simp add: str_size_def buf_last_def)
  moreover have "(of_nat n :: size_type) \<le> 23"
    using assms(2) by (simp add: word_le_nat_alt unat_of_nat)
  ultimately show ?thesis using assms(2) by (simp add: unat_sub unat_of_nat)
qed

lemma Stack_parts:
  assumes "length b = 24" "sz \<le> buf_last" "b ! unat sz = NUL"
  shows "str_ok (Stack (setLast (buf_last - sz) b))"
    and "str_size (Stack (setLast (buf_last - sz) b)) = sz"
    and "str_text (Stack (setLast (buf_last - sz) b)) = take (unat sz) b"
proof -
  let ?s = "Stack (setLast (buf_last - sz) b)"
  have sz: "unat sz \<le> 23" "unat (buf_last - sz) = 23 - unat sz"
    using assms(2) by (simp_all add: word_le_nat_alt unat_sub)
  have flag: "of_char (setLast (buf_last - sz) b ! 23) = (23 - unat sz :: nat)"
    using assms(1) sz flag_byte_code [of "buf_last - sz"]
    by (simp add: setLast_def word_le_nat_alt)
  then show size: "str_size ?s = sz"
    using sz(1) size_Stack [OF flag] by (simp add: word_unat_eq_iff)
  have "setLast (buf_last - sz) b ! unat sz = NUL"
  proof (cases "unat sz = 23")
    case True
    then have "flag_byte (buf_last - sz) = NUL"
      using sz(2) by (simp add: flag_byte_def NUL_def char_of_def)
    then show ?thesis using True assms(1) by (simp add: setLast_def)
  qed (use assms(3) in \<open>simp add: setLast_def\<close>)
  then show "str_ok ?s" using assms(1) flag size by (simp add: str_ok_def buf_len_def setLast_def)
  show "str_text ?s = take (unat sz) b"
    using size sz(1) by (simp add: str_text_def c_block_def setLast_def)
qed

lemma Heap_ok: "length b = unat cap \<Longrightarrow> sz < cap \<Longrightarrow> b ! unat sz = NUL \<Longrightarrow> str_ok (Heap b sz cap)"
  by (simp add: str_ok_def)

lemma Heap_views [simp]:
  "str_size (Heap b sz cap) = sz"
  "str_text (Heap b sz cap) = take (unat sz) b"
  "c_block (Heap b sz cap) = b"
  by (simp_all add: str_size_def str_text_def c_block_def)

text \<open>The size, the block and its terminating null.\<close>

lemma str_ok_block:
  assumes "str_ok s"
  shows "unat (str_size s) < length (c_block s)" "c_block s ! unat (str_size s) = NUL"
    "length (str_text s) = unat (str_size s)"
proof -
  show less: "unat (str_size s) < length (c_block s)"
  proof (cases s)
    case (Stack buf)
    with assms size_Stack [OF refl, of buf] show ?thesis
      by (simp add: str_ok_def c_block_def buf_len_def)
  next
    case (Heap ptr sz cap)
    with assms show ?thesis by (simp add: str_ok_def c_block_def str_size_def word_less_nat_alt)
  qed
  show "c_block s ! unat (str_size s) = NUL"
    using assms by (cases s) (simp_all add: str_ok_def c_block_def str_size_def)
  show "length (str_text s) = unat (str_size s)"
    using less by (simp add: str_text_def)
qed

section \<open>Copying\<close>

lemma copy_to_parts:
  assumes "off + n \<le> length dst" "n \<le> length src"
  shows "\<exists>b. copy_to dst off src n = Some b \<and> length b = length dst \<and>
    (\<forall>k\<le>n. take (off + k) b = take off dst @ take k src) \<and>
    (\<forall>k<n. b ! (off + k) = src ! k)"
proof -
  let ?b = "take off dst @ take n src @ drop (off + n) dst"
  have "copy_to dst off src n = Some ?b" using assms by (simp add: copy_to_def)
  moreover have "length ?b = length dst" using assms by simp
  moreover have "take (off + k) ?b = take off dst @ take k src" if "k \<le> n" for k
    using assms that by (simp add: min_def)
  moreover have "?b ! (off + k) = src ! k" if "k < n" for k
    using assms that by (simp add: nth_append)
  ultimately show ?thesis by blast
qed

lemma length_new_block [simp]: "length (new_block junk n) = unat n"
  by (simp add: new_block_def)

section \<open>Appending\<close>

lemma append_text:
  assumes "str_ok s" "str_ok t" "unat (str_size s) + unat (str_size t) + 1 < 2 ^ 32"
  shows "\<exists>u. String_append junk s t = Some u \<and> str_ok u \<and> str_text u = str_text s @ str_text t"
proof -
  let ?m = "unat (str_size s)" and ?n = "unat (str_size t)" and ?T = "c_block t"
  let ?total = "str_size s + str_size t"
  have total: "unat ?total = ?m + ?n" "unat (?total + 1) = ?m + ?n + 1"
    using assms(3) by (simp_all add: unat_word_ariths)
  note T = str_ok_block [OF assms(2)]
  \<comment> \<open>what every branch ends with: the other text and its null behind the own text\<close>
  have copied: "\<exists>b. copy_to dst ?m ?T (?n + 1) = Some b \<and> length b = length dst \<and>
      take (unat ?total) b = take ?m dst @ str_text t \<and> b ! unat ?total = NUL"
    if room: "?m + ?n + 1 \<le> length dst" for dst
  proof -
    obtain b where b: "copy_to dst ?m ?T (?n + 1) = Some b" "length b = length dst"
      "\<forall>k\<le>?n + 1. take (?m + k) b = take ?m dst @ take k ?T"
      "\<forall>k<?n + 1. b ! (?m + k) = ?T ! k"
      using copy_to_parts [of ?m "?n + 1" dst ?T] room T(1) by auto
    have "take (?m + ?n) b = take ?m dst @ take ?n ?T" "b ! (?m + ?n) = NUL"
      using b(3) b(4) T(2) by auto
    then show ?thesis using b(1,2) by (simp add: total(1) str_text_def)
  qed
  show ?thesis
  proof (cases s)
    case (Stack buf)
    have buf: "length buf = 24" "str_text s = take ?m buf" "?m < 24"
      using Stack assms(1) str_ok_block(1) [OF assms(1)]
      by (simp_all add: str_ok_def buf_len_def str_text_def c_block_def)
    show ?thesis
    proof (cases "?total < of_nat buf_len")
      case True
      then have "?m + ?n + 1 \<le> length buf"
        using buf total by (simp add: word_less_nat_alt buf_len_def)
      from copied [OF this] obtain b where b: "copy_to buf ?m ?T (?n + 1) = Some b" "length b = 24"
        "take (unat ?total) b = str_text s @ str_text t" "b ! unat ?total = NUL" using buf by auto
      have "?total \<le> buf_last" using True total by (simp add: word_less_nat_alt word_le_nat_alt buf_len_def)
      from Stack_parts [OF b(2) this b(4)] b show ?thesis
        using True by (simp add: String_append_def Stack)
    next
      case False
      let ?new = "new_block junk (?total + 1)"
      obtain temp where temp: "copy_to ?new 0 buf ?m = Some temp" "length temp = ?m + ?n + 1"
        "take ?m temp = take ?m buf"
        using copy_to_parts [of 0 ?m ?new buf] buf total by auto
      obtain b where b: "copy_to temp ?m ?T (?n + 1) = Some b" "length b = unat (?total + 1)"
        "take (unat ?total) b = str_text s @ str_text t" "b ! unat ?total = NUL"
        using copied [of temp] temp buf total by auto
      moreover have "?total < ?total + 1" using total by (simp add: word_less_nat_alt)
      ultimately show ?thesis
        using False temp Heap_ok [of b "?total + 1" ?total] by (simp add: String_append_def Stack Let_def)
    qed
  next
    case (Heap ptr sz cap)
    have ptr: "length ptr = unat cap" "str_text s = take ?m ptr" "?m < unat cap" "sz = str_size s"
      using Heap assms(1) by (simp_all add: str_ok_def str_text_def c_block_def str_size_def word_less_nat_alt)
    show ?thesis
    proof (cases "?total < cap")
      case True
      then have "?m + ?n + 1 \<le> length ptr" using ptr total by (simp add: word_less_nat_alt)
      from copied [OF this] obtain b where "copy_to ptr ?m ?T (?n + 1) = Some b" "length b = unat cap"
        "take (unat ?total) b = str_text s @ str_text t" "b ! unat ?total = NUL" using ptr by auto
      then show ?thesis
        using True Heap_ok [of b cap ?total] by (simp add: String_append_def Heap [symmetric]) (simp add: Heap)
    next
      case False
      define cap' where "cap' = (if cap * 2 \<le> ?total then ?total + 1 else cap * 2)"
      have cap': "?total < cap'"
        using total by (auto simp: cap'_def word_less_nat_alt word_le_nat_alt)
      then have room: "?m + ?n + 1 \<le> unat cap'" using total by (simp add: word_less_nat_alt)
      let ?new = "new_block junk cap'"
      obtain temp where temp: "copy_to ?new 0 ptr ?m = Some temp" "length temp = unat cap'"
        "take ?m temp = take ?m ptr"
        using copy_to_parts [of 0 ?m ?new ptr] ptr room by auto
      obtain b where b: "copy_to temp ?m ?T (?n + 1) = Some b" "length b = unat cap'"
        "take (unat ?total) b = str_text s @ str_text t" "b ! unat ?total = NUL"
        using copied [of temp] temp ptr room by auto
      have "String_append junk s t = Some (Heap b ?total cap')"
        using False temp(1) b(1)
        by (cases "cap * 2 \<le> ?total") (simp_all add: String_append_def Heap Let_def cap'_def)
      then show ?thesis using Heap_ok [of b cap' ?total] b cap' by simp
    qed
  qed
qed

section \<open>Construction, copies and parts\<close>

lemma String_of_text:
  assumes "length buf = buf_len" "unat n \<le> length src" "unat n + 1 < 2 ^ 32"
  shows "\<exists>s. String_of junk buf src n = Some s \<and> str_ok s \<and> str_text s = take (unat n) src"
proof (cases "n \<le> buf_last")
  case True
  then have n: "unat n \<le> 23" by (simp add: word_le_nat_alt)
  let ?d = "setLast (buf_last - n) (buf[unat n := NUL])"
  have d: "length ?d = 24" "allocate junk buf n = Some (Stack ?d)"
    using assms(1) True n by (simp_all add: allocate_def put_char_def buf_len_def setLast_def)
  obtain b where b: "copy_to ?d 0 src (unat n) = Some b" "length b = 24" "take (unat n) b = take (unat n) src"
    using copy_to_parts [of 0 "unat n" ?d src] d(1) n assms(2) by auto
  have eq: "b = setLast (buf_last - n) (b[unat n := NUL])"
  proof -
    have "b = take (unat n) src @ drop (unat n) ?d"
      using b(1) d(1) n assms(2) by (simp add: copy_to_def split: if_splits)
    then show ?thesis
      using assms(1,2) n
      by (auto simp: setLast_def list_eq_iff_nth_eq nth_append nth_list_update buf_len_def)
  qed
  have "String_of junk buf src n = Some (Stack b)"
    using d(2) b(1) by (simp add: String_of_def c_block_def with_block_def)
  moreover have "str_ok (Stack b)" "str_text (Stack b) = take (unat n) src"
    using Stack_parts [of "b[unat n := NUL]" n] b(2,3) n True eq [symmetric] by simp_all
  ultimately show ?thesis by blast
next
  case False
  have n: "unat (n + 1) = unat n + 1" using assms(3) by (simp add: unat_word_ariths)
  let ?d = "(new_block junk (n + 1))[unat n := NUL]"
  have a: "allocate junk buf n = Some (Heap ?d n (n + 1))"
    using False n by (simp add: allocate_def put_char_def)
  obtain b where b: "copy_to ?d 0 src (unat n) = Some b" "length b = unat (n + 1)"
    "take (unat n) b = take (unat n) src"
    using copy_to_parts [of 0 "unat n" ?d src] n assms(2) by auto
  have "b ! unat n = NUL"
    using b(1) n assms(2) by (auto simp: copy_to_def nth_append split: if_splits)
  moreover have "n < n + 1" using n by (simp add: word_less_nat_alt)
  ultimately show ?thesis
    using a b Heap_ok [of b "n + 1" n] by (simp add: String_of_def with_block_def)
qed

lemma String_copy_text:
  assumes "length buf = buf_len" "str_ok s" "unat (str_size s) + 1 < 2 ^ 32"
  shows "\<exists>t. String_copy junk buf s = Some t \<and> str_ok t \<and> str_text t = str_text s"
proof (cases s)
  case (Stack obuf)
  then have "copy_to buf 0 obuf buf_len = Some obuf"
    using assms by (simp add: copy_to_def str_ok_def)
  then show ?thesis using assms(2) by (simp add: String_copy_def Stack)
next
  case (Heap ptr sz cap)
  then have "unat sz \<le> length ptr" "unat sz + 1 < 2 ^ 32"
    using assms(2,3) by (simp_all add: str_ok_def word_less_nat_alt)
  from String_of_text [OF assms(1) this] show ?thesis by (simp add: String_copy_def Heap)
qed

lemma String_empty_text: "length buf = buf_len \<Longrightarrow> str_ok (String_empty buf) \<and> str_text (String_empty buf) = []"
  using Stack_parts [of "buf[0 := NUL]" 0] by (simp add: String_empty_def buf_len_def word_le_nat_alt)

lemma String_plus_text:
  assumes "length buf = buf_len" "str_ok s" "str_ok t" "unat (str_size s) + unat (str_size t) + 1 < 2 ^ 32"
  shows "\<exists>u. String_plus junk buf s t = Some u \<and> str_ok u \<and> str_text u = str_text s @ str_text t"
proof -
  obtain s' where s': "String_copy junk buf s = Some s'" "str_ok s'" "str_text s' = str_text s"
    using String_copy_text [OF assms(1,2), of junk] assms(4) by auto
  moreover have "str_size s' = str_size s"
    using str_ok_block(3) [OF s'(2)] str_ok_block(3) [OF assms(2)] s'(3) by (simp add: word_unat_eq_iff)
  ultimately show ?thesis using append_text [OF s'(2) assms(3)] assms(4) by (simp add: String_plus_def)
qed

text \<open>\<open>substr\<close> never reaches the last character: it computes the rest as \<open>size() - 1 - pos\<close>.\<close>

lemma substr_rest:
  assumes "str_ok s" "pos < str_size s"
  shows "unat (str_size s - 1 - pos) = unat (str_size s) - 1 - unat pos"
  using assms(2) by (simp add: word_less_nat_alt unat_word_ariths unat_sub_if')

lemma substr_part:
  assumes "str_ok s" "pos < str_size s"
  shows "take (unat (min cnt (str_size s - 1 - pos))) (drop (unat pos) (c_block s)) =
    take (unat cnt) (drop (unat pos) (butlast (str_text s)))"
    (is "take ?n (drop ?p _) = take ?c _")
proof -
  let ?sz = "unat (str_size s)"
  have sz: "?sz < length (c_block s)" "?p < ?sz" using assms str_ok_block by (simp_all add: word_less_nat_alt)
  have "?n = min ?c (?sz - 1 - ?p)"
    using substr_rest [OF assms] by (simp add: min_def word_le_nat_alt)
  moreover have "butlast (str_text s) = take (?sz - 1) (c_block s)"
    using sz(1) by (simp add: str_text_def butlast_take)
  ultimately show ?thesis by (simp add: drop_take)
qed

lemma min_size: "unat (min cnt (n :: size_type)) \<le> unat n"
  by (simp add: min_def word_le_nat_alt)

lemma substr_const_text:
  assumes "length buf = buf_len" "str_ok s" "pos < str_size s"
  shows "\<exists>t. substr_const junk buf pos cnt s = Some t \<and> str_ok t \<and>
    str_text t = take (unat cnt) (drop (unat pos) (butlast (str_text s)))"
proof -
  let ?n = "min cnt (str_size s - 1 - pos)"
  have n: "unat ?n \<le> unat (str_size s) - 1 - unat pos"
    using min_size [of cnt "str_size s - 1 - pos"] substr_rest [OF assms(2,3)] by simp
  moreover have "unat (str_size s) < 2 ^ 32" using unsigned_less [of "str_size s"] by simp
  moreover have "0 < unat (str_size s)" using assms(3) by (simp add: word_less_nat_alt)
  ultimately have "unat ?n \<le> length (drop (unat pos) (c_block s))" "unat ?n + 1 < 2 ^ 32"
    using str_ok_block(1) [OF assms(2)] by auto
  from String_of_text [OF assms(1) this, of junk]
  show ?thesis unfolding substr_const_def Let_def substr_part [OF assms(2,3)] .
qed

lemma substr_move_text:
  assumes "str_ok s" "pos < str_size s"
  shows "\<exists>t. substr_move pos cnt s = Some t \<and> str_ok t \<and>
    str_text t = take (unat cnt) (drop (unat pos) (butlast (str_text s)))"
proof -
  let ?n = "min cnt (str_size s - 1 - pos)" and ?src = "drop (unat pos) (c_block s)"
  have n: "unat ?n < unat (str_size s)"
    using min_size [of cnt "str_size s - 1 - pos"] substr_rest [OF assms] assms(2)
    by (simp add: word_less_nat_alt)
  have le: "unat ?n \<le> length (c_block s)" "unat ?n \<le> length ?src"
    using min_size [of cnt "str_size s - 1 - pos"] substr_rest [OF assms] str_ok_block(1) [OF assms(1)] by simp_all
  obtain b where b: "copy_to (c_block s) 0 ?src (unat ?n) = Some b" "length b = length (c_block s)"
    "take (unat ?n) b = take (unat ?n) ?src"
    using copy_to_parts [of 0 "unat ?n" "c_block s" ?src] le by auto
  have n': "unat ?n < length b" using n str_ok_block(1) [OF assms(1)] b(2) by simp
  show ?thesis
  proof (cases s)
    case (Stack buf)
    have len: "length b = 24" "?n \<le> buf_last"
      using Stack assms(1) b(2) n' by (simp_all add: str_ok_def c_block_def buf_len_def word_le_nat_alt)
    note parts = Stack_parts [of "b[unat ?n := NUL]" ?n]
    show ?thesis
      using b(1,3) parts len n' substr_part [OF assms, of cnt] Stack
      by (simp add: substr_move_def Let_def with_block_def setSize_def put_char_def)
  next
    case (Heap ptr sz cap)
    have "?n < cap" using Heap assms(1) n by (simp add: str_ok_def word_less_nat_alt)
    moreover have "length b = unat cap" using Heap assms(1) b(2) by (simp add: str_ok_def)
    ultimately show ?thesis
      using b(1,3) n' substr_part [OF assms, of cnt] Heap Heap_ok [of "b[unat ?n := NUL]" cap ?n]
      by (simp add: substr_move_def Let_def with_block_def setSize_def put_char_def)
  qed
qed

section \<open>Searching\<close>

lemma find_from_spec:
  "it \<le> e \<Longrightarrow> e \<le> length b \<Longrightarrow>
   find_from b ch e it = it + length (takeWhile (\<lambda>c. c \<noteq> ch) (drop it (take e b)))"
proof (induction b ch e it rule: find_from.induct)
  case (1 b ch e it)
  show ?case
  proof (cases "it < e")
    case True
    then have "drop it (take e b) = b ! it # drop (Suc it) (take e b)"
      using 1(3) by (subst Cons_nth_drop_Suc [symmetric]) simp_all
    then show ?thesis using 1 True by (subst find_from.simps) simp
  qed (use 1 in \<open>subst find_from.simps, simp\<close>)
qed

declare find_from.simps [simp del]

lemma mem_takeWhile_less: "x \<in> set xs \<longleftrightarrow> length (takeWhile (\<lambda>y. y \<noteq> x) xs) < length xs"
  by (induction xs) auto

lemma str_find_text:
  assumes "str_ok s" "pos \<le> str_size s"
  shows "str_find s ch pos =
    (let rest = drop (unat pos) (str_text s)
     in if ch \<in> set rest then of_nat (unat pos + length (takeWhile (\<lambda>c. c \<noteq> ch) rest)) else npos)"
proof -
  let ?rest = "drop (unat pos) (str_text s)"
  have pos: "unat pos \<le> unat (str_size s)" using assms(2) by (simp add: word_le_nat_alt)
  have it: "find_from (c_block s) ch (unat (str_size s)) (unat pos) =
      unat pos + length (takeWhile (\<lambda>c. c \<noteq> ch) ?rest)"
    using find_from_spec [OF pos] str_ok_block(1) [OF assms(1)] by (simp add: str_text_def)
  have "length ?rest = unat (str_size s) - unat pos" using str_ok_block(3) [OF assms(1)] by simp
  moreover have "ch \<in> set ?rest \<longleftrightarrow> length (takeWhile (\<lambda>c. c \<noteq> ch) ?rest) < length ?rest"
    by (rule mem_takeWhile_less)
  ultimately show ?thesis using pos it by (auto simp: str_find_def Let_def)
qed

lemma rfind_from_spec:
  "n \<le> length b \<Longrightarrow> rfind_from b ch n = length (dropWhile (\<lambda>c. c \<noteq> ch) (rev (take n b)))"
  by (induction b ch n rule: rfind_from.induct) (simp_all add: take_Suc_conv_app_nth)

lemma str_rfind_text:
  assumes "str_ok s" "str_text s \<noteq> []"
  shows "str_rfind s ch pos =
    (let front = take (unat pos + 1) (str_text s)
     in Some (if ch \<in> set front
              then of_nat (length (dropWhile (\<lambda>c. c \<noteq> ch) (rev front)) - 1) else npos))"
proof -
  have sz: "0 < unat (str_size s)" using assms str_ok_block(3) [OF assms(1)] by (metis length_greater_0_conv)
  have start: "unat (min pos (str_size s - 1)) = min (unat pos) (unat (str_size s) - 1)"
    using sz by (simp add: min_def word_le_nat_alt unat_minus_one unat_gt_0)
  let ?k = "Suc (min (unat pos) (unat (str_size s) - 1))"
  have k: "?k = min (unat pos + 1) (unat (str_size s))" using sz by simp
  have front: "take ?k (c_block s) = take (unat pos + 1) (str_text s)"
    unfolding k by (simp add: str_text_def)
  have "?k \<le> length (c_block s)" using k str_ok_block(1) [OF assms(1)] by simp
  then have "rfind_from (c_block s) ch ?k =
      length (dropWhile (\<lambda>c. c \<noteq> ch) (rev (take (unat pos + 1) (str_text s))))"
    by (simp only: rfind_from_spec front)
  moreover have "length (dropWhile (\<lambda>c. c \<noteq> ch) ys) > 0 \<longleftrightarrow> ch \<in> set ys" for ys
    by (induction ys) auto
  ultimately show ?thesis
    using \<open>?k \<le> length (c_block s)\<close> by (simp add: str_rfind_def Let_def start del: rfind_from.simps)
qed

text \<open>On the empty string the downward search starts out of the block.\<close>

lemma str_rfind_empty: "str_rfind (String_empty (replicate 24 NUL)) ch npos = None"
proof -
  have "str_size (String_empty (replicate 24 NUL)) = 0"
    using Stack_parts(2) [of "(replicate 24 NUL)[0 := NUL]" 0]
    by (simp add: String_empty_def word_le_nat_alt NUL_def)
  then show ?thesis
    by (simp add: str_rfind_def npos_def String_empty_def c_block_def setLast_def Let_def
        unsigned_minus_1_eq_mask mask_eq_exp_minus_1)
qed

lemma strstr_iff: "strstr xs needle \<longleftrightarrow> sublist needle xs"
  by (induction xs) (auto simp: sublist_Cons_right)

section \<open>The order\<close>

lemma strcmp_flip: "strcmp ys xs = - strcmp xs ys"
  by (induction xs ys rule: strcmp.induct) (simp_all add: sgn_if)

lemma uchar_eq_iff: "uchar x = uchar y \<longleftrightarrow> x = y"
  by (simp add: uchar_def)

lemma strcmp_zero_iff: "strcmp xs ys = 0 \<longleftrightarrow> xs = ys"
  by (induction xs ys rule: strcmp.induct) (auto simp: uchar_eq_iff sgn_if)

lemma strcmp_less_iff:
  "strcmp xs ys < 0 \<longleftrightarrow> (map uchar xs, map uchar ys) \<in> lexord {(a, b). a < b}"
  by (induction xs ys rule: strcmp.induct) (auto simp: sgn_if)

lemma c_string_text:
  assumes "str_ok s" "NUL \<notin> set (str_text s)"
  shows "c_string (c_block s) = str_text s"
proof -
  have "c_block s = str_text s @ NUL # drop (Suc (unat (str_size s))) (c_block s)"
    using str_ok_block [OF assms(1)] by (metis id_take_nth_drop str_text_def)
  then show ?thesis
    using assms(2) unfolding c_string_def by (metis (mono_tags, lifting) takeWhile_append2 takeWhile.simps(2) append_Nil2)
qed

text \<open>C38. Appending never leaves its blocks, keeps the invariant and appends the text, in all four
  cases: in place, from the object to the heap, in the heap block and in a grown one; whatever the
  fresh memory holds.\<close>

theorem String_append_text:
  assumes "str_ok s" "str_ok t" "unat (str_size s) + unat (str_size t) + 1 < 2 ^ 32"
  shows "\<exists>u. String_append junk s t = Some u \<and> str_ok u \<and> str_text u = str_text s @ str_text t"
  using assms by (rule append_text)

definition text_less :: "str \<Rightarrow> str \<Rightarrow> bool" where
  "text_less s t \<longleftrightarrow> (map uchar (str_text s), map uchar (str_text t)) \<in> lexord {(a, b). a < b}"

text \<open>The six comparison operators are one linear order of the texts, the lexicographic order
  of unsigned characters, as long as no text contains a null.\<close>

theorem str_order:
  assumes "str_ok s" "NUL \<notin> set (str_text s)" "str_ok t" "NUL \<notin> set (str_text t)"
  shows "(str_eq s t \<longleftrightarrow> str_text s = str_text t) \<and> (str_neq s t \<longleftrightarrow> str_text s \<noteq> str_text t) \<and>
    (str_less s t \<longleftrightarrow> text_less s t) \<and> (str_less_eq s t \<longleftrightarrow> text_less s t \<or> str_text s = str_text t) \<and>
    (str_greater s t \<longleftrightarrow> \<not> text_less s t \<and> str_text s \<noteq> str_text t) \<and> (str_greater_eq s t \<longleftrightarrow> \<not> text_less s t)"
proof -
  have "str_text s = str_text t \<longleftrightarrow> str_compare s t False = 0"
    "text_less s t \<longleftrightarrow> str_compare s t False < 0"
    using c_string_text assms(1-4)
    by (simp_all add: str_compare_def text_less_def strcmp_zero_iff strcmp_less_iff)
  then show ?thesis
    by (auto simp: str_eq_def str_neq_def str_less_def str_less_eq_def str_greater_def
        str_greater_eq_def)
qed

text \<open>Both forms of \<open>substr\<close> stay within the block and give the same part of the text, but
  never its last character.\<close>

theorem substr_drops_last:
  assumes "str_ok s" "pos < str_size s" "length buf = buf_len"
  shows "\<exists>t u. substr_move pos cnt s = Some t \<and> substr_const junk buf pos cnt s = Some u \<and>
    str_ok t \<and> str_ok u \<and> str_text t = str_text u \<and>
    str_text t = take (unat cnt) (drop (unat pos) (butlast (str_text s)))"
  using substr_move_text [OF assms(1,2), of cnt] substr_const_text [OF assms(3,1,2), of junk cnt]
  by auto

section \<open>Two concrete strings\<close>

definition blank :: "char list" where
  "blank = replicate 24 NUL"

definition str_of :: "string \<Rightarrow> str" where
  "str_of cs = the (String_of (\<lambda>_. NUL) blank cs (of_nat (length cs)))"

lemma str_of_parts:
  assumes "length cs < 1000"
  shows "str_ok (str_of cs)" "str_text (str_of cs) = cs" "unat (str_size (str_of cs)) = length cs"
proof -
  have n: "unat (of_nat (length cs) :: size_type) = length cs"
    using assms by (simp add: unat_of_nat)
  obtain s where "String_of (\<lambda>_. NUL) blank cs (of_nat (length cs)) = Some s" "str_ok s" "str_text s = cs"
    using String_of_text [of blank "of_nat (length cs)" cs "\<lambda>_. NUL"] n assms
    by (auto simp: blank_def buf_len_def)
  then show "str_ok (str_of cs)" "str_text (str_of cs) = cs" by (simp_all add: str_of_def)
  then show "unat (str_size (str_of cs)) = length cs" using str_ok_block(3) by metis
qed

theorem String_append_text_witness:
  "map_option str_text (String_append (\<lambda>_. CHR ''?'') (str_of ''doctest: '') (str_of ''twenty characters...'')) =
     Some ''doctest: twenty characters...''"
  using String_append_text [of "str_of ''doctest: ''" "str_of ''twenty characters...''" "\<lambda>_. CHR ''?''"]
  by (auto simp: str_of_parts)

theorem str_order_witness:
  "str_less (str_of ''abc'') (str_of ''abd'') \<and> \<not> str_eq (str_of ''abc'') (str_of ''abd'')"
  using str_order [of "str_of ''abc''" "str_of ''abd''"]
  by (simp add: str_of_parts NUL_def text_less_def uchar_def)

theorem substr_drops_last_witness:
  "map_option str_text (substr_move 0 npos (str_of ''abc'')) = Some ''ab''"
proof -
  have "0 < str_size (str_of ''abc'')" "length blank = buf_len" "unat npos = 4294967295"
    by (simp_all add: word_less_nat_alt str_of_parts blank_def buf_len_def npos_def
        unsigned_minus_1_eq_mask mask_eq_exp_minus_1)
  with substr_drops_last [of "str_of ''abc''" 0 blank npos] show ?thesis by (auto simp: str_of_parts)
qed

end
