(* ===== verification/Doctest_Filter.thy ===== *)
theory Doctest_Filter
  imports Doctest_String
begin

text \<open>
  How the vendored test framework (\<open>external/doctest.h\<close>) selects and orders test cases: the
  wildcard matcher, the hashes by which it recognises subcases, the registered test cases with their
  comparators. Texts are lists of characters without the terminating null; \<open>Doctest_String\<close>
  says how the framework stores them.
\<close>

section \<open>Wildcards\<close>

definition wild_eq :: "bool \<Rightarrow> char \<Rightarrow> char \<Rightarrow> bool" where
  "wild_eq caseSensitive w c \<longleftrightarrow> (if caseSensitive then w = c else to_lower w = to_lower c)"

text \<open>The first loop: up to the first star. \<open>None\<close> is the early \<open>return 0\<close>.\<close>

fun wild_start :: "bool \<Rightarrow> string \<Rightarrow> string \<Rightarrow> (string \<times> string) option" where
  "wild_start cs [] wild = Some ([], wild)"
| "wild_start cs (c # s) [] = None"
| "wild_start cs (c # s) (w # wild) =
     (if w = CHR ''*'' then Some (c # s, w # wild)
      else if \<not> wild_eq cs w c \<and> w \<noteq> CHR ''?'' then None
      else wild_start cs s wild)"

text \<open>The end: remaining stars match nothing.\<close>

definition wild_rest :: "string \<Rightarrow> bool" where
  "wild_rest wild \<longleftrightarrow> dropWhile (\<lambda>w. w = CHR ''*'') wild = []"

text \<open>The second loop, with the positions \<open>mp\<close> and \<open>cp\<close> to which it goes back.\<close>

function wild_loop :: "bool \<Rightarrow> string \<Rightarrow> string \<Rightarrow> string \<Rightarrow> string \<Rightarrow> bool" where
  "wild_loop cs [] wild mp cp = wild_rest wild"
| "wild_loop cs (c # s) wild mp cp =
     (case wild of
        [] \<Rightarrow> wild_loop cs cp mp mp (tl cp)
      | w # ws \<Rightarrow>
          if w = CHR ''*'' then (if ws = [] then True else wild_loop cs (c # s) ws ws s)
          else if wild_eq cs w c \<or> w = CHR ''?'' then wild_loop cs s ws mp cp
          else wild_loop cs cp mp mp (tl cp))"
  by pat_completeness auto
termination
proof (relation "measures [\<lambda>(cs, s, wild, mp, cp). max (length wild) (length mp),
    \<lambda>(cs, s, wild, mp, cp). length cp, \<lambda>(cs, s, wild, mp, cp). length s]", goal_cases)
  case (2 cs c s wild mp cp)
  then show ?case by (cases cp) auto
next
  case (5 cs c s wild mp cp w ws)
  then show ?case by (cases cp) auto
qed auto

definition wildcmp :: "string \<Rightarrow> string \<Rightarrow> bool \<Rightarrow> bool" where
  "wildcmp str wild caseSensitive =
     (case wild_start caseSensitive str wild of
        None \<Rightarrow> False
      | Some (s, w) \<Rightarrow> wild_loop caseSensitive s w wild str)"

definition matchesAny :: "string \<Rightarrow> string list \<Rightarrow> bool \<Rightarrow> bool \<Rightarrow> bool" where
  "matchesAny nm filters matchEmpty caseSensitive =
     (if filters = [] \<and> matchEmpty then True
      else list_ex (\<lambda>curr. wildcmp nm curr caseSensitive) filters)"

section \<open>Hashes\<close>

type_synonym hash = "64 word"

record SubcaseSignature =
  m_name :: string
  m_file :: string
  m_line :: int

definition hash_combine :: "hash \<Rightarrow> hash \<Rightarrow> hash" where
  "hash_combine a b = push_bit 5 a + b"

definition hash_string :: "string \<Rightarrow> hash" where
  "hash_string str = foldl (\<lambda>h c. (push_bit 5 h + h) + word_of_int (schar c)) 5381 str"

definition hash_signature :: "SubcaseSignature \<Rightarrow> hash" where
  "hash_signature sig =
     hash_combine (hash_combine (hash_string (m_file sig)) (hash_string (m_name sig)))
       (word_of_int (m_line sig))"

definition hash_prefix :: "SubcaseSignature list \<Rightarrow> nat \<Rightarrow> hash" where
  "hash_prefix sigs count =
     foldl (\<lambda>running sig. hash_combine running (hash_signature sig)) 0 (take count sigs)"

definition hash_path :: "SubcaseSignature list \<Rightarrow> hash" where
  "hash_path sigs = foldl (\<lambda>running sig. hash_combine running (hash_signature sig)) 0 sigs"

section \<open>What the matcher computes\<close>

text \<open>The meaning of a pattern: a star stands for any text, a question mark for any character.\<close>

fun glob :: "bool \<Rightarrow> string \<Rightarrow> string \<Rightarrow> bool" where
  "glob cs [] s \<longleftrightarrow> s = []"
| "glob cs (w # ws) s \<longleftrightarrow>
     (if w = CHR ''*'' then list_ex (\<lambda>k. glob cs ws (drop k s)) [0..<Suc (length s)]
      else (case s of [] \<Rightarrow> False | c # s \<Rightarrow> (wild_eq cs w c \<or> w = CHR ''?'') \<and> glob cs ws s))"

lemma glob_star: "glob cs (CHR ''*'' # ws) s \<longleftrightarrow> (\<exists>t. suffix t s \<and> glob cs ws t)"
proof -
  have "(\<exists>k<Suc (length s). P (drop k s)) \<longleftrightarrow> (\<exists>t. suffix t s \<and> P t)" for P
  proof
    assume "\<exists>t. suffix t s \<and> P t"
    then obtain u t where "s = u @ t" "P t" by (auto simp: suffix_def)
    then show "\<exists>k<Suc (length s). P (drop k s)" by (intro exI [of _ "length u"]) simp
  qed (auto intro: suffix_drop)
  then show ?thesis by (simp add: list_ex_iff Bex_def atLeast0LessThan del: upt_Suc)
qed

lemma glob_other:
  "w \<noteq> CHR ''*'' \<Longrightarrow> glob cs (w # ws) s \<longleftrightarrow>
     (\<exists>c s'. s = c # s' \<and> (wild_eq cs w c \<or> w = CHR ''?'') \<and> glob cs ws s')"
  by (cases s) auto

declare glob.simps(2) [simp del]

lemma glob_star_Nil [simp]: "glob cs (CHR ''*'' # ws) [] = glob cs ws []"
  by (simp add: glob_star)

lemma glob_star_Cons:
  "glob cs (CHR ''*'' # ws) (c # s) \<longleftrightarrow> glob cs ws (c # s) \<or> glob cs (CHR ''*'' # ws) s"
  by (auto simp: glob_star suffix_Cons)

lemma glob_star_mono: "suffix t s \<Longrightarrow> glob cs (CHR ''*'' # ws) t \<Longrightarrow> glob cs (CHR ''*'' # ws) s"
  by (auto simp: glob_star intro: suffix_order.trans)

text \<open>A pattern without stars in front uses as many characters as it has.\<close>

lemma glob_no_star:
  assumes "CHR ''*'' \<notin> set u" "glob cs (u @ ws) s"
  shows "length u \<le> length s \<and> glob cs ws (drop (length u) s)"
  using assms by (induction u arbitrary: s) (auto simp: glob_other)

lemma glob_rest: "glob cs wild [] \<longleftrightarrow> wild_rest wild"
proof (induction wild)
  case (Cons w ws)
  then show ?case by (cases "w = CHR ''*''") (auto simp: wild_rest_def glob_other)
qed (simp add: wild_rest_def)

text \<open>
  The state of the second loop: the pattern has been followed from \<open>mp\<close> for \<open>n\<close> characters
  without meeting a star, the text from some \<open>s0\<close>, and \<open>cp\<close> is one after \<open>s0\<close>.
\<close>

definition on_track :: "string \<Rightarrow> string \<Rightarrow> string \<Rightarrow> string \<Rightarrow> bool" where
  "on_track s wild mp cp \<longleftrightarrow>
     (\<exists>u s0. mp = u @ wild \<and> CHR ''*'' \<notin> set u \<and> s = drop (length u) s0 \<and>
        length u \<le> length s0 \<and> cp = tl s0)"

lemma on_track_back: "on_track cp mp mp (tl cp)"
  unfolding on_track_def by (intro exI [of _ "[]"] exI [of _ cp]) simp

lemma on_track_step:
  assumes "on_track (c # s) (w # ws) mp cp" "w \<noteq> CHR ''*''"
  shows "on_track s ws mp cp"
proof -
  from assms(1) obtain u s0 where u: "mp = u @ w # ws" "CHR ''*'' \<notin> set u" "c # s = drop (length u) s0"
    "cp = tl s0" by (auto simp: on_track_def)
  have "s = tl (drop (length u) s0)" by (simp flip: u(3))
  then have "s = drop (length (u @ [w])) s0" by (simp add: drop_Suc tl_drop)
  moreover have "length (u @ [w]) \<le> length s0" using arg_cong [OF u(3), of length] by simp
  ultimately show ?thesis using u assms(2) unfolding on_track_def
    by (intro exI [of _ "u @ [w]"] exI [of _ s0]) simp
qed

lemma later_start_useless:
  assumes "on_track s wild mp cp" "glob cs (CHR ''*'' # mp) cp"
  shows "\<exists>t. suffix t s \<and> glob cs wild t"
proof -
  from assms(1) obtain u s0 where u: "mp = u @ wild" "CHR ''*'' \<notin> set u" "s = drop (length u) s0"
    "length u \<le> length s0" "cp = tl s0" by (auto simp: on_track_def)
  from assms(2) obtain t where t: "suffix t cp" "glob cs (u @ wild) t" by (auto simp: glob_star u)
  then have "glob cs wild (drop (length u) t)" using glob_no_star [OF u(2)] by blast
  moreover have "suffix (drop (length u) t) s"
  proof -
    have "suffix t s0" using t(1) u(5) by (metis suffix_tl suffix_order.trans)
    then obtain v where "s0 = v @ t" by (auto simp: suffix_def)
    then have "s = drop (length u) (v @ t)" using u(3) by simp
    moreover have "suffix (drop (length u) t) (drop (length u) (v @ t))"
    proof -
      let ?k = "length u - length v"
      have "drop (length u) t = drop (length u - ?k) (drop ?k t)" by simp
      then have "suffix (drop (length u) t) (drop ?k t)" by (metis suffix_drop)
      then show ?thesis by (simp add: suffix_appendI)
    qed
    ultimately show ?thesis by simp
  qed
  ultimately show ?thesis by blast
qed

lemma wild_loop_glob:
  "on_track s wild mp cp \<Longrightarrow>
     wild_loop cs s wild mp cp \<longleftrightarrow> glob cs wild s \<or> glob cs (CHR ''*'' # mp) cp"
proof (induction cs s wild mp cp rule: wild_loop.induct)
  case (1 cs wild mp cp)
  have "wild_rest wild" if "glob cs (CHR ''*'' # mp) cp"
    using later_start_useless [OF 1 that] by (auto simp: glob_rest)
  then show ?case by (auto simp: glob_rest)
next
  case (2 cs c s wild mp cp)
  note turned = on_track_back [of cp mp]
  have retry: "glob cs mp cp \<or> glob cs (CHR ''*'' # mp) (tl cp) \<longleftrightarrow> glob cs (CHR ''*'' # mp) cp"
    by (cases cp) (auto simp: glob_star_Cons)
  show ?case
  proof (cases wild)
    case Nil
    then show ?thesis using 2(1) turned retry by simp
  next
    case (Cons w ws)
    show ?thesis
    proof (cases "w = CHR ''*''")
      case star: True
      have useless: "glob cs (CHR ''*'' # mp) cp \<Longrightarrow> glob cs wild (c # s)"
        using later_start_useless [OF 2(5)] Cons star by (auto dest: glob_star_mono)
      show ?thesis
      proof (cases "ws = []")
        case True
        have "glob cs [CHR ''*''] (c # s)" by (auto simp: glob_star)
        then show ?thesis using Cons star True by simp
      next
        case False
        have "on_track (c # s) ws ws s" using on_track_back [of "c # s" ws] by simp
        then show ?thesis
          using 2(2) [OF Cons star False] Cons star False useless by (auto simp: glob_star_Cons)
      qed
    next
      case other: False
      show ?thesis
      proof (cases "wild_eq cs w c \<or> w = CHR ''?''")
        case True
        then show ?thesis
          using 2(3) [OF Cons other True] on_track_step [of c s w ws mp cp] 2(5) Cons other
          by (auto simp: glob_other)
      next
        case False
        then show ?thesis
          using 2(4) [OF Cons other False] turned retry Cons other by (auto simp: glob_other)
      qed
    qed
  qed
qed

lemma wild_start_glob:
  "glob cs wild str \<longleftrightarrow>
     (case wild_start cs str wild of
        None \<Rightarrow> False
      | Some (s, w) \<Rightarrow> glob cs w s)"
  by (induction cs str wild rule: wild_start.induct) (auto simp: glob_other)

lemma wild_start_ends:
  "wild_start cs str wild = Some (s, w) \<Longrightarrow> s = [] \<or> (\<exists>ws. w = CHR ''*'' # ws)"
  by (induction cs str wild rule: wild_start.induct) (auto split: if_splits)

lemma wildcmp_glob: "wildcmp str wild cs \<longleftrightarrow> glob cs wild str"
proof (cases "wild_start cs str wild")
  case (Some p)
  obtain s w where p: "p = (s, w)" by force
  have "wild_loop cs s w wild str \<longleftrightarrow> glob cs w s"
  proof (cases s)
    case (Cons c s')
    then obtain ws where w: "w = CHR ''*'' # ws" using wild_start_ends Some p by blast
    have "on_track (c # s') ws ws s'" using on_track_back [of "c # s'" ws] by simp
    then show ?thesis
      using wild_loop_glob [of "c # s'" ws ws s' cs]
      by (auto simp: Cons w glob_star_Cons) (auto simp: glob_star)
  qed (simp add: glob_rest)
  then show ?thesis using wild_start_glob [of cs wild str] Some p by (simp add: wildcmp_def)
qed (use wild_start_glob [of cs wild str] in \<open>simp add: wildcmp_def\<close>)

text \<open>C23. A name passes a list of filters if and only if the list is empty and that counts as
  passing, or one of the filters matches it in the sense of wildcards; in particular the matcher,
  which goes back only to its last star, always ends and decides this.\<close>

theorem matchesAny_glob:
  "matchesAny nm filters matchEmpty cs \<longleftrightarrow>
     filters = [] \<and> matchEmpty \<or> list_ex (\<lambda>f. glob cs f nm) filters"
  by (auto simp: matchesAny_def wildcmp_glob)

end
