(* ===== verification/Doctest_Tests.thy ===== *)
theory Doctest_Tests
  imports Doctest_Filter "HOL-Library.List_Lexorder" "HOL-Library.Product_Lexorder"
    "HOL-Library.Multiset"
begin

text \<open>
  Test cases of the vendored test framework (\<open>external/doctest.h\<close>): their data, how a test case
  takes over the decorators of its suite, the comparators that \<open>std::sort\<close> and \<open>std::set\<close>
  use, and the order in which the tests run. \<open>std::sort\<close> and \<open>std::rand\<close> are parameters.
  A pointer to characters is an option; the comparators follow it as the code does.
\<close>

section \<open>Suites and cases\<close>

text \<open>The timeout is a \<open>double\<close>, kept as its bits.\<close>

record TestSuite =
  s_test_suite :: "string option"
  s_description :: "string option"
  s_skip :: bool
  s_no_breaks :: bool
  s_no_output :: bool
  s_may_fail :: bool
  s_should_fail :: bool
  s_expected_failures :: int
  s_timeout :: "64 word"

definition default_suite :: TestSuite where
  "default_suite =
     \<lparr>s_test_suite = None, s_description = None, s_skip = False, s_no_breaks = False,
      s_no_output = False, s_may_fail = False, s_should_fail = False, s_expected_failures = 0,
      s_timeout = 0\<rparr>"

definition suite_named :: "TestSuite \<Rightarrow> string \<Rightarrow> TestSuite" where
  "suite_named ts nm = ts\<lparr>s_test_suite := Some nm\<rparr>"

record TestCaseData =
  tc_file :: string
  tc_line :: "32 word"
  tc_name :: "string option"
  tc_test_suite :: "string option"
  tc_description :: "string option"
  tc_skip :: bool
  tc_no_breaks :: bool
  tc_no_output :: bool
  tc_may_fail :: bool
  tc_should_fail :: bool
  tc_expected_failures :: int
  tc_timeout :: "64 word"

record 'f TestCase = TestCaseData +
  tc_test :: 'f
  tc_type :: string
  tc_template_id :: int
  tc_full_name :: string

definition make_TestCase ::
    "'f \<Rightarrow> string \<Rightarrow> 32 word \<Rightarrow> TestSuite \<Rightarrow> string \<Rightarrow> int \<Rightarrow> 'f TestCase" where
  "make_TestCase test file ln test_suite type template_id =
     \<lparr>tc_file = file, tc_line = ln, tc_name = None, tc_test_suite = s_test_suite test_suite,
      tc_description = s_description test_suite, tc_skip = s_skip test_suite,
      tc_no_breaks = s_no_breaks test_suite, tc_no_output = s_no_output test_suite,
      tc_may_fail = s_may_fail test_suite, tc_should_fail = s_should_fail test_suite,
      tc_expected_failures = s_expected_failures test_suite, tc_timeout = s_timeout test_suite,
      tc_test = test, tc_type = type, tc_template_id = template_id, tc_full_name = []\<rparr>"

text \<open>Assignment: the data, then the name of a template instance from its own full name.\<close>

definition assign_TestCase :: "'f TestCase \<Rightarrow> 'f TestCase" where
  "assign_TestCase other =
     (if tc_template_id other \<noteq> - 1 then other\<lparr>tc_name := Some (tc_full_name other)\<rparr> else other)"

definition case_named :: "'f TestCase \<Rightarrow> string \<Rightarrow> 'f TestCase" where
  "case_named tc nm =
     (let tc = tc\<lparr>tc_name := Some nm\<rparr>
      in if tc_template_id tc \<noteq> - 1 then
           let tc = tc\<lparr>tc_full_name := nm @ ''<'' @ tc_type tc @ ''>''\<rparr>
           in tc\<lparr>tc_name := Some (tc_full_name tc)\<rparr>
         else tc)"

section \<open>Comparators\<close>

text \<open>\<open>TestCase::operator<\<close>, by which the set of registered tests tells them apart.\<close>

definition TestCase_less :: "'f TestCase \<Rightarrow> 'f TestCase \<Rightarrow> bool" where
  "TestCase_less a other =
     (if tc_line a \<noteq> tc_line other then tc_line a < tc_line other
      else
        let name_cmp = strcmp (the (tc_name a)) (the (tc_name other))
        in if name_cmp \<noteq> 0 then name_cmp < 0
           else
             let file_cmp = strcmp (tc_file a) (tc_file other)
             in if file_cmp \<noteq> 0 then file_cmp < 0
                else tc_template_id a < tc_template_id other)"

definition fileOrderComparator :: "'f TestCase \<Rightarrow> 'f TestCase \<Rightarrow> bool" where
  "fileOrderComparator lhs rhs =
     (let res = strcmp (tc_file lhs) (tc_file rhs)
      in if res \<noteq> 0 then res < 0
         else if tc_line lhs \<noteq> tc_line rhs then tc_line lhs < tc_line rhs
         else tc_template_id lhs < tc_template_id rhs)"

definition suiteOrderComparator :: "'f TestCase \<Rightarrow> 'f TestCase \<Rightarrow> bool" where
  "suiteOrderComparator lhs rhs =
     (let res = strcmp (the (tc_test_suite lhs)) (the (tc_test_suite rhs))
      in if res \<noteq> 0 then res < 0 else fileOrderComparator lhs rhs)"

definition nameOrderComparator :: "'f TestCase \<Rightarrow> 'f TestCase \<Rightarrow> bool" where
  "nameOrderComparator lhs rhs =
     (let res = strcmp (the (tc_name lhs)) (the (tc_name rhs))
      in if res \<noteq> 0 then res < 0 else suiteOrderComparator lhs rhs)"

section \<open>The order of the tests\<close>

text \<open>The shuffle; \<open>rnd k\<close> is the \<open>k\<close>-th value of \<open>std::rand\<close> after seeding.\<close>

fun shuffle_from :: "(nat \<Rightarrow> nat) \<Rightarrow> nat \<Rightarrow> nat \<Rightarrow> 'a list \<Rightarrow> 'a list" where
  "shuffle_from rnd k 0 xs = xs"
| "shuffle_from rnd k (Suc i) xs =
     (let idxToSwap = rnd k mod (Suc i + 1); temp = xs ! Suc i;
          xs = xs[Suc i := xs ! idxToSwap]; xs = xs[idxToSwap := temp]
      in shuffle_from rnd (Suc k) i xs)"

text \<open>\<open>sort\<close> and \<open>rand\<close> are the functions of the standard library.\<close>

definition order_tests ::
    "(('f TestCase \<Rightarrow> 'f TestCase \<Rightarrow> bool) \<Rightarrow> 'f TestCase list \<Rightarrow> 'f TestCase list) \<Rightarrow>
     (32 word \<Rightarrow> nat \<Rightarrow> nat) \<Rightarrow> string \<Rightarrow> 32 word \<Rightarrow> 'f TestCase list \<Rightarrow> 'f TestCase list" where
  "order_tests std_sort rand order_by rand_seed testArray =
     (if testArray = [] then []
      else if stricmp order_by ''file'' = 0 then std_sort fileOrderComparator testArray
      else if stricmp order_by ''suite'' = 0 then std_sort suiteOrderComparator testArray
      else if stricmp order_by ''name'' = 0 then std_sort nameOrderComparator testArray
      else if stricmp order_by ''rand'' = 0 then
        shuffle_from (rand rand_seed) 0 (length testArray - 1) testArray
      else testArray)"

section \<open>The comparators are orders\<close>

text \<open>
  What \<open>std::sort\<close> and \<open>std::set\<close> require of a comparator is that it orders by some key.
\<close>

locale key_comparator =
  fixes cmp :: "'a \<Rightarrow> 'a \<Rightarrow> bool" and key :: "'a \<Rightarrow> 'k :: linorder"
  assumes cmp_key: "cmp a b \<longleftrightarrow> key a < key b"
begin

definition equivalent :: "'a \<Rightarrow> 'a \<Rightarrow> bool" where
  "equivalent a b \<longleftrightarrow> \<not> cmp a b \<and> \<not> cmp b a"

lemma irreflexive: "\<not> cmp a a"
  by (simp add: cmp_key)

lemma transitive: "cmp a b \<Longrightarrow> cmp b c \<Longrightarrow> cmp a c"
  by (auto simp: cmp_key)

lemma equivalent_iff: "equivalent a b \<longleftrightarrow> key a = key b"
  by (auto simp: equivalent_def cmp_key)

lemma trichotomy: "cmp a b \<or> cmp b a \<or> key a = key b"
  by (auto simp: cmp_key)

lemma strict_weak_order:
  "\<not> cmp a a \<and> (cmp a b \<and> cmp b c \<longrightarrow> cmp a c) \<and>
   (\<not> cmp a b \<and> \<not> cmp b a \<and> \<not> cmp b c \<and> \<not> cmp c b \<longrightarrow> \<not> cmp a c \<and> \<not> cmp c a)"
  by (auto simp: cmp_key)

end

lemma strcmp_less: "strcmp xs ys < 0 \<longleftrightarrow> map uchar xs < map uchar ys"
  by (simp add: strcmp_less_iff list_less_def)

lemma strcmp_equal: "strcmp xs ys = 0 \<longleftrightarrow> map uchar xs = map uchar ys"
  unfolding strcmp_zero_iff by (rule inj_map_eq_map [symmetric]) (simp add: inj_def uchar_eq_iff)

type_synonym text_key = "int list"

definition file_key :: "'f TestCase \<Rightarrow> text_key \<times> 32 word \<times> int" where
  "file_key t = (map uchar (tc_file t), tc_line t, tc_template_id t)"

definition suite_key :: "'f TestCase \<Rightarrow> text_key \<times> text_key \<times> 32 word \<times> int" where
  "suite_key t = (map uchar (the (tc_test_suite t)), file_key t)"

definition name_key :: "'f TestCase \<Rightarrow> text_key \<times> text_key \<times> text_key \<times> 32 word \<times> int" where
  "name_key t = (map uchar (the (tc_name t)), suite_key t)"

definition identity_key :: "'f TestCase \<Rightarrow> 32 word \<times> text_key \<times> text_key \<times> int" where
  "identity_key t = (tc_line t, map uchar (the (tc_name t)), map uchar (tc_file t), tc_template_id t)"

interpretation by_file: key_comparator fileOrderComparator file_key
  by unfold_locales
    (auto simp: fileOrderComparator_def file_key_def Let_def strcmp_less strcmp_equal less_prod_def')

interpretation by_suite: key_comparator suiteOrderComparator suite_key
  by unfold_locales
    (auto simp: suiteOrderComparator_def suite_key_def Let_def strcmp_less strcmp_equal
      by_file.cmp_key less_prod_def')

interpretation by_name: key_comparator nameOrderComparator name_key
  by unfold_locales
    (auto simp: nameOrderComparator_def name_key_def Let_def strcmp_less strcmp_equal
      by_suite.cmp_key less_prod_def')

interpretation by_identity: key_comparator TestCase_less identity_key
  by unfold_locales
    (auto simp: TestCase_less_def identity_key_def Let_def strcmp_less strcmp_equal less_prod_def')

section \<open>Every order is a permutation\<close>

lemma shuffle_from_perm: "i < length xs \<Longrightarrow> mset (shuffle_from rnd k i xs) = mset xs"
proof (induction rnd k i xs rule: shuffle_from.induct)
  case (2 rnd k i xs)
  let ?j = "rnd k mod (Suc i + 1)"
  let ?ys = "xs[Suc i := xs ! ?j, ?j := xs ! Suc i]"
  have "?j < Suc i + 1" by (rule mod_less_divisor) simp
  with 2(2) have "?j < length xs" by linarith
  then have "mset ?ys = mset xs" using 2(2) by (intro mset_swap) auto
  then show ?case using 2(1) [OF refl refl refl refl] 2(2) by (simp add: Let_def)
qed simp

definition strict_weak :: "('a \<Rightarrow> 'a \<Rightarrow> bool) \<Rightarrow> bool" where
  "strict_weak cmp \<longleftrightarrow>
     (\<forall>a b c. \<not> cmp a a \<and> (cmp a b \<and> cmp b c \<longrightarrow> cmp a c) \<and>
        (\<not> cmp a b \<and> \<not> cmp b a \<and> \<not> cmp b c \<and> \<not> cmp c b \<longrightarrow> \<not> cmp a c \<and> \<not> cmp c a))"

lemma comparators_strict_weak:
  "strict_weak fileOrderComparator" "strict_weak suiteOrderComparator"
  "strict_weak nameOrderComparator" "strict_weak TestCase_less"
  unfolding strict_weak_def
  using by_file.strict_weak_order by_suite.strict_weak_order by_name.strict_weak_order
    by_identity.strict_weak_order by blast+

text \<open>What the standard promises of \<open>std::sort\<close> for a strict weak order.\<close>

definition in_order :: "('a \<Rightarrow> 'a \<Rightarrow> bool) \<Rightarrow> 'a list \<Rightarrow> bool" where
  "in_order cmp xs \<longleftrightarrow> sorted_wrt (\<lambda>a b. \<not> cmp b a) xs"

definition sorts :: "(('a \<Rightarrow> 'a \<Rightarrow> bool) \<Rightarrow> 'a list \<Rightarrow> 'a list) \<Rightarrow> bool" where
  "sorts std_sort \<longleftrightarrow>
     (\<forall>cmp xs. strict_weak cmp \<longrightarrow> mset (std_sort cmp xs) = mset xs \<and> in_order cmp (std_sort cmp xs))"

lemma order_tests_perm:
  assumes "sorts std_sort"
  shows "mset (order_tests std_sort rand order_by seed ts) = mset ts"
  using assms comparators_strict_weak by (auto simp: order_tests_def sorts_def shuffle_from_perm)


section \<open>A sorting function\<close>

fun insert_by :: "('a \<Rightarrow> 'a \<Rightarrow> bool) \<Rightarrow> 'a \<Rightarrow> 'a list \<Rightarrow> 'a list" where
  "insert_by cmp x [] = [x]"
| "insert_by cmp x (y # ys) = (if cmp y x then y # insert_by cmp x ys else x # y # ys)"

definition insertion_sort :: "('a \<Rightarrow> 'a \<Rightarrow> bool) \<Rightarrow> 'a list \<Rightarrow> 'a list" where
  "insertion_sort cmp xs = foldr (insert_by cmp) xs []"

lemma mset_insert_by [simp]: "mset (insert_by cmp x xs) = add_mset x (mset xs)"
  by (induction xs) auto

lemma in_order_insert_by:
  assumes "strict_weak cmp" "in_order cmp xs"
  shows "in_order cmp (insert_by cmp x xs)"
  using assms(2)
proof (induction xs)
  case (Cons y ys)
  have set: "set (insert_by cmp x ys) = insert x (set ys)"
    by (metis mset_insert_by set_mset_add_mset_insert set_mset_mset)
  have "\<not> cmp y x \<Longrightarrow> \<not> cmp z y \<Longrightarrow> \<not> cmp z x" for z
    using assms(1) unfolding strict_weak_def by metis
  moreover have "cmp y x \<Longrightarrow> \<not> cmp x y" using assms(1) unfolding strict_weak_def by metis
  ultimately show ?case using Cons by (auto simp: in_order_def set)
qed (simp add: in_order_def)

lemma insertion_sort_sorts: "sorts insertion_sort"
proof -
  have "mset (insertion_sort cmp xs) = mset xs" for cmp :: "'a \<Rightarrow> 'a \<Rightarrow> bool" and xs
    by (induction xs) (simp_all add: insertion_sort_def)
  moreover have "in_order cmp (insertion_sort cmp xs)" if "strict_weak cmp" for cmp :: "'a \<Rightarrow> 'a \<Rightarrow> bool" and xs
  proof (induction xs)
    case (Cons x xs)
    then show ?case using in_order_insert_by [OF that] by (simp add: insertion_sort_def)
  qed (simp add: insertion_sort_def in_order_def)
  ultimately show ?thesis by (simp add: sorts_def)
qed

definition sample_case :: "string \<Rightarrow> 32 word \<Rightarrow> nat TestCase" where
  "sample_case nm ln = case_named (make_TestCase 0 ''t.cpp'' ln default_suite [] (- 1)) nm"


end
