(* ===== verification/Doctest_Context.thy ===== *)
theory Doctest_Context
  imports Doctest_Tests
begin

text \<open>
  The state of a test run in the vendored test framework (\<open>external/doctest.h\<close>,
  \<open>ContextOptions\<close> to \<open>ContextState\<close>): options, statistics, the counters that threads share
  without contention, and the verdict on a test case. Counters are mathematical integers (their
  overflow is undefined in the code); the elapsed time enters only as whether the time limit was
  exceeded, a comparison of floating-point numbers that is an argument.
\<close>

section \<open>State\<close>

record ContextOptions =
  o_binary_name :: string
  o_currentTest :: "TestCaseData option"
  o_out :: string
  o_order_by :: string
  o_rand_seed :: "32 word"
  o_first :: "32 word"
  o_last :: "32 word"
  o_abort_after :: int
  o_subcase_filter_levels :: int
  o_success :: bool
  o_case_sensitive :: bool
  o_exit :: bool
  o_duration :: bool
  o_minimal :: bool
  o_quiet :: bool
  o_no_throw :: bool
  o_no_exitcode :: bool
  o_no_run :: bool
  o_no_intro :: bool
  o_no_version :: bool
  o_no_colors :: bool
  o_force_colors :: bool
  o_no_breaks :: bool
  o_no_skip :: bool
  o_gnu_file_line :: bool
  o_no_path_in_filenames :: bool
  o_no_line_numbers :: bool
  o_no_debug_output :: bool
  o_no_skipped_summary :: bool
  o_no_time_in_output :: bool
  o_help :: bool
  o_version :: bool
  o_count :: bool
  o_list_test_cases :: bool
  o_list_test_suites :: bool
  o_list_reporters :: bool

record TestRunStats = ContextOptions +
  numTestCases :: "32 word"
  numTestCasesPassingFilters :: "32 word"
  numTestSuitesPassingFilters :: "32 word"
  numTestCasesFailed :: "32 word"
  numAsserts :: int
  numAssertsFailed :: int

record CurrentTestCaseStats = TestRunStats +
  numAssertsCurrentTest :: int
  numAssertsFailedCurrentTest :: int
  failure_flags :: "32 word"
  testCaseSuccess :: bool

section \<open>What the reporters are told\<close>

type_synonym assertType = "32 word"

text \<open>An expected exception text: the whole text or a part of it.\<close>

datatype StringContains = Equals string | Contains_text string

record AssertData =
  ad_test_case :: "TestCaseData option"
  ad_at :: assertType
  ad_file :: string
  ad_line :: int
  ad_expr :: string
  ad_failed :: bool
  ad_threw :: bool
  ad_exception :: string
  ad_decomp :: string
  ad_threw_as :: bool
  ad_exception_type :: string
  ad_exception_string :: StringContains

record MessageData =
  md_string :: string
  md_file :: string
  md_line :: int
  md_severity :: assertType

text \<open>
  A call of a method of \<open>IReporter\<close>, with its arguments. An assertion or a message comes with the
  texts of the contexts (\<open>INFO\<close>) that are active, an exception with those that were left by
  exceptions, which the reporters ask for.
\<close>

datatype reporter_event =
    Report_query "TestCaseData list" "TestRunStats option"
  | Test_run_start
  | Test_run_end TestRunStats
  | Test_case_start TestCaseData
  | Test_case_reenter TestCaseData
  | Test_case_end CurrentTestCaseStats
  | Test_case_exception string bool "string list"
  | Subcase_start SubcaseSignature
  | Subcase_end
  | Log_assert AssertData "string list"
  | Log_message MessageData "string list"
  | Test_case_skipped TestCaseData

text \<open>The state of a run. Instead of the reporters there are the calls they have got.\<close>

record ContextState = CurrentTestCaseStats +
  numAssertsCurrentTest_atomic :: "int list"
  numAssertsFailedCurrentTest_atomic :: "int list"
  filters :: "string list list"
  reported :: "reporter_event list"
  stringifiedContexts :: "string list"
  reachedLeaf :: bool
  subcaseStack :: "SubcaseSignature list"
  nextSubcaseStack :: "SubcaseSignature list"
  fullyTraversedSubcases :: "hash list"
  currentSubcaseDepth :: nat
  shouldLogCurrentException :: bool

definition report_event :: "reporter_event \<Rightarrow> ContextState \<Rightarrow> ContextState" where
  "report_event e p = p\<lparr>reported := reported p @ [e]\<rparr>"

section \<open>Counters with many lanes\<close>

definition fetch_add :: "nat \<Rightarrow> int \<Rightarrow> int list \<Rightarrow> int \<times> int list" where
  "fetch_add lane arg atomics = (atomics ! lane, atomics[lane := atomics ! lane + arg])"

definition fetch_sub :: "nat \<Rightarrow> int \<Rightarrow> int list \<Rightarrow> int \<times> int list" where
  "fetch_sub lane arg atomics = (atomics ! lane, atomics[lane := atomics ! lane - arg])"

definition pre_increment :: "nat \<Rightarrow> int list \<Rightarrow> int \<times> int list" where
  "pre_increment lane atomics = (let (v, atomics) = fetch_add lane 1 atomics in (v + 1, atomics))"

definition post_increment :: "nat \<Rightarrow> int list \<Rightarrow> int \<times> int list" where
  "post_increment lane atomics = fetch_add lane 1 atomics"

definition load :: "int list \<Rightarrow> int" where
  "load atomics = foldl (\<lambda>result c. result + c) 0 atomics"

fun store_lanes :: "int \<Rightarrow> int list \<Rightarrow> int list" where
  "store_lanes desired [] = []"
| "store_lanes desired (c # cs) = desired # store_lanes 0 cs"

definition store_all :: "int \<Rightarrow> int list \<Rightarrow> int list" where
  "store_all desired atomics = store_lanes desired atomics"

text \<open>The lane of a thread: the counter of threads at its first use, modulo the number of lanes.\<close>

definition lanes :: nat where
  "lanes = 32"

definition lane_of :: "nat \<Rightarrow> nat \<times> nat" where
  "lane_of laneCounter = (laneCounter mod lanes, laneCounter + 1)"

text \<open>A load while other threads add: before the lane is read, the additions that come first.\<close>

definition additions :: "(nat \<times> int) list \<Rightarrow> int list \<Rightarrow> int list" where
  "additions adds atomics = fold (\<lambda>(lane, arg) a. snd (fetch_add lane arg a)) adds atomics"

fun load_among :: "(nat \<times> int) list list \<Rightarrow> nat \<Rightarrow> int \<Rightarrow> int list \<Rightarrow> int \<times> int list" where
  "load_among [] lane result atomics = (result, atomics)"
| "load_among (adds # rest) lane result atomics =
     (let atomics = additions adds atomics
      in load_among rest (lane + 1) (result + atomics ! lane) atomics)"

section \<open>Failure reasons\<close>

datatype failure_reason =
    AssertFailure | ExceptionFailure | Crash | TooManyFailedAsserts | Timeout
  | ShouldHaveFailedButDidnt | ShouldHaveFailedAndDid | DidntFailExactlyNumTimes
  | FailedExactlyNumTimes | CouldHaveFailedAndDid

fun reason_flag :: "failure_reason \<Rightarrow> 32 word" where
  "reason_flag AssertFailure = 1"
| "reason_flag ExceptionFailure = 2"
| "reason_flag Crash = 4"
| "reason_flag TooManyFailedAsserts = 8"
| "reason_flag Timeout = 16"
| "reason_flag ShouldHaveFailedButDidnt = 32"
| "reason_flag ShouldHaveFailedAndDid = 64"
| "reason_flag DidntFailExactlyNumTimes = 128"
| "reason_flag FailedExactlyNumTimes = 256"
| "reason_flag CouldHaveFailedAndDid = 512"

definition add_flag :: "failure_reason \<Rightarrow> 32 word \<Rightarrow> 32 word" where
  "add_flag r flags = flags OR reason_flag r"

definition has_flag :: "failure_reason \<Rightarrow> 32 word \<Rightarrow> bool" where
  "has_flag r flags \<longleftrightarrow> reason_flag r AND flags \<noteq> 0"

section \<open>Resetting and finalizing\<close>

definition resetRunData :: "ContextState \<Rightarrow> ContextState" where
  "resetRunData p =
     p\<lparr>numTestCases := 0, numTestCasesPassingFilters := 0, numTestSuitesPassingFilters := 0,
       numTestCasesFailed := 0, numAsserts := 0, numAssertsFailed := 0,
       numAssertsCurrentTest := 0, numAssertsFailedCurrentTest := 0\<rparr>"

text \<open>\<open>timed_out\<close>: the test has a time limit and the elapsed time is above it.\<close>

definition final_flags :: "bool \<Rightarrow> TestCaseData \<Rightarrow> int \<Rightarrow> 32 word \<Rightarrow> 32 word" where
  "final_flags timed_out tc failed flags =
     (let flags = (if failed \<noteq> 0 then add_flag AssertFailure flags else flags);
          flags = (if timed_out then add_flag Timeout flags else flags)
      in if tc_should_fail tc then
           (if flags \<noteq> 0 then add_flag ShouldHaveFailedAndDid flags
            else add_flag ShouldHaveFailedButDidnt flags)
         else if flags \<noteq> 0 \<and> tc_may_fail tc then add_flag CouldHaveFailedAndDid flags
         else if tc_expected_failures tc > 0 then
           (if failed = tc_expected_failures tc then add_flag FailedExactlyNumTimes flags
            else add_flag DidntFailExactlyNumTimes flags)
         else flags)"

definition finalizeTestCaseData :: "bool \<Rightarrow> ContextState \<Rightarrow> ContextState" where
  "finalizeTestCaseData timed_out p =
     (let p = p\<lparr>numAsserts := numAsserts p + load (numAssertsCurrentTest_atomic p)\<rparr>;
          p = p\<lparr>numAssertsFailed := numAssertsFailed p + load (numAssertsFailedCurrentTest_atomic p)\<rparr>;
          p = p\<lparr>numAssertsCurrentTest := load (numAssertsCurrentTest_atomic p)\<rparr>;
          p = p\<lparr>numAssertsFailedCurrentTest := load (numAssertsFailedCurrentTest_atomic p)\<rparr>;
          p = p\<lparr>failure_flags := final_flags timed_out (the (o_currentTest p))
                  (numAssertsFailedCurrentTest p) (failure_flags p)\<rparr>;
          ok_to_fail = has_flag ShouldHaveFailedAndDid (failure_flags p) \<or>
            has_flag CouldHaveFailedAndDid (failure_flags p) \<or>
            has_flag FailedExactlyNumTimes (failure_flags p);
          p = p\<lparr>testCaseSuccess := \<not> (failure_flags p \<noteq> 0 \<and> \<not> ok_to_fail)\<rparr>
      in if \<not> testCaseSuccess p then p\<lparr>numTestCasesFailed := numTestCasesFailed p + 1\<rparr> else p)"

section \<open>The counters\<close>

lemma load_sum_list: "load atomics = sum_list atomics"
proof -
  have "foldl (\<lambda>result c. result + c) r xs = r + sum_list xs" for r :: int and xs
    by (induction xs arbitrary: r) auto
  then show ?thesis by (simp add: load_def)
qed

lemma load_store_all: "atomics \<noteq> [] \<Longrightarrow> load (store_all desired atomics) = desired"
proof -
  have "sum_list (store_lanes 0 cs) = 0" for cs by (induction cs) auto
  then show "atomics \<noteq> [] \<Longrightarrow> load (store_all desired atomics) = desired"
    by (cases atomics) (auto simp: load_sum_list store_all_def)
qed

lemma sum_list_changed: "k < length xs \<Longrightarrow> sum_list (xs[k := xs ! k + d]) = sum_list xs + (d :: int)"
  by (induction xs arbitrary: k) (auto split: nat.split)

lemma load_fetch_add: "lane < length atomics \<Longrightarrow> load (snd (fetch_add lane arg atomics)) = load atomics + arg"
  by (simp add: load_sum_list fetch_add_def sum_list_changed)

lemma load_fetch_sub: "lane < length atomics \<Longrightarrow> load (snd (fetch_sub lane arg atomics)) = load atomics - arg"
  using sum_list_changed [of lane atomics "- arg"] by (simp add: load_sum_list fetch_sub_def)

lemma length_additions [simp]: "length (additions adds atomics) = length atomics"
  by (induction adds arbitrary: atomics) (auto simp: additions_def fetch_add_def)

lemma additions_Cons: "additions ((lane, arg) # adds) atomics = additions adds (snd (fetch_add lane arg atomics))"
  by (simp add: additions_def)

definition counting :: "nat \<Rightarrow> (nat \<times> int) list \<Rightarrow> bool" where
  "counting n adds \<longleftrightarrow> (\<forall>(lane, arg) \<in> set adds. lane < n \<and> 0 \<le> arg)"

lemma additions_grow:
  assumes "counting (length atomics) adds"
  shows "k < length atomics \<Longrightarrow> atomics ! k \<le> additions adds atomics ! k"
  using assms
proof (induction adds arbitrary: atomics)
  case (Cons a adds)
  obtain lane arg where a: "a = (lane, arg)" by force
  let ?b = "snd (fetch_add lane arg atomics)"
  have "counting (length ?b) adds" "k < length ?b" "lane < length atomics" "0 \<le> arg"
    using Cons.prems by (auto simp: counting_def a fetch_add_def)
  then have "?b ! k \<le> additions adds ?b ! k" "atomics ! k \<le> ?b ! k"
    using Cons.IH [of ?b] by (auto simp: fetch_add_def nth_list_update)
  then show ?case by (simp add: a additions_Cons)
qed (simp add: additions_def)

lemma sum_list_grow:
  assumes "length xs = length ys" "\<And>k. k < length xs \<Longrightarrow> xs ! k \<le> ys ! k"
  shows "sum_list xs \<le> sum_list (ys :: int list)"
  using assms
proof (induction xs ys rule: list_induct2)
  case (Cons x xs y ys)
  then show ?case using Cons.prems [of 0] Cons.prems [of "Suc k" for k] by (auto intro!: add_mono)
qed simp

text \<open>The lanes not yet read only grow, and so do those already read.\<close>

lemma load_among_bounds:
  assumes "\<forall>adds \<in> set sched. counting (length atomics) adds" "lane + length sched = length atomics"
    and "load_among sched lane result atomics = (v, final)"
  shows "result + sum_list (drop lane atomics) \<le> v \<and> v \<le> result + sum_list (drop lane final) \<and>
    length final = length atomics \<and> (\<forall>k < length atomics. atomics ! k \<le> final ! k)"
  using assms
proof (induction sched lane result atomics rule: load_among.induct)
  case (1 lane result atomics)
  then show ?case by simp
next
  case (2 adds rest lane result atomics)
  let ?a = "additions adds atomics"
  have lane: "lane < length ?a" using 2(3) by simp
  have grow: "\<And>k. k < length atomics \<Longrightarrow> atomics ! k \<le> ?a ! k"
    using additions_grow 2(2) by simp
  have IH: "result + ?a ! lane + sum_list (drop (lane + 1) ?a) \<le> v"
    "v \<le> result + ?a ! lane + sum_list (drop (lane + 1) final)"
    "length final = length ?a" "\<And>k. k < length ?a \<Longrightarrow> ?a ! k \<le> final ! k"
    using 2(1) [of ?a] 2(2,3,4) by (auto simp: Let_def)
  have "drop lane ?a = ?a ! lane # drop (lane + 1) ?a" "drop lane final = final ! lane # drop (lane + 1) final"
    using lane IH(3) by (simp_all add: Cons_nth_drop_Suc)
  moreover have "sum_list (drop lane atomics) \<le> sum_list (drop lane ?a)"
    using grow by (intro sum_list_grow) auto
  moreover have "?a ! lane \<le> final ! lane" using IH(4) lane by simp
  ultimately show ?case using IH grow by force
qed

text \<open>A load that runs while other threads add to their lanes gives a value between the sum at
  its start and the sum at its end; with no other thread it is exact, also after a store.\<close>

theorem load_among_between:
  assumes "length sched = length atomics" "\<forall>adds \<in> set sched. counting (length atomics) adds"
    and "load_among sched 0 0 atomics = (v, final)"
  shows "load atomics \<le> v \<and> v \<le> load final"
  using load_among_bounds [of sched atomics 0 0 v final] assms by (simp add: load_sum_list)

theorem load_among_between_witness:
  "fst (load_among [[(1, 5)], [], [(0, 7)]] 0 0 [1, 2, 3]) = 11 \<and>
   load [1, 2, 3] \<le> 11 \<and> 11 \<le> load (snd (load_among [[(1, 5)], [], [(0, 7)]] 0 0 [1, 2, 3]))"
proof -
  have run: "load_among [[(1, 5)], [], [(0, 7)]] 0 0 [1, 2, 3] = (11, [8, 7, 3])" by code_simp
  have "\<forall>adds \<in> set [[(1, 5)], [], [(0, 7)]]. counting (length [1 :: int, 2, 3]) adds"
    by (simp add: counting_def)
  from load_among_between [OF _ this run] run show ?thesis by simp
qed

section \<open>The verdict\<close>

fun reason_index :: "failure_reason \<Rightarrow> nat" where
  "reason_index AssertFailure = 0"
| "reason_index ExceptionFailure = 1"
| "reason_index Crash = 2"
| "reason_index TooManyFailedAsserts = 3"
| "reason_index Timeout = 4"
| "reason_index ShouldHaveFailedButDidnt = 5"
| "reason_index ShouldHaveFailedAndDid = 6"
| "reason_index DidntFailExactlyNumTimes = 7"
| "reason_index FailedExactlyNumTimes = 8"
| "reason_index CouldHaveFailedAndDid = 9"

lemma reason_flag_push: "reason_flag r = push_bit (reason_index r) 1"
  by (cases r) simp_all

lemma reason_index_less: "reason_index r < 32"
  by (cases r) simp_all

lemma has_flag_iff: "has_flag r flags \<longleftrightarrow> bit flags (reason_index r)"
  unfolding has_flag_def reason_flag_push
  using reason_index_less [of r] by (simp add: bit_iff_and_push_bit_not_eq_0 and.commute)

lemma has_flag_add [simp]: "has_flag r (add_flag r' flags) \<longleftrightarrow> r = r' \<or> has_flag r flags"
proof -
  have "reason_index r = reason_index r' \<longleftrightarrow> r = r'" by (cases r; cases r') simp_all
  then show ?thesis
    using reason_index_less [of r]
    by (auto simp: has_flag_iff add_flag_def reason_flag_push bit_or_iff bit_push_bit_iff bit_1_iff bit_exp_iff)
qed

lemma add_flag_nonzero [simp]: "add_flag r flags \<noteq> 0"
proof
  assume "add_flag r flags = 0"
  moreover have "has_flag r (add_flag r flags)" by simp
  ultimately show False by (simp add: has_flag_def)
qed

definition excuses :: "failure_reason set" where
  "excuses = {ShouldHaveFailedAndDid, CouldHaveFailedAndDid, FailedExactlyNumTimes}"

definition verdict :: "TestCaseData \<Rightarrow> int \<Rightarrow> bool \<Rightarrow> bool" where
  "verdict tc failed bad \<longleftrightarrow>
     (if tc_should_fail tc then bad
      else if bad \<and> tc_may_fail tc then True
      else if tc_expected_failures tc > 0 then failed = tc_expected_failures tc
      else \<not> bad)"

lemma final_flags_verdict:
  assumes "\<forall>r \<in> excuses. \<not> has_flag r flags" "final = final_flags timed_out tc failed flags"
  shows "final = 0 \<or> has_flag ShouldHaveFailedAndDid final \<or> has_flag CouldHaveFailedAndDid final \<or>
    has_flag FailedExactlyNumTimes final \<longleftrightarrow> verdict tc failed (flags \<noteq> 0 \<or> failed \<noteq> 0 \<or> timed_out)"
  using assms(1) unfolding assms(2)
  by (auto simp: final_flags_def verdict_def excuses_def Let_def)

text \<open>C22. The verdict on a test case follows its decorators: one that should fail succeeds exactly
  when something went wrong; one that may fail always does; one with expected failures succeeds
  exactly when the number of failed assertions is the expected one, whatever else went wrong; any
  other succeeds when nothing did. The counters of the case are added to those of the run, and a
  failed case is counted once.\<close>

theorem finalize_verdict:
  assumes "\<forall>r \<in> excuses. \<not> has_flag r (failure_flags p)" and "o_currentTest p = Some tc"
    and "finalizeTestCaseData timed_out p = q"
    and "load (numAssertsFailedCurrentTest_atomic p) = failed"
  shows "(testCaseSuccess q \<longleftrightarrow> verdict tc failed (failure_flags p \<noteq> 0 \<or> failed \<noteq> 0 \<or> timed_out)) \<and>
    numTestCasesFailed q = numTestCasesFailed p + (if testCaseSuccess q then 0 else 1) \<and>
    numAsserts q = numAsserts p + load (numAssertsCurrentTest_atomic p) \<and>
    numAssertsFailed q = numAssertsFailed p + failed"
  using final_flags_verdict [OF assms(1) refl, of timed_out tc failed] assms(2)
  unfolding assms(3) [symmetric] assms(4) [symmetric]
  by (auto simp: finalizeTestCaseData_def Let_def)

text \<open>A state with everything off and empty.\<close>

definition blank_state :: ContextState where
  "blank_state =
     \<lparr>o_binary_name = [], o_currentTest = None, o_out = [], o_order_by = [], o_rand_seed = 0,
      o_first = 0, o_last = 0, o_abort_after = 0, o_subcase_filter_levels = 0,
      o_success = False, o_case_sensitive = False, o_exit = False, o_duration = False,
      o_minimal = False, o_quiet = False, o_no_throw = False, o_no_exitcode = False,
      o_no_run = False, o_no_intro = False, o_no_version = False, o_no_colors = False,
      o_force_colors = False, o_no_breaks = False, o_no_skip = False, o_gnu_file_line = False,
      o_no_path_in_filenames = False, o_no_line_numbers = False, o_no_debug_output = False,
      o_no_skipped_summary = False, o_no_time_in_output = False, o_help = False,
      o_version = False, o_count = False, o_list_test_cases = False,
      o_list_test_suites = False, o_list_reporters = False, numTestCases = 0,
      numTestCasesPassingFilters = 0, numTestSuitesPassingFilters = 0, numTestCasesFailed = 0,
      numAsserts = 0, numAssertsFailed = 0, numAssertsCurrentTest = 0,
      numAssertsFailedCurrentTest = 0, failure_flags = 0, testCaseSuccess = False,
      numAssertsCurrentTest_atomic = replicate lanes 0,
      numAssertsFailedCurrentTest_atomic = replicate lanes 0, filters = replicate 9 [], reported = [],
      stringifiedContexts = [], reachedLeaf = False, subcaseStack = [], nextSubcaseStack = [],
      fullyTraversedSubcases = [], currentSubcaseDepth = 0, shouldLogCurrentException = False\<rparr>"

definition may_fail_case :: TestCaseData where
  "may_fail_case =
     \<lparr>tc_file = [], tc_line = 1, tc_name = None, tc_test_suite = None, tc_description = None,
      tc_skip = False, tc_no_breaks = False, tc_no_output = False, tc_may_fail = True,
      tc_should_fail = False, tc_expected_failures = 0, tc_timeout = 0\<rparr>"

theorem finalize_verdict_witness:
  "testCaseSuccess (finalizeTestCaseData True (blank_state\<lparr>o_currentTest := Some may_fail_case,
     numAssertsFailedCurrentTest_atomic := [2, 0, 1]\<rparr>)) \<and>
   numAssertsFailed (finalizeTestCaseData True (blank_state\<lparr>o_currentTest := Some may_fail_case,
     numAssertsFailedCurrentTest_atomic := [2, 0, 1]\<rparr>)) = 3"
  using finalize_verdict [of "blank_state\<lparr>o_currentTest := Some may_fail_case,
      numAssertsFailedCurrentTest_atomic := [2, 0, 1]\<rparr>" may_fail_case True _ 3]
  by (simp add: blank_state_def has_flag_def may_fail_case_def verdict_def load_def)

end
