(* ===== verification/Doctest_Run.thy ===== *)
theory Doctest_Run
  imports Doctest_Context
begin

text \<open>
  Running tests in the vendored test framework (\<open>external/doctest.h\<close>): subcases, by which one
  test function is run once for each leaf of its tree of subcases, the loop around a test case, and
  the loop over all test cases (\<open>Context::run\<close>). A test function is a parameter: it changes the
  context and completes, fails an assertion, or throws an exception with some text; \<open>None\<close> is
  undefined behaviour. What the reporters are told is kept in the context. Signal handlers and the
  output stream are left out. Whether a test case took too long is an argument.
\<close>

section \<open>Subcases\<close>

definition signature_eq :: "SubcaseSignature \<Rightarrow> SubcaseSignature \<Rightarrow> bool" where
  "signature_eq a other \<longleftrightarrow>
     m_line a = m_line other \<and> strcmp (m_file a) (m_file other) = 0 \<and>
     strcmp (m_name a) (m_name other) = 0"

definition signature_less :: "SubcaseSignature \<Rightarrow> SubcaseSignature \<Rightarrow> bool" where
  "signature_less a other =
     (if m_line a \<noteq> m_line other then m_line a < m_line other
      else if strcmp (m_file a) (m_file other) \<noteq> 0 then strcmp (m_file a) (m_file other) < 0
      else strcmp (m_name a) (m_name other) < 0)"

text \<open>The conversion of the number of levels to an unsigned 64-bit number.\<close>

definition checkFilters :: "SubcaseSignature \<Rightarrow> ContextState \<Rightarrow> bool" where
  "checkFilters sig p \<longleftrightarrow>
     length (subcaseStack p) < unat (word_of_int (o_subcase_filter_levels p) :: 64 word) \<and>
     (\<not> matchesAny (m_name sig) (filters p ! 6) True (o_case_sensitive p) \<or>
      matchesAny (m_name sig) (filters p ! 7) False (o_case_sensitive p))"

text \<open>For evaluation, without a large natural number.\<close>

lemma checkFilters_code [code]:
  "checkFilters sig p \<longleftrightarrow>
     int (length (subcaseStack p)) < uint (word_of_int (o_subcase_filter_levels p) :: 64 word) \<and>
     (\<not> matchesAny (m_name sig) (filters p ! 6) True (o_case_sensitive p) \<or>
      matchesAny (m_name sig) (filters p ! 7) False (o_case_sensitive p))"
  unfolding checkFilters_def by (simp only: unat_eq_nat_uint zless_nat_eq_int_zless)

text \<open>
  The constructor of \<open>Subcase\<close>: whether the subcase is entered, and the context. Below the leaf
  that has been reached the code looks at the stack of subcases one past its end.
\<close>

definition Subcase_enter :: "SubcaseSignature \<Rightarrow> ContextState \<Rightarrow> (bool \<times> ContextState) option" where
  "Subcase_enter sig p =
     (if \<not> reachedLeaf p then
        if length (nextSubcaseStack p) \<le> length (subcaseStack p) \<or>
           signature_eq (nextSubcaseStack p ! length (subcaseStack p)) sig then
          if checkFilters sig p then Some (False, p)
          else Some (True, report_event (Subcase_start sig)
                             (p\<lparr>subcaseStack := subcaseStack p @ [sig],
                               currentSubcaseDepth := currentSubcaseDepth p + 1\<rparr>))
        else Some (False, p)
      else if currentSubcaseDepth p < length (subcaseStack p) then
        if signature_eq (subcaseStack p ! currentSubcaseDepth p) sig then
          Some (True, report_event (Subcase_start sig)
                        (p\<lparr>currentSubcaseDepth := currentSubcaseDepth p + 1\<rparr>))
        else if length (nextSubcaseStack p) \<le> currentSubcaseDepth p \<and>
            hash_combine (hash_prefix (subcaseStack p) (currentSubcaseDepth p)) (hash_signature sig)
              \<notin> set (fullyTraversedSubcases p) then
          if checkFilters sig p then Some (False, p)
          else Some (False, p\<lparr>nextSubcaseStack :=
                      take (currentSubcaseDepth p) (subcaseStack p) @ [sig]\<rparr>)
        else Some (False, p)
      else None)"

text \<open>The destructor; \<open>uncaught\<close>: an exception is passing.\<close>

definition exception_in_subcase :: string where
  "exception_in_subcase =
     ''exception thrown in subcase - will translate later when the whole test case has been exited '' @
     ''(cannot translate while there is an active exception)''"

definition Subcase_leave :: "bool \<Rightarrow> bool \<Rightarrow> ContextState \<Rightarrow> ContextState" where
  "Subcase_leave m_entered uncaught p =
     (if m_entered then
        let p = p\<lparr>currentSubcaseDepth := currentSubcaseDepth p - 1\<rparr>;
            p = (if \<not> reachedLeaf p then
                   p\<lparr>fullyTraversedSubcases :=
                       List.insert (hash_path (subcaseStack p)) (fullyTraversedSubcases p),
                     nextSubcaseStack := [], reachedLeaf := True\<rparr>
                 else if nextSubcaseStack p = [] then
                   p\<lparr>fullyTraversedSubcases :=
                       List.insert (hash_path (subcaseStack p)) (fullyTraversedSubcases p)\<rparr>
                 else p);
            p = (if uncaught \<and> shouldLogCurrentException p then
                   (report_event (Test_case_exception exception_in_subcase False (stringifiedContexts p)) p)
                     \<lparr>shouldLogCurrentException := False\<rparr>
                 else p)
        in report_event Subcase_end p
      else p)"

section \<open>One test case\<close>

datatype test_outcome = Completes | FailsAssertion | ThrowsException string

type_synonym test_function = "ContextState \<Rightarrow> (test_outcome \<times> ContextState) option"

definition start_pass :: "ContextState \<Rightarrow> ContextState" where
  "start_pass p =
     p\<lparr>reachedLeaf := False, subcaseStack := [], currentSubcaseDepth := 0,
       shouldLogCurrentException := True, stringifiedContexts := []\<rparr>"

text \<open>The body of the loop around a test function: whether to run it again, and the context.\<close>

definition test_pass :: "TestCaseData \<Rightarrow> test_function \<Rightarrow> ContextState \<Rightarrow> (bool \<times> ContextState) option" where
  "test_pass tc test p =
     (case test (start_pass p) of
        None \<Rightarrow> None
      | Some (outcome, p) \<Rightarrow>
          let p = (case outcome of
                     Completes \<Rightarrow> p
                   | FailsAssertion \<Rightarrow> p\<lparr>failure_flags := add_flag AssertFailure (failure_flags p)\<rparr>
                   | ThrowsException txts \<Rightarrow>
                       (report_event (Test_case_exception txts False (stringifiedContexts p)) p)
                         \<lparr>failure_flags := add_flag ExceptionFailure (failure_flags p)\<rparr>);
              too_many = (o_abort_after p > 0 \<and>
                o_abort_after p \<le> numAssertsFailed p + load (numAssertsFailedCurrentTest_atomic p));
              p = (if too_many
                   then p\<lparr>failure_flags := add_flag TooManyFailedAsserts (failure_flags p)\<rparr> else p);
              again = (\<not> too_many \<and> nextSubcaseStack p \<noteq> []);
              p = (if again then report_event (Test_case_reenter tc) p else p)
          in Some (again, p))"

partial_function (option) test_loop :: "TestCaseData \<Rightarrow> test_function \<Rightarrow> ContextState \<Rightarrow> ContextState option" where
  "test_loop tc test p =
     (case test_pass tc test p of
        None \<Rightarrow> None
      | Some (run_test, p) \<Rightarrow> if run_test then test_loop tc test p else Some p)"

declare test_loop.simps [code]

definition start_case :: "TestCaseData \<Rightarrow> ContextState \<Rightarrow> ContextState" where
  "start_case tc p =
     p\<lparr>o_currentTest := Some tc, failure_flags := 0,
       numAssertsFailedCurrentTest_atomic := store_all 0 (numAssertsFailedCurrentTest_atomic p),
       numAssertsCurrentTest_atomic := store_all 0 (numAssertsCurrentTest_atomic p),
       fullyTraversedSubcases := []\<rparr>"

definition end_case :: "bool \<Rightarrow> ContextState \<Rightarrow> ContextState" where
  "end_case timed_out p =
     (let p = finalizeTestCaseData timed_out p
      in (report_event (Test_case_end (CurrentTestCaseStats.truncate p)) p)\<lparr>o_currentTest := None\<rparr>)"

definition run_case :: "bool \<Rightarrow> test_function TestCase \<Rightarrow> ContextState \<Rightarrow> ContextState option" where
  "run_case timed_out tc p =
     (let t = TestCaseData.truncate tc
      in map_option (end_case timed_out)
           (test_loop t (tc_test tc) (report_event (Test_case_start t) (start_case t p))))"

section \<open>All test cases\<close>

definition filtered_out :: "ContextState \<Rightarrow> test_function TestCase \<Rightarrow> bool" where
  "filtered_out p tc \<longleftrightarrow>
     tc_skip tc \<and> \<not> o_no_skip p
     \<or> \<not> matchesAny (tc_file tc) (filters p ! 0) True (o_case_sensitive p)
     \<or> matchesAny (tc_file tc) (filters p ! 1) False (o_case_sensitive p)
     \<or> \<not> matchesAny (the (tc_test_suite tc)) (filters p ! 2) True (o_case_sensitive p)
     \<or> matchesAny (the (tc_test_suite tc)) (filters p ! 3) False (o_case_sensitive p)
     \<or> \<not> matchesAny (the (tc_name tc)) (filters p ! 4) True (o_case_sensitive p)
     \<or> matchesAny (the (tc_name tc)) (filters p ! 5) False (o_case_sensitive p)"

definition out_of_range :: "ContextState \<Rightarrow> bool" where
  "out_of_range p \<longleftrightarrow>
     o_last p < numTestCasesPassingFilters p \<and> o_first p \<le> o_last p \<or>
     o_first p > numTestCasesPassingFilters p"

definition query_mode :: "ContextState \<Rightarrow> bool" where
  "query_mode p \<longleftrightarrow> o_count p \<or> o_list_test_cases p \<or> o_list_test_suites p"

text \<open>What the loop keeps: the context, the cases to list, the suites listed so far.\<close>

record run_state =
  ctx :: ContextState
  queryResults :: "TestCaseData list"
  testSuitesPassingFilt :: "string list"

definition count_passing :: "test_function TestCase \<Rightarrow> run_state \<Rightarrow> run_state" where
  "count_passing tc s =
     (if \<not> filtered_out (ctx s) tc
      then s\<lparr>ctx := (ctx s)\<lparr>numTestCasesPassingFilters := numTestCasesPassingFilters (ctx s) + 1\<rparr>\<rparr>
      else s)"

definition list_suite :: "test_function TestCase \<Rightarrow> run_state \<Rightarrow> run_state" where
  "list_suite tc s =
     (let suite = the (tc_test_suite tc)
      in if suite \<notin> set (testSuitesPassingFilt s) \<and> suite \<noteq> [] then
           s\<lparr>queryResults := queryResults s @ [TestCaseData.truncate tc],
             testSuitesPassingFilt := suite # testSuitesPassingFilt s,
             ctx := (ctx s)\<lparr>numTestSuitesPassingFilters := numTestSuitesPassingFilters (ctx s) + 1\<rparr>\<rparr>
         else s)"

text \<open>
  The loop over the test cases; \<open>too_slow\<close> says which ones exceed their time limit, and
  \<open>query\<close> whether the run has started as a query.
\<close>

fun run_tests ::
    "(TestCaseData \<Rightarrow> bool) \<Rightarrow> bool \<Rightarrow> test_function TestCase list \<Rightarrow> run_state \<Rightarrow> run_state option" where
  "run_tests too_slow query [] s = Some s"
| "run_tests too_slow query (tc # tcs) s =
     (let skip_me = filtered_out (ctx s) tc;
          s = count_passing tc s;
          skip_me = (skip_me \<or> out_of_range (ctx s))
      in if skip_me then
           run_tests too_slow query tcs
             (if query then s
              else s\<lparr>ctx := report_event (Test_case_skipped (TestCaseData.truncate tc)) (ctx s)\<rparr>)
         else if o_count (ctx s) then run_tests too_slow query tcs s
         else if o_list_test_cases (ctx s) then
           run_tests too_slow query tcs (s\<lparr>queryResults := queryResults s @ [TestCaseData.truncate tc]\<rparr>)
         else if o_list_test_suites (ctx s) then
           run_tests too_slow query tcs (list_suite tc s)
         else
           (case run_case (too_slow (TestCaseData.truncate tc)) tc (ctx s) of
              None \<Rightarrow> None
            | Some p \<Rightarrow>
                if o_abort_after p > 0 \<and> o_abort_after p \<le> numAssertsFailed p then Some (s\<lparr>ctx := p\<rparr>)
                else run_tests too_slow query tcs (s\<lparr>ctx := p\<rparr>)))"

definition exit_code :: "ContextState \<Rightarrow> int" where
  "exit_code p = (if numTestCasesFailed p \<noteq> 0 \<and> \<not> o_no_exitcode p then 1 else 0)"

definition default_reporter :: "ContextState \<Rightarrow> ContextState" where
  "default_reporter p =
     (if filters p ! 8 = [] then p\<lparr>filters := (filters p)[8 := [''console'']]\<rparr> else p)"

text \<open>The last report, and the whole run without the streams; \<open>testArray\<close> gives the tests in
  their order.\<close>

definition report_results :: "bool \<Rightarrow> run_state \<Rightarrow> run_state" where
  "report_results query s =
     s\<lparr>ctx := (if query
              then report_event (Report_query (queryResults s) (Some (TestRunStats.truncate (ctx s)))) (ctx s)
              else report_event (Test_run_end (TestRunStats.truncate (ctx s))) (ctx s))\<rparr>"

definition start_run :: "ContextState \<Rightarrow> ContextState" where
  "start_run p = (default_reporter (resetRunData p))\<lparr>reported := []\<rparr>"

definition only_asks :: "ContextState \<Rightarrow> bool" where
  "only_asks p \<longleftrightarrow> o_no_run p \<or> o_version p \<or> o_help p \<or> o_list_reporters p"

definition run_context ::
    "(TestCaseData \<Rightarrow> bool) \<Rightarrow> (ContextState \<Rightarrow> test_function TestCase list) \<Rightarrow> ContextState \<Rightarrow>
     (int \<times> run_state) option" where
  "run_context too_slow testArray p =
     (let p = start_run p
      in if only_asks p
         then Some (exit_code p, \<lparr>ctx = report_event (Report_query [] None) p, queryResults = [],
                                  testSuitesPassingFilt = []\<rparr>)
         else
           let tests = testArray p; p = p\<lparr>numTestCases := of_nat (length tests)\<rparr>;
               query = query_mode p;
               p = (if query then p else report_event Test_run_start p)
           in map_option (\<lambda>s. let s = report_results query s in (exit_code (ctx s), s))
                (run_tests too_slow query tests \<lparr>ctx = p, queryResults = [], testSuitesPassingFilt = []\<rparr>))"

end
