(* ===== verification/Doctest_Subcases.thy ===== *)
theory Doctest_Subcases
  imports Doctest_Run
begin

text \<open>
  Test functions that are trees of subcases (the \<open>SUBCASE\<close> macro of \<open>external/doctest.h\<close>), and
  what the loop around a test function does with them: one run for each leaf. The lemmas of the
  second section follow one run down to its leaf and back; those of the third relate the leaves to
  the stack by which the next run finds its way.
\<close>

section \<open>A test function that is a tree of subcases\<close>

datatype subcase = Sub SubcaseSignature "subcase list"

fun sig_of :: "subcase \<Rightarrow> SubcaseSignature" where
  "sig_of (Sub s b) = s"

text \<open>The function enters its subcases one after the other, as the macro does.\<close>

fun run_subcases :: "subcase list \<Rightarrow> ContextState \<Rightarrow> ContextState option" where
  "run_subcases [] p = Some p"
| "run_subcases (Sub s b # rest) p =
     (case Subcase_enter s p of
        None \<Rightarrow> None
      | Some (entered, p) \<Rightarrow>
          (case (if entered then run_subcases b p else Some p) of
             None \<Rightarrow> None
           | Some p \<Rightarrow> run_subcases rest (Subcase_leave entered False p)))"

definition tree_test :: "subcase list \<Rightarrow> test_function" where
  "tree_test t p = map_option (\<lambda>p. (Completes, p)) (run_subcases t p)"

text \<open>Its leaves, as paths of signatures; a function without subcases has one, the empty path.\<close>

fun sub_leaves :: "subcase list \<Rightarrow> SubcaseSignature list list" where
  "sub_leaves [] = []"
| "sub_leaves (Sub s b # rest) =
     map ((#) s) (if b = [] then [[]] else sub_leaves b) @ sub_leaves rest"

definition leaf_paths :: "subcase list \<Rightarrow> SubcaseSignature list list" where
  "leaf_paths t = (if t = [] then [[]] else sub_leaves t)"

fun distinct_siblings :: "subcase list \<Rightarrow> bool" where
  "distinct_siblings [] = True"
| "distinct_siblings (Sub s b # rest) \<longleftrightarrow>
     s \<notin> sig_of ` set rest \<and> distinct_siblings b \<and> distinct_siblings rest"

fun has_path :: "subcase list \<Rightarrow> SubcaseSignature list \<Rightarrow> bool" where
  "has_path t [] = True"
| "has_path [] (x # q) = False"
| "has_path (Sub s b # rest) (x # q) = (if s = x then has_path b q else has_path rest (x # q))"

text \<open>The first leaf below a path, and the path to go on with after a leaf.\<close>

fun leaf_below :: "subcase list \<Rightarrow> SubcaseSignature list \<Rightarrow> SubcaseSignature list" where
  "leaf_below [] q = []"
| "leaf_below (Sub s b # rest) [] = s # leaf_below b []"
| "leaf_below (Sub s b # rest) (x # q) =
     (if s = x then s # leaf_below b q else leaf_below rest (x # q))"

definition first_sibling :: "subcase list \<Rightarrow> SubcaseSignature list" where
  "first_sibling t = (case t of [] \<Rightarrow> [] | Sub s b # rest \<Rightarrow> [s])"

fun next_after :: "subcase list \<Rightarrow> SubcaseSignature list \<Rightarrow> SubcaseSignature list" where
  "next_after t [] = []"
| "next_after [] (x # l) = []"
| "next_after (Sub s b # rest) (x # l) =
     (if s = x
      then (if next_after b l = [] then first_sibling rest else s # next_after b l)
      else next_after rest (x # l))"

section \<open>One pass\<close>

lemma signature_eq_iff [simp]: "signature_eq a b \<longleftrightarrow> a = b"
  by (auto simp: signature_eq_def strcmp_zero_iff)

text \<open>The subcase fields of a context.\<close>

definition sub_state ::
    "ContextState \<Rightarrow> bool \<Rightarrow> SubcaseSignature list \<Rightarrow> SubcaseSignature list \<Rightarrow> hash list \<Rightarrow> nat \<Rightarrow>
     reporter_event list \<Rightarrow> ContextState" where
  "sub_state p r S N T d E =
     p\<lparr>reachedLeaf := r, subcaseStack := S, nextSubcaseStack := N, fullyTraversedSubcases := T,
       currentSubcaseDepth := d, reported := E\<rparr>"

definition unfiltered :: "ContextState \<Rightarrow> bool" where
  "unfiltered p \<longleftrightarrow> filters p ! 6 = [] \<and> filters p ! 7 = []"

lemma no_filter: "unfiltered p \<Longrightarrow> \<not> checkFilters sig (sub_state p r S N T d E)"
  by (simp add: checkFilters_def unfiltered_def sub_state_def matchesAny_def)

lemma enter_down:
  assumes "unfiltered p"
  shows "Subcase_enter s (sub_state p False S N T d E) =
    (if length N \<le> length S \<or> N ! length S = s
     then Some (True, sub_state p False (S @ [s]) N T (d + 1) (E @ [Subcase_start s]))
     else Some (False, sub_state p False S N T d E))"
  using no_filter [OF assms, of s False S N T d E]
  by (simp add: Subcase_enter_def sub_state_def report_event_def)

lemma hash_path_snoc:
  "hash_combine (hash_prefix S d) (hash_signature s) = hash_path (take d S @ [s])"
  by (simp add: hash_prefix_def hash_path_def)

lemma enter_after:
  assumes "unfiltered p" "d < length S" "S ! d \<noteq> s"
  shows "Subcase_enter s (sub_state p True S N T d E) =
    Some (False, sub_state p True S
      (if length N \<le> d \<and> hash_path (take d S @ [s]) \<notin> set T then take d S @ [s] else N) T d E)"
  using no_filter [OF assms(1), of s True S N T d E] assms(2,3)
  by (simp add: Subcase_enter_def sub_state_def hash_path_snoc)

lemma leave_simps [simp]:
  "Subcase_leave False u p = p"
  "Subcase_leave True False (sub_state p False S N T (Suc d) E) =
     sub_state p True S [] (List.insert (hash_path S) T) d (E @ [Subcase_end])"
  "Subcase_leave True False (sub_state p True S N T (Suc d) E) =
     sub_state p True S N (if N = [] then List.insert (hash_path S) T else T) d (E @ [Subcase_end])"
  by (simp_all add: Subcase_leave_def sub_state_def report_event_def Let_def)

text \<open>After the leaf only the first sibling on the way up is noted.\<close>

lemma siblings_noted:
  "unfiltered p \<Longrightarrow> d < length S \<Longrightarrow> S ! d \<notin> sig_of ` set t \<Longrightarrow> d < length N \<Longrightarrow>
     run_subcases t (sub_state p True S N T d E) = Some (sub_state p True S N T d E)"
proof (induction t)
  case (Cons a t)
  then show ?case by (cases a) (simp add: enter_after)
qed simp

lemma siblings_after:
  assumes "unfiltered p" "d < length S" "S ! d \<notin> sig_of ` set t"
    and "t \<noteq> [] \<longrightarrow> hash_path (take d S @ first_sibling t) \<notin> set T"
  shows "run_subcases t (sub_state p True S [] T d E) =
    Some (sub_state p True S (if t = [] then [] else take d S @ first_sibling t) T d E)"
proof (cases t)
  case (Cons a rest)
  then show ?thesis
    using assms siblings_noted [of p d S rest "take d S @ [sig_of a]" T]
    by (cases a) (simp add: enter_after first_sibling_def)
qed simp

lemma insert_path: "set (if b then List.insert h T else T) = (if b then insert h (set T) else set T)"
  by simp

text \<open>
  One pass below the path \<open>P\<close>: it reaches the first leaf below the target \<open>q\<close>, and the next
  stack is the path to go on with.
\<close>

definition goes_to :: "SubcaseSignature list \<Rightarrow> SubcaseSignature list \<Rightarrow> SubcaseSignature list \<Rightarrow> bool" where
  "goes_to N P q \<longleftrightarrow> (if q = [] then length N \<le> length P else N = P @ q)"

definition fresh :: "hash list \<Rightarrow> SubcaseSignature list \<Rightarrow> subcase list \<Rightarrow> SubcaseSignature list \<Rightarrow> bool" where
  "fresh T P t l \<longleftrightarrow>
     next_after t l = [] \<or> hash_path (P @ next_after t l) \<notin> insert (hash_path (P @ l)) (set T)"

definition resume :: "SubcaseSignature list \<Rightarrow> SubcaseSignature list \<Rightarrow> SubcaseSignature list" where
  "resume P n = (if n = [] then [] else P @ n)"

definition passed ::
    "subcase list \<Rightarrow> ContextState \<Rightarrow> SubcaseSignature list \<Rightarrow> SubcaseSignature list \<Rightarrow> hash list \<Rightarrow>
     SubcaseSignature list \<Rightarrow> bool" where
  "passed t p P N T l \<longleftrightarrow>
     (\<forall>E. \<exists>T' E'. run_subcases t (sub_state p False P N T (length P) E) =
        Some (sub_state p True (P @ l) (resume P (next_after t l)) T' (length P) E') \<and>
      set T' = insert (hash_path (P @ l)) (set T))"

lemma run_entered:
  assumes "unfiltered p" "s \<notin> sig_of ` set rest" "length N \<le> length P \<or> N ! length P = s"
    and l: "b = [] \<and> l = [] \<or> b \<noteq> [] \<and> passed b p (P @ [s]) N T l"
    and "fresh T P (Sub s b # rest) (s # l)"
  shows "passed (Sub s b # rest) p P N T (s # l)"
proof -
  let ?S = "P @ s # l" and ?d = "length P" and ?n = "next_after b l"
  have "\<exists>T' E'. run_subcases (Sub s b # rest) (sub_state p False P N T ?d E) =
      Some (sub_state p True ?S (resume P (next_after (Sub s b # rest) (s # l))) T' ?d E') \<and>
    set T' = insert (hash_path ?S) (set T)" for E
  proof -
    let ?in = "sub_state p False (P @ [s]) N T (Suc ?d) (E @ [Subcase_start s])"
    \<comment> \<open>the body, and leaving it\<close>
    have "\<exists>q T' E'. run_subcases b ?in = Some q \<and>
        Subcase_leave True False q = sub_state p True ?S (resume (P @ [s]) ?n) T' ?d E' \<and>
        set T' = insert (hash_path ?S) (set T)"
      using l
    proof
      assume "b = [] \<and> l = []"
      then show ?thesis
        by (intro exI [of _ ?in] exI [of _ "List.insert (hash_path ?S) T"]
            exI [of _ "E @ [Subcase_start s, Subcase_end]"]) (simp add: resume_def)
    next
      assume "b \<noteq> [] \<and> passed b p (P @ [s]) N T l"
      then obtain T' E' where "run_subcases b ?in =
          Some (sub_state p True ?S (resume (P @ [s]) ?n) T' (Suc ?d) E')" "set T' = insert (hash_path ?S) (set T)"
        unfolding passed_def by (metis append.assoc append_Cons append_Nil length_append_singleton)
      then show ?thesis
        by (intro exI [of _ "sub_state p True ?S (resume (P @ [s]) ?n) T' (Suc ?d) E'"]
            exI [of _ "if resume (P @ [s]) ?n = [] then List.insert (hash_path ?S) T' else T'"]
            exI [of _ "E' @ [Subcase_end]"]) simp
    qed
    then obtain q T' E' where q: "run_subcases b ?in = Some q"
      "Subcase_leave True False q = sub_state p True ?S (resume (P @ [s]) ?n) T' ?d E'"
      "set T' = insert (hash_path ?S) (set T)" by blast
    have start: "run_subcases (Sub s b # rest) (sub_state p False P N T ?d E) =
        run_subcases rest (sub_state p True ?S (resume (P @ [s]) ?n) T' ?d E')"
      using assms(1,3) q by (simp add: enter_down)
    show ?thesis
    proof (cases "?n = []")
      case True
      have "rest \<noteq> [] \<longrightarrow> hash_path (take ?d ?S @ first_sibling rest) \<notin> set T'"
        using assms(5) True q(3) by (cases rest rule: sub_leaves.cases) (auto simp: fresh_def first_sibling_def)
      then have "run_subcases rest (sub_state p True ?S [] T' ?d E') =
          Some (sub_state p True ?S (if rest = [] then [] else P @ first_sibling rest) T' ?d E')"
        using siblings_after [of p ?d ?S rest T' E'] assms(1,2) by simp
      moreover have "resume P (next_after (Sub s b # rest) (s # l)) =
          (if rest = [] then [] else P @ first_sibling rest)"
        using True by (cases rest rule: sub_leaves.cases) (auto simp: resume_def first_sibling_def)
      ultimately show ?thesis
        using start True q(3) by (auto simp: resume_def)
    next
      case False
      then have "run_subcases rest (sub_state p True ?S (P @ s # ?n) T' ?d E') =
          Some (sub_state p True ?S (P @ s # ?n) T' ?d E')"
        using siblings_noted [of p ?d ?S rest "P @ s # ?n" T' E'] assms(1,2) by simp
      then show ?thesis
        using start False q(3) by (auto simp: resume_def)
    qed
  qed
  then show ?thesis by (simp add: passed_def)
qed

lemma leaf_below_head: "has_path t (x # q) \<Longrightarrow> \<exists>l. leaf_below t (x # q) = x # l \<and> t \<noteq> []"
  by (induction t "x # q" rule: leaf_below.induct) (auto split: if_splits)

lemma next_after_other: "s \<noteq> x \<Longrightarrow> next_after (Sub s b # rest) (x # l) = next_after rest (x # l)"
  by simp

lemma fresh_body: "fresh T P (Sub s b # rest) (s # l) \<Longrightarrow> fresh T (P @ [s]) b l"
  by (auto simp: fresh_def split: if_splits)

lemma pass_below:
  assumes "unfiltered p"
  shows "distinct_siblings t \<Longrightarrow> has_path t q \<Longrightarrow> t \<noteq> [] \<Longrightarrow> goes_to N P q \<Longrightarrow>
    fresh T P t (leaf_below t q) \<Longrightarrow> passed t p P N T (leaf_below t q)"
proof (induction t q arbitrary: P rule: leaf_below.induct)
  case (2 s b rest)
  have "b = [] \<and> leaf_below b [] = [] \<or> b \<noteq> [] \<and> passed b p (P @ [s]) N T (leaf_below b [])"
    using 2(1) [of "P @ [s]"] 2(2,5,6) fresh_body by (cases b) (auto simp: goes_to_def)
  then show ?case
    using run_entered [OF assms, of s rest N P b "leaf_below b []" T] 2(2,5,6) by (auto simp: goes_to_def)
next
  case (3 s b rest x q)
  have N: "N = P @ x # q" using 3(6) by (simp add: goes_to_def)
  show ?case
  proof (cases "s = x")
    case True
    have "b = [] \<and> leaf_below b q = [] \<or> b \<noteq> [] \<and> passed b p (P @ [s]) N T (leaf_below b q)"
      using 3(1) [OF True, of "P @ [s]"] 3(3,4,7) True N fresh_body
      by (cases b) (auto simp: goes_to_def)
    then show ?thesis
      using run_entered [OF assms, of s rest N P b "leaf_below b q" T] 3(3,7) True N by auto
  next
    case False
    then have rest: "has_path rest (x # q)" using 3(4) by simp
    obtain l where l: "leaf_below rest (x # q) = x # l" "rest \<noteq> []" using leaf_below_head [OF rest] by blast
    have "passed rest p P N T (leaf_below rest (x # q))"
      using 3(2) [OF False, of P] 3(3,6,7) rest l False by (simp add: fresh_def)
    then show ?thesis using False l N assms by (simp add: passed_def enter_down)
  qed
qed simp

section \<open>The leaves in their order\<close>

lemma sub_leaves_heads: "l \<in> set (sub_leaves t) \<Longrightarrow> \<exists>x l'. l = x # l' \<and> x \<in> sig_of ` set t"
  by (induction t rule: sub_leaves.induct) auto

lemma sub_leaves_Nil_iff [simp]: "sub_leaves t = [] \<longleftrightarrow> t = []"
  by (induction t rule: sub_leaves.induct) auto

lemma leaf_below_Nil: "t \<noteq> [] \<Longrightarrow> leaf_below t [] = hd (sub_leaves t)"
proof (induction t rule: sub_leaves.induct)
  case (2 s b rest)
  then show ?case by (cases "b = []") (auto simp: hd_append hd_map)
qed simp

lemma leaf_below_sibling: "t \<noteq> [] \<Longrightarrow> leaf_below t (first_sibling t) = hd (sub_leaves t) \<and> has_path t (first_sibling t)"
  using leaf_below_Nil [of t] by (cases t rule: sub_leaves.cases) (auto simp: first_sibling_def)

lemma next_after_head: "next_after t l = x # n \<Longrightarrow> x \<in> sig_of ` set t"
  by (induction t l rule: next_after.induct)
    (auto simp: first_sibling_def split: if_splits list.splits subcase.splits)

text \<open>Each leaf leads to the next one, and the last one to none.\<close>

definition leads_to :: "subcase list \<Rightarrow> SubcaseSignature list \<Rightarrow> SubcaseSignature list \<Rightarrow> bool" where
  "leads_to t l l' \<longleftrightarrow>
     next_after t l \<noteq> [] \<and> has_path t (next_after t l) \<and> leaf_below t (next_after t l) = l'"

fun linked :: "subcase list \<Rightarrow> SubcaseSignature list list \<Rightarrow> bool" where
  "linked t [] = False"
| "linked t [l] \<longleftrightarrow> next_after t l = []"
| "linked t (l # l' # ls) \<longleftrightarrow> leads_to t l l' \<and> linked t (l' # ls)"

lemma next_after_rest:
  "l \<noteq> [] \<Longrightarrow> hd l \<noteq> s \<Longrightarrow> next_after (Sub s b # rest) l = next_after rest l"
  by (cases l) auto

lemma leads_to_rest:
  assumes "leads_to rest l l'" "l \<noteq> []" "hd l \<noteq> s" "s \<notin> sig_of ` set rest"
  shows "leads_to (Sub s b # rest) l l'"
proof -
  obtain x n where n: "next_after rest l = x # n" using assms(1) by (cases "next_after rest l") (auto simp: leads_to_def)
  have "x \<noteq> s" using next_after_head [OF n] assms(4) by blast
  then show ?thesis using assms(1-3) n by (simp add: leads_to_def next_after_rest)
qed

lemma linked_rest:
  "linked rest ls \<Longrightarrow> \<forall>l \<in> set ls. l \<noteq> [] \<and> hd l \<noteq> s \<Longrightarrow> s \<notin> sig_of ` set rest \<Longrightarrow>
     linked (Sub s b # rest) ls"
  by (induction rest ls rule: linked.induct) (auto simp: next_after_rest leads_to_rest)

lemma leads_to_first:
  assumes "rest \<noteq> []" "next_after b l = []" "s \<notin> sig_of ` set rest"
  shows "leads_to (Sub s b # rest) (s # l) (hd (sub_leaves rest))"
proof -
  obtain s' b' rest' where rest: "rest = Sub s' b' # rest'" using assms(1) by (cases rest rule: sub_leaves.cases) auto
  then show ?thesis
    using assms leaf_below_sibling [of rest] by (simp add: leads_to_def first_sibling_def)
qed

lemma linked_first:
  assumes "s \<notin> sig_of ` set rest"
    and "rest = [] \<Longrightarrow> ls = []" "rest \<noteq> [] \<Longrightarrow> ls \<noteq> [] \<and> hd ls = hd (sub_leaves rest) \<and> linked (Sub s b # rest) ls"
  shows "linked b bs \<Longrightarrow> linked (Sub s b # rest) (map ((#) s) bs @ ls)"
proof (induction bs rule: induct_list012)
  case (2 l)
  show ?case
  proof (cases "rest = []")
    case True
    then show ?thesis using 2 assms(2) by (simp add: first_sibling_def)
  next
    case False
    then show ?thesis using 2 assms(1,3) leads_to_first [of rest b l s] by (cases ls) auto
  qed
next
  case (3 l l' ls)
  then show ?case by (auto simp: leads_to_def)
qed simp

lemma sub_leaves_linked: "distinct_siblings t \<Longrightarrow> linked t (leaf_paths t)"
proof (induction t rule: distinct_siblings.induct)
  case (2 s b rest)
  have heads: "\<forall>l \<in> set (sub_leaves rest). l \<noteq> [] \<and> hd l \<noteq> s"
    using sub_leaves_heads [of _ rest] 2(3) by fastforce
  have "linked (Sub s b # rest) (map ((#) s) (leaf_paths b) @ sub_leaves rest)"
    using 2 heads linked_rest [of rest "sub_leaves rest" s b]
    by (intro linked_first) (auto simp: leaf_paths_def)
  then show ?case by (simp add: leaf_paths_def)
qed (simp add: leaf_paths_def)

lemma sub_leaves_distinct: "distinct_siblings t \<Longrightarrow> distinct (sub_leaves t)"
proof (induction t rule: distinct_siblings.induct)
  case (2 s b rest)
  have "(s # l) \<notin> set (sub_leaves rest)" for l
    using sub_leaves_heads [of "s # l" rest] 2(3) by auto
  then show ?case using 2 by (auto simp: distinct_map)
qed simp

lemma leaf_of_tree:
  "distinct_siblings t \<Longrightarrow> l \<in> set (leaf_paths t) \<Longrightarrow> has_path t l \<and> leaf_below t l = l"
proof (induction t arbitrary: l rule: distinct_siblings.induct)
  case (2 s b rest)
  from 2(4) consider l' where "l = s # l'" "l' \<in> set (leaf_paths b)" | "l \<in> set (sub_leaves rest)"
    by (auto simp: leaf_paths_def split: if_splits)
  then show ?case
  proof cases
    case 1
    then show ?thesis using 2 by simp
  next
    case h: 2
    then have "rest \<noteq> []" by auto
    then have IH: "has_path rest l \<and> leaf_below rest l = l" using 2(2) [of l] 2(3) h by (simp add: leaf_paths_def)
    obtain x l' where "l = x # l'" "x \<in> sig_of ` set rest" using sub_leaves_heads [OF h] by blast
    moreover have "x \<noteq> s" using calculation(2) 2(3) by auto
    ultimately show ?thesis using IH by simp
  qed
qed (simp add: leaf_paths_def)

lemma leaf_paths_distinct: "distinct_siblings t \<Longrightarrow> distinct (leaf_paths t)"
  by (simp add: leaf_paths_def sub_leaves_distinct)

lemma linked_append: "linked t (done @ l # ls) \<Longrightarrow> linked t (l # ls)"
  by (induction "done" rule: induct_list012) (auto elim: linked.elims)

section \<open>All passes\<close>

text \<open>The runs of a test function by the loop, with the subcases each one enters.\<close>

inductive passes ::
    "TestCaseData \<Rightarrow> test_function \<Rightarrow> ContextState \<Rightarrow> SubcaseSignature list list \<Rightarrow> ContextState \<Rightarrow> bool" for tc test where
  last_pass: "test_pass tc test p = Some (False, r) \<Longrightarrow> passes tc test p [subcaseStack r] r"
| next_pass: "test_pass tc test p = Some (True, q) \<Longrightarrow> passes tc test q ls r \<Longrightarrow>
    passes tc test p (subcaseStack q # ls) r"

lemma passes_test_loop: "passes tc test p ls r \<Longrightarrow> test_loop tc test p = Some r"
  by (induction rule: passes.induct) (simp_all add: test_loop.simps)

definition subcase_start :: "ContextState \<Rightarrow> bool" where
  "subcase_start p \<longleftrightarrow> unfiltered p \<and> o_abort_after p = 0"

lemma tree_pass:
  assumes p: "subcase_start p" and t: "t \<noteq> []" "distinct_siblings t"
    and q: "has_path t q" "nextSubcaseStack p = q"
    and fresh: "fresh (fullyTraversedSubcases p) [] t (leaf_below t q)"
  obtains r where "test_pass tc (tree_test t) p = Some (next_after t (leaf_below t q) \<noteq> [], r)"
    "subcase_start r" "subcaseStack r = leaf_below t q" "nextSubcaseStack r = next_after t (leaf_below t q)"
    "set (fullyTraversedSubcases r) = insert (hash_path (leaf_below t q)) (set (fullyTraversedSubcases p))"
proof -
  let ?p = "p\<lparr>shouldLogCurrentException := True, stringifiedContexts := []\<rparr>"
  let ?l = "leaf_below t q" and ?again = "next_after t (leaf_below t q) \<noteq> []"
  have "start_pass p = sub_state ?p False [] q (fullyTraversedSubcases p) 0 (reported p)"
    using q(2) by (simp add: start_pass_def sub_state_def)
  moreover have "passed t ?p [] q (fullyTraversedSubcases p) ?l"
    using pass_below [of ?p t q q "[]" "fullyTraversedSubcases p"] p t q(1) fresh
    by (simp add: subcase_start_def unfiltered_def goes_to_def)
  ultimately obtain T E where T: "run_subcases t (start_pass p) = Some (sub_state ?p True ?l (next_after t ?l) T 0 E)"
    "set T = insert (hash_path ?l) (set (fullyTraversedSubcases p))"
    by (force simp: passed_def resume_def split: if_splits)
  let ?r = "sub_state ?p True ?l (next_after t ?l) T 0 (E @ (if ?again then [Test_case_reenter tc] else []))"
  show ?thesis
  proof (rule that [of ?r])
    show "test_pass tc (tree_test t) p = Some (?again, ?r)"
      using p T(1)
      by (simp add: test_pass_def tree_test_def subcase_start_def sub_state_def report_event_def Let_def)
  qed (use p T(2) in \<open>simp_all add: sub_state_def subcase_start_def unfiltered_def\<close>)
qed

lemma next_is_fresh:
  assumes t: "distinct_siblings t" and leaves: "leaf_paths t = done @ l # ls"
    and inj: "inj_on hash_path {q. has_path t q}" and T: "set T = hash_path ` set done"
  shows "fresh T [] t l"
proof (cases ls)
  case Nil
  then have "next_after t l = []"
    using linked_append [of t "done" l "[]"] sub_leaves_linked [OF t] leaves by simp
  then show ?thesis by (simp add: fresh_def)
next
  case (Cons l' rest)
  let ?n = "next_after t l"
  have lead: "leads_to t l l'"
    using linked_append [of t "done" l ls] sub_leaves_linked [OF t] leaves Cons by simp
  have new: "?n \<notin> set done \<union> {l}"
  proof
    assume "?n \<in> set done \<union> {l}"
    then have "leaf_below t ?n = ?n" "?n \<in> set (done @ [l])"
      using leaf_of_tree [OF t, of ?n] leaves by auto
    then have "l' \<in> set (done @ [l])" using lead by (simp add: leads_to_def)
    then show False using leaf_paths_distinct [OF t] leaves Cons by auto
  qed
  have "hash_path ?n \<notin> hash_path ` (set done \<union> {l})"
  proof
    assume "hash_path ?n \<in> hash_path ` (set done \<union> {l})"
    then obtain m where m: "m \<in> set done \<union> {l}" "hash_path ?n = hash_path m" by blast
    then have "has_path t m" using leaf_of_tree [OF t, of m] leaves by auto
    then show False using inj_onD [OF inj m(2)] lead m(1) new by (auto simp: leads_to_def)
  qed
  then show ?thesis using T by (simp add: fresh_def)
qed

lemma passes_from:
  assumes t: "t \<noteq> []" "distinct_siblings t" and inj: "inj_on hash_path {q. has_path t q}"
  shows "leaf_paths t = done @ l # ls \<Longrightarrow> subcase_start p \<Longrightarrow> has_path t (nextSubcaseStack p) \<Longrightarrow>
    leaf_below t (nextSubcaseStack p) = l \<Longrightarrow> set (fullyTraversedSubcases p) = hash_path ` set done \<Longrightarrow>
    \<exists>r. passes tc (tree_test t) p (l # ls) r"
proof (induction ls arbitrary: "done" l p)
  case Nil
  have "next_after t l = []"
    using linked_append [of t "done" l "[]"] sub_leaves_linked [OF t(2)] Nil(1) by simp
  moreover have "fresh (fullyTraversedSubcases p) [] t l"
    using next_is_fresh [OF t(2) Nil(1) inj Nil(5)] .
  ultimately obtain r where "test_pass tc (tree_test t) p = Some (False, r)" "subcaseStack r = l"
    using tree_pass [where tc = tc, OF Nil(2) t Nil(3) refl] Nil(4) by auto
  then show ?case using last_pass by blast
next
  case (Cons l' ls)
  have lead: "leads_to t l l'"
    using linked_append [of t "done" l "l' # ls"] sub_leaves_linked [OF t(2)] Cons(2) by simp
  have fresh: "fresh (fullyTraversedSubcases p) [] t (leaf_below t (nextSubcaseStack p))"
    using next_is_fresh [OF t(2) Cons(2) inj Cons(6)] Cons(5) by simp
  obtain r where r: "test_pass tc (tree_test t) p = Some (True, r)" "subcase_start r"
    "subcaseStack r = l" "nextSubcaseStack r = next_after t l"
    "set (fullyTraversedSubcases r) = hash_path ` set (done @ [l])"
    using tree_pass [where tc = tc, OF Cons(3) t Cons(4) refl fresh] lead Cons(5,6) by (auto simp: leads_to_def)
  have "\<exists>r'. passes tc (tree_test t) r (l' # ls) r'"
    using Cons(1) [of "done @ [l]" l' r] Cons(2) r lead by (simp add: leads_to_def)
  then show ?case using next_pass [OF r(1)] r(3) by blast
qed

text \<open>C20. A test function that is a tree of subcases is run once for each leaf of the tree, in the
  order of the leaves, and every run enters just the subcases on the way to its leaf; then the
  loop around the test ends. For this no filter on subcases is set, siblings have different
  signatures, and the paths of the tree different hashes.
\<close>

theorem every_leaf_is_run:
  assumes "distinct_siblings t" "inj_on hash_path {q. has_path t q}"
    and "subcase_start p" "nextSubcaseStack p = []" "fullyTraversedSubcases p = []"
  shows "\<exists>r. passes tc (tree_test t) p (leaf_paths t) r \<and> test_loop tc (tree_test t) p = Some r"
proof (cases "t = []")
  case True
  have "\<exists>r. test_pass tc (tree_test t) p = Some (False, r) \<and> subcaseStack r = []"
    using assms(3,4) True
    by (simp add: test_pass_def tree_test_def start_pass_def subcase_start_def Let_def)
  then show ?thesis using last_pass passes_test_loop True by (fastforce simp: leaf_paths_def)
next
  case False
  then obtain l ls where ls: "leaf_paths t = l # ls" by (cases "leaf_paths t") (auto simp: leaf_paths_def)
  then have "leaf_below t [] = l" using leaf_below_Nil [OF False] False by (simp add: leaf_paths_def)
  then have "\<exists>r. passes tc (tree_test t) p (l # ls) r"
    using passes_from [OF False assms(1,2), of "[]" l ls p] assms(3-5) ls by simp
  then show ?thesis using ls passes_test_loop by metis
qed

definition small_tree :: "subcase list" where
  "small_tree =
     [Sub \<lparr>m_name = ''a'', m_file = ''f'', m_line = 1\<rparr> [Sub \<lparr>m_name = ''b'', m_file = ''f'', m_line = 2\<rparr> []],
      Sub \<lparr>m_name = ''c'', m_file = ''f'', m_line = 3\<rparr> []]"

definition small_tree_nodes :: "SubcaseSignature list list" where
  "small_tree_nodes = map (map (\<lambda>(c, n). \<lparr>m_name = [c], m_file = ''f'', m_line = n\<rparr>))
     [[], [(CHR ''a'', 1)], [(CHR ''a'', 1), (CHR ''b'', 2)], [(CHR ''c'', 3)]]"

lemma small_tree_paths: "{q. has_path small_tree q} = set small_tree_nodes"
proof -
  have "has_path small_tree q \<longleftrightarrow> q \<in> set small_tree_nodes" for q
    by (cases q; cases "tl q"; cases "tl (tl q)") (auto simp: small_tree_def small_tree_nodes_def)
  then show ?thesis by blast
qed

lemma small_tree_hashes: "inj_on hash_path {q. has_path small_tree q}"
proof -
  have "distinct (map hash_path small_tree_nodes)" by code_simp
  then show ?thesis by (simp only: distinct_map small_tree_paths)
qed

theorem every_leaf_is_run_witness:
  "\<exists>r. passes may_fail_case (tree_test small_tree) blank_state (drop 2 small_tree_nodes) r \<and>
     test_loop may_fail_case (tree_test small_tree) blank_state = Some r"
proof -
  have "distinct_siblings small_tree" "leaf_paths small_tree = drop 2 small_tree_nodes"
    by (simp_all add: small_tree_def leaf_paths_def small_tree_nodes_def)
  moreover have "subcase_start blank_state" "nextSubcaseStack blank_state = []" "fullyTraversedSubcases blank_state = []"
    by (simp_all add: subcase_start_def unfiltered_def blank_state_def)
  ultimately show ?thesis
    using every_leaf_is_run [of small_tree blank_state may_fail_case] small_tree_hashes by simp
qed

section \<open>Colliding hashes\<close>

lemma hash_signature_collides:
  assumes "schar c' = schar c + 1"
  shows "hash_signature \<lparr>m_name = nm @ [c'], m_file = f, m_line = l\<rparr> =
    hash_signature \<lparr>m_name = nm @ [c], m_file = f, m_line = l + 32\<rparr>"
  using assms by (simp add: hash_signature_def hash_combine_def hash_string_def push_bit_eq_mult algebra_simps)

lemma collision_skips:
  assumes p: "subcase_start p" "nextSubcaseStack p = []"
    and "s' \<noteq> s" "hash_signature s' = hash_signature s"
  shows "\<exists>r. passes tc (tree_test [Sub s [], Sub s' []]) p [[s]] r \<and>
    test_loop tc (tree_test [Sub s [], Sub s' []]) p = Some r"
proof -
  let ?p = "p\<lparr>shouldLogCurrentException := True, stringifiedContexts := []\<rparr>"
  let ?T = "fullyTraversedSubcases p"
  let ?r = "sub_state ?p True [s] [] (List.insert (hash_path [s]) ?T) 0
    (reported p @ [Subcase_start s, Subcase_end])"
  have start: "start_pass p = sub_state ?p False [] [] ?T 0 (reported p)"
    using p(2) by (simp add: start_pass_def sub_state_def)
  have un: "unfiltered ?p" using p(1) by (simp add: subcase_start_def unfiltered_def)
  have path: "hash_path [s'] = hash_path [s]" using assms(4) by (simp add: hash_path_def)
  have "run_subcases [Sub s [], Sub s' []] (start_pass p) = Some ?r"
    using start enter_down [OF un, of s "[]" "[]" ?T 0 "reported p"]
      enter_after [OF un, of 0 "[s]" s' "[]" "List.insert (hash_path [s]) ?T"] assms(3) path
    by simp
  then have "test_pass tc (tree_test [Sub s [], Sub s' []]) p = Some (False, ?r)"
    using p(1) by (simp add: test_pass_def tree_test_def subcase_start_def sub_state_def Let_def)
  moreover have "subcaseStack ?r = [s]" by (simp add: sub_state_def)
  ultimately show ?thesis using last_pass passes_test_loop by metis
qed



end
