(* ===== verification/Doctest_Assert.thy ===== *)
theory Doctest_Assert
  imports Doctest_Context
begin

text \<open>
  Assertions and messages of the vendored test framework (\<open>external/doctest.h\<close>,
  \<open>assertType\<close>, \<open>ResultBuilder\<close>, \<open>MessageBuilder\<close> and the macros around them), while a
  test runs: whether an assertion failed, how it is counted, and whether it ends the test by an
  exception. What the asserted expression does is an argument: it has a value, with its text, or it
  throws. The counter's lane of the thread is an argument too.
\<close>

unbundle bit_operations_syntax

section \<open>Types of assertions\<close>

definition is_warn :: assertType where "is_warn = 1"
definition is_check :: assertType where "is_check = 2 * is_warn"
definition is_require :: assertType where "is_require = 2 * is_check"
definition is_normal :: assertType where "is_normal = 2 * is_require"
definition is_throws :: assertType where "is_throws = 2 * is_normal"
definition is_throws_as :: assertType where "is_throws_as = 2 * is_throws"
definition is_throws_with :: assertType where "is_throws_with = 2 * is_throws_as"
definition is_nothrow :: assertType where "is_nothrow = 2 * is_throws_with"
definition is_false :: assertType where "is_false = 2 * is_nothrow"
definition is_unary :: assertType where "is_unary = 2 * is_false"
definition is_eq :: assertType where "is_eq = 2 * is_unary"
definition is_ne :: assertType where "is_ne = 2 * is_eq"
definition is_lt :: assertType where "is_lt = 2 * is_ne"
definition is_gt :: assertType where "is_gt = 2 * is_lt"
definition is_ge :: assertType where "is_ge = 2 * is_gt"
definition is_le :: assertType where "is_le = 2 * is_ge"

lemmas assert_flags = is_warn_def is_check_def is_require_def is_normal_def is_throws_def
  is_throws_as_def is_throws_with_def is_nothrow_def is_false_def is_unary_def is_eq_def is_ne_def
  is_lt_def is_gt_def is_ge_def is_le_def

text \<open>The enumerators \<open>DT_...\<close>, by level and kind.\<close>

datatype level = WARN | CHECK | REQUIRE

fun level_flag :: "level \<Rightarrow> assertType" where
  "level_flag WARN = is_warn"
| "level_flag CHECK = is_check"
| "level_flag REQUIRE = is_require"

fun level_name :: "level \<Rightarrow> string" where
  "level_name WARN = ''WARN''"
| "level_name CHECK = ''CHECK''"
| "level_name REQUIRE = ''REQUIRE''"

datatype kind =
    K_normal | K_FALSE | K_THROWS | K_THROWS_AS | K_THROWS_WITH | K_THROWS_WITH_AS | K_NOTHROW
  | K_EQ | K_NE | K_GT | K_LT | K_GE | K_LE | K_UNARY | K_UNARY_FALSE

fun kind_flags :: "kind \<Rightarrow> assertType" where
  "kind_flags K_normal = is_normal"
| "kind_flags K_FALSE = is_normal OR is_false"
| "kind_flags K_THROWS = is_throws"
| "kind_flags K_THROWS_AS = is_throws_as"
| "kind_flags K_THROWS_WITH = is_throws_with"
| "kind_flags K_THROWS_WITH_AS = is_throws_with OR is_throws_as"
| "kind_flags K_NOTHROW = is_nothrow"
| "kind_flags K_EQ = is_normal OR is_eq"
| "kind_flags K_NE = is_normal OR is_ne"
| "kind_flags K_GT = is_normal OR is_gt"
| "kind_flags K_LT = is_normal OR is_lt"
| "kind_flags K_GE = is_normal OR is_ge"
| "kind_flags K_LE = is_normal OR is_le"
| "kind_flags K_UNARY = is_normal OR is_unary"
| "kind_flags K_UNARY_FALSE = is_normal OR is_false OR is_unary"

fun kind_name :: "kind \<Rightarrow> string" where
  "kind_name K_normal = []"
| "kind_name K_FALSE = ''_FALSE''"
| "kind_name K_THROWS = ''_THROWS''"
| "kind_name K_THROWS_AS = ''_THROWS_AS''"
| "kind_name K_THROWS_WITH = ''_THROWS_WITH''"
| "kind_name K_THROWS_WITH_AS = ''_THROWS_WITH_AS''"
| "kind_name K_NOTHROW = ''_NOTHROW''"
| "kind_name K_EQ = ''_EQ''"
| "kind_name K_NE = ''_NE''"
| "kind_name K_GT = ''_GT''"
| "kind_name K_LT = ''_LT''"
| "kind_name K_GE = ''_GE''"
| "kind_name K_LE = ''_LE''"
| "kind_name K_UNARY = ''_UNARY''"
| "kind_name K_UNARY_FALSE = ''_UNARY_FALSE''"

definition DT :: "level \<Rightarrow> kind \<Rightarrow> assertType" where
  "DT l k = kind_flags k OR level_flag l"

text \<open>The cases of the switch in their order; \<open>None\<close> is the internal error that is thrown.\<close>

definition assert_cases :: "(assertType \<times> string) list" where
  "assert_cases = concat (map (\<lambda>k. map (\<lambda>l. (DT l k, level_name l @ kind_name k)) [WARN, CHECK, REQUIRE])
     [K_normal, K_FALSE, K_THROWS, K_THROWS_AS, K_THROWS_WITH, K_THROWS_WITH_AS, K_NOTHROW,
      K_EQ, K_NE, K_GT, K_LT, K_GE, K_LE, K_UNARY, K_UNARY_FALSE])"

definition assertString :: "assertType \<Rightarrow> string option" where
  "assertString at = map_of assert_cases at"

definition failureString :: "assertType \<Rightarrow> string" where
  "failureString at =
     (if at AND is_warn \<noteq> 0 then ''WARNING''
      else if at AND is_check \<noteq> 0 then ''ERROR''
      else if at AND is_require \<noteq> 0 then ''FATAL ERROR''
      else [])"

text \<open>The position after the last occurrence of a character.\<close>

definition strrchr :: "string \<Rightarrow> char \<Rightarrow> nat option" where
  "strrchr s c =
     (if c \<in> set s then Some (length s - 1 - length (takeWhile (\<lambda>d. d \<noteq> c) (rev s))) else None)"

definition skipPathFromFilename :: "bool \<Rightarrow> string \<Rightarrow> string" where
  "skipPathFromFilename no_path_in_filenames file =
     (if no_path_in_filenames then
        (case (strrchr file (CHR 0x5C), strrchr file (CHR ''/'')) of
           (None, None) \<Rightarrow> file
         | (Some bslash, None) \<Rightarrow> drop (bslash + 1) file
         | (None, Some forward) \<Rightarrow> drop (forward + 1) file
         | (Some bslash, Some forward) \<Rightarrow>
             drop ((if bslash > forward then bslash else forward) + 1) file)
      else file)"

section \<open>Results\<close>

fun check :: "StringContains \<Rightarrow> string \<Rightarrow> bool" where
  "check (Contains_text needle) s \<longleftrightarrow> strstr (c_string s) (c_string needle)"
| "check (Equals t) s \<longleftrightarrow> strcmp (c_string t) (c_string s) = 0"

definition make_AssertData ::
    "assertType \<Rightarrow> string \<Rightarrow> int \<Rightarrow> string \<Rightarrow> string \<Rightarrow> StringContains \<Rightarrow> ContextState \<Rightarrow> AssertData" where
  "make_AssertData at file ln expr exception_type exception_string p =
     \<lparr>ad_test_case = o_currentTest p, ad_at = at, ad_file = file, ad_line = ln, ad_expr = expr,
      ad_failed = True, ad_threw = False, ad_exception = [], ad_decomp = [], ad_threw_as = False,
      ad_exception_type = exception_type, ad_exception_string = exception_string\<rparr>"

definition setResult :: "bool \<Rightarrow> string \<Rightarrow> AssertData \<Rightarrow> AssertData" where
  "setResult m_passed m_decomp rb = rb\<lparr>ad_decomp := m_decomp, ad_failed := \<not> m_passed\<rparr>"

definition translateException :: "string \<Rightarrow> AssertData \<Rightarrow> AssertData" where
  "translateException active rb = rb\<lparr>ad_threw := True, ad_exception := active\<rparr>"

text \<open>\<open>Expression_lhs::operator Result\<close>: an expression that is not a comparison.\<close>

definition unary_result :: "assertType \<Rightarrow> bool \<Rightarrow> bool \<Rightarrow> string \<Rightarrow> bool \<times> string" where
  "unary_result at success lhs lhs_text =
     (let res = (if at AND is_false \<noteq> 0 then \<not> lhs else lhs)
      in if \<not> res \<or> success then (res, lhs_text) else (res, []))"

section \<open>Counting and throwing\<close>

definition addAssert :: "nat \<Rightarrow> assertType \<Rightarrow> ContextState \<Rightarrow> ContextState" where
  "addAssert lane at p =
     (if at AND is_warn = 0
      then p\<lparr>numAssertsCurrentTest_atomic := snd (post_increment lane (numAssertsCurrentTest_atomic p))\<rparr>
      else p)"

definition addFailedAssert :: "nat \<Rightarrow> assertType \<Rightarrow> ContextState \<Rightarrow> ContextState" where
  "addFailedAssert lane at p =
     (if at AND is_warn = 0
      then p\<lparr>numAssertsFailedCurrentTest_atomic :=
               snd (post_increment lane (numAssertsFailedCurrentTest_atomic p))\<rparr>
      else p)"

definition checkIfShouldThrow :: "assertType \<Rightarrow> ContextState \<Rightarrow> bool" where
  "checkIfShouldThrow at p \<longleftrightarrow>
     at AND is_require \<noteq> 0 \<or>
     at AND is_check \<noteq> 0 \<and> o_abort_after p > 0 \<and>
     numAssertsFailed p + load (numAssertsFailedCurrentTest_atomic p) \<ge> o_abort_after p"

definition verdict_of :: "AssertData \<Rightarrow> bool" where
  "verdict_of rb =
     (if ad_at rb AND is_throws \<noteq> 0 then \<not> ad_threw rb
      else if ad_at rb AND is_throws_as \<noteq> 0 \<and> ad_at rb AND is_throws_with \<noteq> 0 then
        \<not> ad_threw_as rb \<or> \<not> check (ad_exception_string rb) (ad_exception rb)
      else if ad_at rb AND is_throws_as \<noteq> 0 then \<not> ad_threw_as rb
      else if ad_at rb AND is_throws_with \<noteq> 0 then \<not> check (ad_exception_string rb) (ad_exception rb)
      else if ad_at rb AND is_nothrow \<noteq> 0 then ad_threw rb
      else ad_failed rb)"

text \<open>\<open>ResultBuilder::log\<close> while a test runs.\<close>

definition RB_log ::
    "nat \<Rightarrow> string list \<Rightarrow> AssertData \<Rightarrow> ContextState \<Rightarrow> AssertData \<times> ContextState" where
  "RB_log lane contexts rb p =
     (let rb = rb\<lparr>ad_failed := verdict_of rb\<rparr>;
          rb = (if ad_exception rb \<noteq> []
                then rb\<lparr>ad_exception := [CHR 0x22] @ ad_exception rb @ [CHR 0x22]\<rparr> else rb);
          p = addAssert lane (ad_at rb) p;
          p = report_event (Log_assert rb contexts) p;
          p = (if ad_failed rb then addFailedAssert lane (ad_at rb) p else p)
      in (rb, p))"

definition RB_breaks :: "bool \<Rightarrow> AssertData \<Rightarrow> ContextState \<Rightarrow> bool" where
  "RB_breaks debugger_active rb p \<longleftrightarrow>
     ad_failed rb \<and> debugger_active \<and> \<not> o_no_breaks p \<and>
     (case o_currentTest p of None \<Rightarrow> True | Some tc \<Rightarrow> \<not> tc_no_breaks tc)"

definition RB_react :: "AssertData \<Rightarrow> ContextState \<Rightarrow> bool" where
  "RB_react rb p \<longleftrightarrow> ad_failed rb \<and> checkIfShouldThrow (ad_at rb) p"

definition throwException :: "ContextState \<Rightarrow> ContextState" where
  "throwException p = p\<lparr>shouldLogCurrentException := False\<rparr>"

section \<open>The macros\<close>

datatype evaluation = Value bool string | Exception string bool

datatype assert_result = Returns bool | Throws_failure

text \<open>\<open>DOCTEST_ASSERT_LOG_REACT_RETURN\<close>, without breaks into a debugger.\<close>

definition log_react_return ::
    "nat \<Rightarrow> string list \<Rightarrow> AssertData \<Rightarrow> ContextState \<Rightarrow> assert_result \<times> AssertData option \<times> ContextState" where
  "log_react_return lane contexts rb p =
     (case RB_log lane contexts rb p of
        (rb, p) \<Rightarrow>
          if RB_react rb p then (Throws_failure, Some rb, throwException p)
          else (Returns (\<not> ad_failed rb), Some rb, p))"

definition assert_implement ::
    "nat \<Rightarrow> string list \<Rightarrow> assertType \<Rightarrow> string \<Rightarrow> int \<Rightarrow> string \<Rightarrow> evaluation \<Rightarrow> ContextState \<Rightarrow>
     assert_result \<times> AssertData option \<times> ContextState" where
  "assert_implement lane contexts at file ln expr ev p =
     (let rb = make_AssertData at file ln expr [] (Equals []) p;
          rb = (case ev of Value passed decomp \<Rightarrow> setResult passed decomp rb
                | Exception active _ \<Rightarrow> translateException active rb)
      in log_react_return lane contexts rb p)"

definition assert_throws_as ::
    "nat \<Rightarrow> string list \<Rightarrow> assertType \<Rightarrow> string \<Rightarrow> int \<Rightarrow> string \<Rightarrow> string \<Rightarrow> StringContains \<Rightarrow> evaluation \<Rightarrow> ContextState \<Rightarrow>
     assert_result \<times> AssertData option \<times> ContextState" where
  "assert_throws_as lane contexts at file ln expr exception_type msg ev p =
     (if \<not> o_no_throw p then
        let rb = make_AssertData at file ln expr exception_type msg p;
            rb = (case ev of Value _ _ \<Rightarrow> rb
                  | Exception active is_of_type \<Rightarrow>
                      (if is_of_type then (translateException active rb)\<lparr>ad_threw_as := True\<rparr>
                       else translateException active rb))
        in log_react_return lane contexts rb p
      else (Returns False, None, p))"

definition assert_throws_with ::
    "nat \<Rightarrow> string list \<Rightarrow> assertType \<Rightarrow> string \<Rightarrow> int \<Rightarrow> string \<Rightarrow> StringContains \<Rightarrow> evaluation \<Rightarrow> ContextState \<Rightarrow>
     assert_result \<times> AssertData option \<times> ContextState" where
  "assert_throws_with lane contexts at file ln expr_str msg ev p =
     (if \<not> o_no_throw p then
        let rb = make_AssertData at file ln expr_str [] msg p;
            rb = (case ev of Value _ _ \<Rightarrow> rb | Exception active _ \<Rightarrow> translateException active rb)
        in log_react_return lane contexts rb p
      else (Returns False, None, p))"

definition assert_nothrow ::
    "nat \<Rightarrow> string list \<Rightarrow> assertType \<Rightarrow> string \<Rightarrow> int \<Rightarrow> string \<Rightarrow> evaluation \<Rightarrow> ContextState \<Rightarrow>
     assert_result \<times> AssertData option \<times> ContextState" where
  "assert_nothrow lane contexts at file ln expr ev p =
     (let rb = make_AssertData at file ln expr [] (Equals []) p;
          rb = (case ev of Value _ _ \<Rightarrow> rb | Exception active _ \<Rightarrow> translateException active rb)
      in log_react_return lane contexts rb p)"

text \<open>The macro of a kind of assertion.\<close>

fun run_assert ::
    "nat \<Rightarrow> string list \<Rightarrow> level \<Rightarrow> kind \<Rightarrow> string \<Rightarrow> int \<Rightarrow> string \<Rightarrow> string \<Rightarrow> StringContains \<Rightarrow> evaluation \<Rightarrow> ContextState \<Rightarrow>
     assert_result \<times> AssertData option \<times> ContextState" where
  "run_assert lane contexts l K_THROWS file ln expr ty msg ev p =
     assert_throws_with lane contexts (DT l K_THROWS) file ln expr (Equals []) ev p"
| "run_assert lane contexts l K_THROWS_AS file ln expr ty msg ev p =
     assert_throws_as lane contexts (DT l K_THROWS_AS) file ln expr ty (Equals []) ev p"
| "run_assert lane contexts l K_THROWS_WITH file ln expr ty msg ev p =
     assert_throws_with lane contexts (DT l K_THROWS_WITH) file ln expr msg ev p"
| "run_assert lane contexts l K_THROWS_WITH_AS file ln expr ty msg ev p =
     assert_throws_as lane contexts (DT l K_THROWS_WITH_AS) file ln expr ty msg ev p"
| "run_assert lane contexts l K_NOTHROW file ln expr ty msg ev p =
     assert_nothrow lane contexts (DT l K_NOTHROW) file ln expr ev p"
| "run_assert lane contexts l k file ln expr ty msg ev p = assert_implement lane contexts (DT l k) file ln expr ev p"

section \<open>Messages\<close>

definition MB_log :: "nat \<Rightarrow> string list \<Rightarrow> MessageData \<Rightarrow> ContextState \<Rightarrow> ContextState" where
  "MB_log lane contexts mb p =
     (let p = report_event (Log_message mb contexts) p
      in if md_severity mb AND is_warn = 0
         then addFailedAssert lane (md_severity mb) (addAssert lane (md_severity mb) p) else p)"

definition MB_react :: "MessageData \<Rightarrow> bool" where
  "MB_react mb \<longleftrightarrow> md_severity mb AND is_require \<noteq> 0"

text \<open>The macros \<open>MESSAGE\<close>, \<open>FAIL_CHECK\<close> and \<open>FAIL\<close>.\<close>

definition add_message ::
    "nat \<Rightarrow> string list \<Rightarrow> level \<Rightarrow> string \<Rightarrow> int \<Rightarrow> string \<Rightarrow> ContextState \<Rightarrow> bool \<times> ContextState" where
  "add_message lane contexts l file ln msg p =
     (let mb = \<lparr>md_string = msg, md_file = file, md_line = ln, md_severity = level_flag l\<rparr>;
          p = MB_log lane contexts mb p
      in if MB_react mb then (True, throwException p) else (False, p))"

section \<open>Every assertion has its own name\<close>

lemma assert_cases_distinct: "distinct (map fst assert_cases)"
  by code_simp

text \<open>The string of the type of an assertion is the name of its macro.\<close>

lemma assertString_DT: "assertString (DT l k) = Some (level_name l @ kind_name k)"
proof -
  have "(DT l k, level_name l @ kind_name k) \<in> set assert_cases"
    by (cases l; cases k; simp add: assert_cases_def)
  then show ?thesis
    using map_of_eq_Some_iff [OF assert_cases_distinct] by (simp add: assertString_def)
qed

section \<open>What an assertion does\<close>

text \<open>When an assertion holds, by its kind.\<close>

definition threw :: "evaluation \<Rightarrow> bool" where
  "threw ev \<longleftrightarrow> (case ev of Value _ _ \<Rightarrow> False | Exception _ _ \<Rightarrow> True)"

definition thrown_text :: "evaluation \<Rightarrow> string" where
  "thrown_text ev = (case ev of Value _ _ \<Rightarrow> [] | Exception active _ \<Rightarrow> active)"

definition threw_type :: "evaluation \<Rightarrow> bool" where
  "threw_type ev \<longleftrightarrow> (case ev of Value _ _ \<Rightarrow> False | Exception _ is_of_type \<Rightarrow> is_of_type)"

fun holds :: "kind \<Rightarrow> StringContains \<Rightarrow> evaluation \<Rightarrow> bool" where
  "holds K_THROWS msg ev \<longleftrightarrow> threw ev"
| "holds K_THROWS_AS msg ev \<longleftrightarrow> threw_type ev"
| "holds K_THROWS_WITH msg ev \<longleftrightarrow> check msg (thrown_text ev)"
| "holds K_THROWS_WITH_AS msg ev \<longleftrightarrow> threw_type ev \<and> check msg (thrown_text ev)"
| "holds K_NOTHROW msg ev \<longleftrightarrow> \<not> threw ev"
| "holds k msg ev \<longleftrightarrow> (case ev of Value passed _ \<Rightarrow> passed | Exception _ _ \<Rightarrow> False)"

text \<open>Whether its macro looks at the option \<open>no_throw\<close>.\<close>

definition expects_throw :: "kind \<Rightarrow> bool" where
  "expects_throw k \<longleftrightarrow> k \<in> {K_THROWS, K_THROWS_AS, K_THROWS_WITH, K_THROWS_WITH_AS}"

lemma flag_tests:
  "DT l k AND is_warn = 0 \<longleftrightarrow> l \<noteq> WARN" "DT l k AND is_check = 0 \<longleftrightarrow> l \<noteq> CHECK"
  "DT l k AND is_require = 0 \<longleftrightarrow> l \<noteq> REQUIRE" "DT l k AND is_throws = 0 \<longleftrightarrow> k \<noteq> K_THROWS"
  "DT l k AND is_throws_as = 0 \<longleftrightarrow> k \<notin> {K_THROWS_AS, K_THROWS_WITH_AS}"
  "DT l k AND is_throws_with = 0 \<longleftrightarrow> k \<notin> {K_THROWS_WITH, K_THROWS_WITH_AS}"
  "DT l k AND is_nothrow = 0 \<longleftrightarrow> k \<noteq> K_NOTHROW"
  by (cases l; cases k; simp add: DT_def assert_flags)+

definition after_assert :: "nat \<Rightarrow> level \<Rightarrow> bool \<Rightarrow> ContextState \<Rightarrow> ContextState" where
  "after_assert lane l ok p =
     (if l = WARN then p
      else
        let p = p\<lparr>numAssertsCurrentTest_atomic := (numAssertsCurrentTest_atomic p)[lane := numAssertsCurrentTest_atomic p ! lane + 1]\<rparr>
        in if ok then p
           else p\<lparr>numAssertsFailedCurrentTest_atomic :=
                    (numAssertsFailedCurrentTest_atomic p)[lane := numAssertsFailedCurrentTest_atomic p ! lane + 1]\<rparr>)"

definition ends_test :: "level \<Rightarrow> ContextState \<Rightarrow> bool" where
  "ends_test l p \<longleftrightarrow> l = REQUIRE \<or>
     l = CHECK \<and> o_abort_after p > 0 \<and>
     numAssertsFailed p + load (numAssertsFailedCurrentTest_atomic p) \<ge> o_abort_after p"

text \<open>What the macro does once it is known whether the assertion holds.\<close>

definition decided ::
    "nat \<Rightarrow> string list \<Rightarrow> level \<Rightarrow> bool \<Rightarrow> AssertData \<Rightarrow> ContextState \<Rightarrow>
     assert_result \<times> AssertData option \<times> ContextState" where
  "decided lane contexts l ok rb p =
     (let q = report_event (Log_assert rb contexts) (after_assert lane l ok p)
      in if \<not> ok \<and> ends_test l q then (Throws_failure, Some rb, q\<lparr>shouldLogCurrentException := False\<rparr>)
         else (Returns ok, Some rb, q))"

definition logged_data :: "AssertData \<Rightarrow> bool \<Rightarrow> AssertData" where
  "logged_data rb ok =
     rb\<lparr>ad_failed := \<not> ok,
       ad_exception := (if ad_exception rb \<noteq> [] then [CHR 0x22] @ ad_exception rb @ [CHR 0x22] else [])\<rparr>"

lemma log_react_return_DT:
  assumes "ad_at rb AND is_warn = 0 \<longleftrightarrow> l \<noteq> WARN" "ad_at rb AND is_check = 0 \<longleftrightarrow> l \<noteq> CHECK"
    "ad_at rb AND is_require = 0 \<longleftrightarrow> l \<noteq> REQUIRE" and "verdict_of rb \<longleftrightarrow> \<not> ok"
  shows "log_react_return lane contexts rb p = decided lane contexts l ok (logged_data rb ok) p"
  using assms
  by (cases "ad_exception rb = []"; cases ok; cases l)
    (simp_all add: log_react_return_def RB_log_def RB_react_def addAssert_def addFailedAssert_def
      after_assert_def ends_test_def checkIfShouldThrow_def flag_tests post_increment_def fetch_add_def
      report_event_def throwException_def decided_def logged_data_def Let_def)

lemmas macro_defs = assert_implement_def assert_throws_as_def assert_throws_with_def assert_nothrow_def
  make_AssertData_def setResult_def translateException_def Let_def

text \<open>What is known of an assertion when its verdict is asked for.\<close>

definition evaluated :: "level \<Rightarrow> kind \<Rightarrow> string \<Rightarrow> int \<Rightarrow> string \<Rightarrow> ContextState \<Rightarrow> AssertData \<Rightarrow> bool" where
  "evaluated l k file ln expr p rb \<longleftrightarrow>
     ad_at rb = DT l k \<and> ad_test_case rb = o_currentTest p \<and> ad_file rb = file \<and> ad_line rb = ln \<and>
     ad_expr rb = expr"

lemma run_assert_decided:
  "if expects_throw k \<and> o_no_throw p
   then run_assert lane contexts l k file ln expr ty msg ev p = (Returns False, None, p)
   else (\<exists>rb. evaluated l k file ln expr p rb \<and> ad_failed rb = (\<not> holds k msg ev) \<and>
     run_assert lane contexts l k file ln expr ty msg ev p =
       decided lane contexts l (holds k msg ev) rb p)"
proof (cases "expects_throw k \<and> o_no_throw p")
  case True
  then show ?thesis by (auto simp: expects_throw_def macro_defs)
next
  case False
  have "\<exists>rb. run_assert lane contexts l k file ln expr ty msg ev p = log_react_return lane contexts rb p \<and>
      evaluated l k file ln expr p rb \<and> (verdict_of rb \<longleftrightarrow> \<not> holds k msg ev)"
    using False
    by (cases k; cases ev; simp add: expects_throw_def macro_defs)
      (intro conjI impI exI,
        (rule refl | simp add: evaluated_def verdict_of_def flag_tests threw_def threw_type_def thrown_text_def)+)+
  then obtain rb where rb: "run_assert lane contexts l k file ln expr ty msg ev p = log_react_return lane contexts rb p"
    "evaluated l k file ln expr p rb" "verdict_of rb \<longleftrightarrow> \<not> holds k msg ev" by blast
  then have "log_react_return lane contexts rb p = decided lane contexts l (holds k msg ev) (logged_data rb (holds k msg ev)) p"
    by (intro log_react_return_DT) (simp_all add: evaluated_def flag_tests)
  moreover have "evaluated l k file ln expr p (logged_data rb (holds k msg ev))"
    "ad_failed (logged_data rb (holds k msg ev)) = (\<not> holds k msg ev)"
    using rb(2) by (simp_all add: evaluated_def logged_data_def)
  ultimately show ?thesis using False rb(1) by (simp only: if_False) blast
qed

text \<open>C26. What an assertion does: it holds or not by what its expression did; unless it is a warning it
  is counted, and counted as failed if it does not hold; the reporters get it with that verdict; a
  failed \<open>REQUIRE\<close> ends the test, and a failed \<open>CHECK\<close> does if with it the failures of the run
  reach the limit. With \<open>no_throw\<close> an assertion that expects an exception does nothing and
  returns false.\<close>

theorem run_assert_outcome:
  "if expects_throw k \<and> o_no_throw p
   then run_assert lane contexts l k file ln expr ty msg ev p = (Returns False, None, p)
   else (\<exists>rb. evaluated l k file ln expr p rb \<and> ad_failed rb = (\<not> holds k msg ev) \<and>
     run_assert lane contexts l k file ln expr ty msg ev p =
       decided lane contexts l (holds k msg ev) rb p)"
  by (rule run_assert_decided)

text \<open>An assertion that expects an exception with an empty text holds although nothing is thrown.\<close>

lemma throws_with_nothing: "holds K_THROWS_WITH (Equals []) (Value b t) \<and> holds K_THROWS_WITH (Contains_text []) (Value b t)"
  by (simp add: thrown_text_def c_string_def)

lemma load_update: "lane < length xs \<Longrightarrow> load (xs[lane := xs ! lane + n]) = load xs + n"
  by (simp add: load_sum_list sum_list_changed)


definition one_failure :: ContextState where
  "one_failure = snd (snd (run_assert 1 [] CHECK K_EQ ''test.cpp'' 7 ''a == b'' [] (Equals []) (Value False ''1 == 2'')
      (blank_state\<lparr>o_abort_after := 2\<rparr>)))"


end
