(* ===== verification/Doctest_Reports.thy ===== *)
theory Doctest_Reports
  imports Doctest_Subcases Doctest_Assert
begin

text \<open>
  What the reporters of the vendored test framework (\<open>external/doctest.h\<close>) are told in a run, and
  in which order: a run is a sequence of test cases, between the start and the end of each lie its
  subcases, well nested, its assertions, messages and exceptions. The first section is a language of
  test functions made of the framework's macros, with the unwinding of scopes by exceptions.
\<close>

section \<open>Test functions made of macros\<close>

text \<open>An \<open>INFO\<close> holds until the end of its block.\<close>

datatype stmt =
    Assert level kind string int string string StringContains evaluation
  | Message level string int string
  | Info string
  | Subcase SubcaseSignature "stmt list"
  | Throw string

text \<open>The end of the scope of an \<open>INFO\<close>; \<open>uncaught\<close>: an exception is passing.\<close>

definition destroy :: "bool \<Rightarrow> string \<Rightarrow> ContextState \<Rightarrow> ContextState" where
  "destroy uncaught txts p =
     (if uncaught then p\<lparr>stringifiedContexts := stringifiedContexts p @ [txts]\<rparr> else p)"

text \<open>Running a block, with the texts of the contexts that are active.\<close>

function exec ::
    "nat \<Rightarrow> string list \<Rightarrow> stmt list \<Rightarrow> ContextState \<Rightarrow> (test_outcome \<times> ContextState) option" where
  "exec lane contexts [] p = Some (Completes, p)"
| "exec lane contexts (Assert l k file ln expr ty msg ev # rest) p =
     (case run_assert lane contexts l k file ln expr ty msg ev p of
        (Throws_failure, _, p) \<Rightarrow> Some (FailsAssertion, p)
      | (Returns _, _, p) \<Rightarrow> exec lane contexts rest p)"
| "exec lane contexts (Message l file ln msg # rest) p =
     (case add_message lane contexts l file ln msg p of
        (True, p) \<Rightarrow> Some (FailsAssertion, p)
      | (False, p) \<Rightarrow> exec lane contexts rest p)"
| "exec lane contexts (Info txts # rest) p =
     (case exec lane (contexts @ [txts]) rest p of
        None \<Rightarrow> None
      | Some (outcome, p) \<Rightarrow> Some (outcome, destroy (outcome \<noteq> Completes) txts p))"
| "exec lane contexts (Subcase s body # rest) p =
     (case Subcase_enter s p of
        None \<Rightarrow> None
      | Some (entered, p) \<Rightarrow>
          (case (if entered then exec lane contexts body p else Some (Completes, p)) of
             None \<Rightarrow> None
           | Some (outcome, p) \<Rightarrow>
               let p = Subcase_leave entered (outcome \<noteq> Completes) p
               in if outcome = Completes then exec lane contexts rest p else Some (outcome, p)))"
| "exec lane contexts (Throw txts # rest) p = Some (ThrowsException txts, p)"
  by pat_completeness auto
termination by (relation "measure (\<lambda>(_, _, ss, _). size_list size ss)") auto

definition program_test :: "nat \<Rightarrow> stmt list \<Rightarrow> test_function" where
  "program_test lane ss = exec lane [] ss"

section \<open>The order of the reports\<close>

text \<open>Before the run, between test cases, in a test case and so many subcases, after the run.\<close>

datatype stage = Before | Between | Inside nat | After

fun event_step :: "reporter_event \<Rightarrow> stage \<Rightarrow> stage option" where
  "event_step e Before =
     (case e of Report_query _ _ \<Rightarrow> Some After | Test_run_start \<Rightarrow> Some Between | _ \<Rightarrow> None)"
| "event_step e Between =
     (case e of Test_run_end _ \<Rightarrow> Some After | Test_case_start _ \<Rightarrow> Some (Inside 0)
      | Test_case_skipped _ \<Rightarrow> Some Between | _ \<Rightarrow> None)"
| "event_step e (Inside n) =
     (case e of
        Test_case_reenter _ \<Rightarrow> if n = 0 then Some (Inside 0) else None
      | Test_case_end _ \<Rightarrow> if n = 0 then Some Between else None
      | Test_case_exception _ _ _ \<Rightarrow> Some (Inside n)
      | Subcase_start _ \<Rightarrow> Some (Inside (n + 1))
      | Subcase_end \<Rightarrow> if 0 < n then Some (Inside (n - 1)) else None
      | Log_assert _ _ \<Rightarrow> Some (Inside n)
      | Log_message _ _ \<Rightarrow> Some (Inside n)
      | _ \<Rightarrow> None)"
| "event_step e After = None"

fun event_steps :: "reporter_event list \<Rightarrow> stage \<Rightarrow> stage option" where
  "event_steps [] st = Some st"
| "event_steps (e # es) st = (case event_step e st of None \<Rightarrow> None | Some st \<Rightarrow> event_steps es st)"

lemma event_steps_append:
  "event_steps (a @ b) st = (case event_steps a st of None \<Rightarrow> None | Some st \<Rightarrow> event_steps b st)"
  by (induction a arbitrary: st) (simp_all split: option.split)

text \<open>Reports that can be written out: test cases have a name and a suite, assertions a known type.\<close>

definition named :: "TestCaseData \<Rightarrow> bool" where
  "named tc \<longleftrightarrow> tc_name tc \<noteq> None \<and> tc_test_suite tc \<noteq> None"

fun event_ok :: "reporter_event \<Rightarrow> bool" where
  "event_ok (Test_case_start tc) = named tc"
| "event_ok (Test_case_reenter tc) = named tc"
| "event_ok (Test_case_skipped tc) = named tc"
| "event_ok (Log_assert rb contexts) \<longleftrightarrow> assertString (ad_at rb) \<noteq> None"
| "event_ok (Report_query data run_stats) \<longleftrightarrow> list_all named data"
| "event_ok _ = True"

text \<open>What a change of the context reports.\<close>

definition reports :: "ContextState \<Rightarrow> ContextState \<Rightarrow> stage \<Rightarrow> stage \<Rightarrow> bool" where
  "reports p q st st' \<longleftrightarrow> (\<exists>es. reported q = reported p @ es \<and> event_steps es st = Some st' \<and> list_all event_ok es)"

named_theorems report_intros

lemma reports_refl [report_intros]: "reported q = reported p \<Longrightarrow> reports p q st st"
  by (simp add: reports_def)

lemma reports_trans: "reports p q st st' \<Longrightarrow> reports q r st' st'' \<Longrightarrow> reports p r st st''"
  by (auto simp: reports_def event_steps_append)

lemma reports_event [report_intros]:
  "event_step e st = Some st' \<Longrightarrow> event_ok e \<Longrightarrow> reported q = reported p @ [e] \<Longrightarrow> reports p q st st'"
  by (auto simp: reports_def)

lemma reports_cong: "reported p' = reported p \<Longrightarrow> reported q' = reported q \<Longrightarrow> reports p' q' st st' = reports p q st st'"
  by (simp add: reports_def)

text \<open>A test function is balanced if its reports end in as many subcases as they have started in.\<close>

definition balanced :: "test_function \<Rightarrow> bool" where
  "balanced test \<longleftrightarrow>
     (\<forall>p outcome q. test p = Some (outcome, q) \<longrightarrow> reports p q (Inside 0) (Inside 0))"

lemma reported_enter:
  "Subcase_enter s p = Some (entered, q) \<Longrightarrow>
     reported q = reported p @ (if entered then [Subcase_start s] else [])"
  by (auto simp: Subcase_enter_def report_event_def split: if_splits)

lemma enter_reports:
  "Subcase_enter s p = Some (True, q) \<Longrightarrow> reports p q (Inside n) (Inside (Suc n))"
  "Subcase_enter s p = Some (False, q) \<Longrightarrow> reports p q (Inside n) (Inside n)"
  using reported_enter [of s p True q] reported_enter [of s p False q] by (simp_all add: reports_def)

lemma leave_reports:
  "reports p (Subcase_leave True u p) (Inside (Suc n)) (Inside n)"
  "reports p (Subcase_leave False u p) (Inside n) (Inside n)"
  by (auto simp: Subcase_leave_def Let_def report_event_def reports_def)

lemma assert_reports:
  assumes "run_assert lane contexts l k file ln expr ty msg ev p = (r, ad, q)"
  shows "reports p q (Inside n) (Inside n)"
proof -
  have same: "reported (after_assert lane l ok p) = reported p" for ok by (simp add: after_assert_def Let_def)
  consider "q = p" | rb where "decided lane contexts l (holds k msg ev) rb p = (r, ad, q)" "ad_at rb = DT l k"
    using run_assert_decided [where k = k and p = p and ev = ev and msg = msg] assms
    unfolding evaluated_def by (metis (no_types, lifting) Pair_inject)
  then show ?thesis
  proof cases
    case 2
    then have "reported q = reported p @ [Log_assert rb contexts]"
      using same by (auto simp: decided_def report_event_def Let_def split: if_splits)
    then show ?thesis using 2(2) assertString_DT by (intro reports_event) auto
  qed (auto intro: report_intros)
qed

lemma message_reports:
  "add_message lane contexts l file ln msg p = (r, q) \<Longrightarrow> reports p q (Inside n) (Inside n)"
  by (auto simp: add_message_def MB_log_def addAssert_def addFailedAssert_def report_event_def
      throwException_def Let_def reports_def split: if_splits)

lemma exec_reports: "exec lane contexts ss p = Some (outcome, q) \<Longrightarrow> reports p q (Inside n) (Inside n)"
proof (induction lane contexts ss p arbitrary: outcome q n rule: exec.induct)
  case (2 lane contexts l k fl ln expr ty msg ev rest p)
  obtain r ad p1 where r: "run_assert lane contexts l k fl ln expr ty msg ev p = (r, ad, p1)" by (metis prod_cases3)
  then show ?case
    using 2 assert_reports [OF r] reports_trans by (cases r) (fastforce+)
next
  case (3 lane contexts l fl ln msg rest p)
  obtain r p1 where r: "add_message lane contexts l fl ln msg p = (r, p1)" by force
  then show ?case using 3 message_reports [OF r] reports_trans by (cases r) (fastforce+)
next
  case (4 lane contexts t rest p)
  then obtain p1 where "exec lane (contexts @ [t]) rest p = Some (outcome, p1)" "q = destroy (outcome \<noteq> Completes) t p1"
    by (auto split: option.splits)
  then show ?case using 4(1) reports_cong [of p p q p1] by (simp add: destroy_def)
next
  case (5 lane contexts s body rest p)
  then obtain entered p1 where e: "Subcase_enter s p = Some (entered, p1)"
    by (auto split: option.splits)
  let ?m = "if entered then Suc n else n"
  have p1: "reports p p1 (Inside n) (Inside ?m)" using enter_reports e by (cases entered) auto
  obtain out p2 where b: "(if entered then exec lane contexts body p1 else Some (Completes, p1)) = Some (out, p2)"
    using 5(3) e by (auto split: option.splits if_splits)
  have p2: "reports p1 p2 (Inside ?m) (Inside ?m)"
    using 5(1) [OF e refl] b by (cases entered) (auto intro: report_intros)
  let ?p3 = "Subcase_leave entered (out \<noteq> Completes) p2"
  have p3: "reports p2 ?p3 (Inside ?m) (Inside n)" using leave_reports by (cases entered) auto
  have p: "reports p ?p3 (Inside n) (Inside n)" using p1 p2 p3 reports_trans by blast
  show ?case
  proof (cases "out = Completes")
    case True
    then have "exec lane contexts rest ?p3 = Some (outcome, q)" using 5(3) e b by (auto simp: Let_def split: if_splits)
    then have "reports ?p3 q (Inside n) (Inside n)"
      using 5(2) [OF e refl b] True by (auto simp: Let_def)
    then show ?thesis using p reports_trans by blast
  next
    case False
    then show ?thesis using p 5(3) e b by (auto simp: Let_def split: if_splits)
  qed
qed (auto intro: report_intros)

lemma program_balanced: "balanced (program_test lane ss)"
  using exec_reports by (auto simp: balanced_def program_test_def)

section \<open>A whole run\<close>

lemma pass_reports:
  assumes "balanced test" "named tc" "test_pass tc test p = Some (again, q)"
  shows "reports p q (Inside 0) (Inside 0)"
proof -
  obtain outcome p1 where p1: "test (start_pass p) = Some (outcome, p1)"
    using assms(3) by (auto simp: test_pass_def split: option.splits)
  have "reports (start_pass p) p1 (Inside 0) (Inside 0)" using assms(1) p1 by (auto simp: balanced_def)
  then have start: "reports p p1 (Inside 0) (Inside 0)"
    by (simp add: reports_def start_pass_def)
  have "reports p1 q (Inside 0) (Inside 0)"
    using assms(2,3) p1
    by (cases outcome) (auto simp: test_pass_def Let_def report_event_def reports_def split: if_splits)
  then show ?thesis using start reports_trans by blast
qed

lemma loop_reports:
  "test_loop tc test p = Some q \<Longrightarrow> balanced test \<Longrightarrow> named tc \<Longrightarrow> reports p q (Inside 0) (Inside 0)"
proof (induction rule: test_loop.raw_induct [rotated, consumes 1, case_names step])
  case (step loop tc test p q)
  from step(2) obtain again p1 where p1: "test_pass tc test p = Some (again, p1)"
      "(if again then loop tc test p1 else Some p1) = Some q"
    by (auto split: option.splits)
  have "reports p p1 (Inside 0) (Inside 0)" using pass_reports [OF step(3,4) p1(1)] .
  then show ?case using step(1) [of tc test p1 q] step(3,4) p1(2) reports_trans by (auto split: if_splits)
qed

lemma case_reports:
  assumes "balanced (tc_test tc)" "named (TestCaseData.truncate tc)" "run_case slow tc p = Some q"
  shows "reports p q Between Between"
proof -
  let ?t = "TestCaseData.truncate tc" and ?p = "start_case (TestCaseData.truncate tc) p"
  obtain r where r: "test_loop ?t (tc_test tc) (report_event (Test_case_start ?t) ?p) = Some r" "q = end_case slow r"
    using assms(3) by (auto simp: run_case_def Let_def)
  have "reports p (report_event (Test_case_start ?t) ?p) Between (Inside 0)"
    using assms(2) by (simp add: reports_def report_event_def start_case_def)
  moreover have "reports (report_event (Test_case_start ?t) ?p) r (Inside 0) (Inside 0)"
    using loop_reports [OF r(1) assms(1,2)] .
  moreover have "reports r q (Inside 0) Between"
    by (simp add: r(2) end_case_def finalizeTestCaseData_def Let_def reports_def report_event_def)
  ultimately show ?thesis using reports_trans by blast
qed

text \<open>The tests of a run.\<close>

definition good_tests :: "test_function TestCase list \<Rightarrow> bool" where
  "good_tests tcs \<longleftrightarrow> (\<forall>tc \<in> set tcs. balanced (tc_test tc) \<and> named (TestCaseData.truncate tc))"

text \<open>One round of the loop over the tests.\<close>

lemma tests_step:
  assumes "run_tests slow query (tc # tcs) s = Some s'"
  obtains
    (quiet) s1 where "run_tests slow query tcs s1 = Some s'" "reported (ctx s1) = reported (ctx s)"
      "query_mode (ctx s1) = query_mode (ctx s)"
  | (skip) s1 where "\<not> query" "run_tests slow query tcs s1 = Some s'"
      "reported (ctx s1) = reported (ctx s) @ [Test_case_skipped (TestCaseData.truncate tc)]"
  | (last) p where "\<not> query_mode (ctx s)" "reported p = reported (ctx s)"
      "run_case (slow (TestCaseData.truncate tc)) tc p = Some (ctx s')"
  | (go_on) p s1 where "\<not> query_mode (ctx s)" "reported p = reported (ctx s)"
      "run_case (slow (TestCaseData.truncate tc)) tc p = Some (ctx s1)" "run_tests slow query tcs s1 = Some s'"
proof -
  let ?s = "count_passing tc s"
  have passing: "reported (ctx ?s) = reported (ctx s)" "query_mode (ctx ?s) = query_mode (ctx s)"
    by (simp_all add: count_passing_def query_mode_def)
  have listed: "reported (ctx (list_suite tc ?s)) = reported (ctx s)"
    "query_mode (ctx (list_suite tc ?s)) = query_mode (ctx s)"
    using passing by (simp_all add: list_suite_def query_mode_def Let_def)
  consider (skip_me) "filtered_out (ctx s) tc \<or> out_of_range (ctx ?s)"
    | (listed) "\<not> (filtered_out (ctx s) tc \<or> out_of_range (ctx ?s))" "query_mode (ctx ?s)"
    | (runs) "\<not> (filtered_out (ctx s) tc \<or> out_of_range (ctx ?s))" "\<not> query_mode (ctx ?s)"
    by blast
  then show ?thesis
  proof cases
    case skip_me
    then show ?thesis
      using assms passing quiet [of ?s] skip [of "?s\<lparr>ctx := report_event (Test_case_skipped (TestCaseData.truncate tc)) (ctx ?s)\<rparr>"]
      by (auto simp: Let_def report_event_def split: if_splits)
  next
    case listed: listed
    then show ?thesis
      using assms passing \<open>reported (ctx (list_suite tc ?s)) = _\<close> \<open>query_mode (ctx (list_suite tc ?s)) = _\<close>
        quiet [of ?s] quiet [of "?s\<lparr>queryResults := queryResults ?s @ [TestCaseData.truncate tc]\<rparr>"] quiet [of "list_suite tc ?s"]
      by (auto simp: Let_def query_mode_def split: if_splits)
  next
    case runs
    then show ?thesis
      using assms passing last [of "ctx ?s"] go_on [of "ctx ?s"]
      by (force simp: Let_def query_mode_def split: if_splits option.splits)
  qed
qed

lemma tests_report:
  "good_tests tcs \<Longrightarrow> run_tests slow False tcs s = Some s' \<Longrightarrow> reports (ctx s) (ctx s') Between Between"
proof (induction tcs arbitrary: s)
  case (Cons tc tcs)
  have good: "good_tests tcs" "balanced (tc_test tc)" "named (TestCaseData.truncate tc)"
    using Cons.prems(1) by (simp_all add: good_tests_def)
  have step: "reports (ctx s) (ctx s') Between Between"
    if "reports (ctx s) (ctx s1) Between Between" "run_tests slow False tcs s1 = Some s'" for s1
    using that Cons.IH [OF good(1) that(2)] reports_trans by blast
  have ran: "reports (ctx s) q Between Between"
    if "run_case sl tc p = Some q" "reported p = reported (ctx s)" for sl p q
    using case_reports [OF good(2,3) that(1)] that(2) by (simp add: reports_def)
  from Cons.prems(2) show ?case
  proof (cases rule: tests_step)
    case (quiet s1)
    then show ?thesis using step [OF reports_refl] by blast
  next
    case (skip s1)
    then show ?thesis
      using good(3) by (intro step [OF reports_event [where e = "Test_case_skipped (TestCaseData.truncate tc)"]]) simp_all
  next
    case (last p)
    then show ?thesis using ran by blast
  next
    case (go_on p s1)
    then show ?thesis using step [OF ran] by blast
  qed
qed (auto intro: report_intros)

lemma listed_named:
  "good_tests tcs \<Longrightarrow> run_tests slow query tcs s = Some s' \<Longrightarrow> list_all named (queryResults s) \<Longrightarrow>
     list_all named (queryResults s')"
proof (induction tcs arbitrary: s)
  case (Cons tc tcs)
  have good: "good_tests tcs" "named (TestCaseData.truncate tc)"
    using Cons.prems(1) by (simp_all add: good_tests_def)
  have same: "queryResults (count_passing tc s) = queryResults s" by (simp add: count_passing_def)
  have suite: "list_all named (queryResults (list_suite tc t))" if "queryResults t = queryResults s" for t
    using that Cons.prems(3) good(2) by (simp add: list_suite_def Let_def)
  show ?case
    using Cons.prems(2,3) Cons.IH [OF good(1)] good(2) same suite
    by (force simp: Let_def split: if_splits option.splits)
qed simp

lemma query_silent:
  "query_mode (ctx s) \<Longrightarrow> run_tests slow True tcs s = Some s' \<Longrightarrow> reported (ctx s') = reported (ctx s)"
proof (induction tcs arbitrary: s)
  case (Cons tc tcs)
  from Cons.prems(2) show ?case using Cons.prems(1) Cons.IH by (cases rule: tests_step) auto
qed simp

text \<open>The reports of a run: from the first to the last, in an order that the stages allow.\<close>

definition well_reported :: "reporter_event list \<Rightarrow> bool" where
  "well_reported es \<longleftrightarrow> event_steps es Before = Some After \<and> list_all event_ok es"

lemma no_query_later: "event_steps es st = Some st' \<Longrightarrow> st \<noteq> Before \<Longrightarrow> Report_query d r \<notin> set es"
proof (induction es arbitrary: st)
  case (Cons e es)
  then obtain st1 where "event_step e st = Some st1" "event_steps es st1 = Some st'"
    by (auto split: option.splits)
  moreover from this(1) have "st1 \<noteq> Before \<and> (\<nexists>d r. e = Report_query d r)"
    using Cons.prems(2) by (cases st; cases e) (auto split: if_splits)
  ultimately show ?case using Cons.IH by auto
qed simp

lemma start_run_simps:
  "only_asks (start_run p) = only_asks p" "query_mode (start_run p) = query_mode p" "reported (start_run p) = []"
  by (simp_all add: start_run_def only_asks_def query_mode_def default_reporter_def resetRunData_def)

lemma only_asks_reported:
  "only_asks p \<Longrightarrow> \<exists>code s. run_context slow testArray p = Some (code, s) \<and> reported (ctx s) = [Report_query [] None]"
  by (simp add: run_context_def start_run_simps report_event_def Let_def)

lemma run_reported:
  assumes "\<forall>p. good_tests (testArray p)" "run_context slow testArray p = Some (code, s)"
  shows "well_reported (reported (ctx s)) \<and> (Report_query d None \<in> set (reported (ctx s)) \<longrightarrow> only_asks p)"
proof -
  let ?p = "start_run p"
  let ?q = "?p\<lparr>numTestCases := of_nat (length (testArray ?p))\<rparr>"
  let ?s = "\<lambda>q. \<lparr>ctx = q, queryResults = [], testSuitesPassingFilt = []\<rparr>"
  consider (query) "only_asks p" "reported (ctx s) = [Report_query [] None]"
    | (list) s' where "query_mode ?q" "run_tests slow True (testArray ?p) (?s ?q) = Some s'"
        "s = report_results True s'"
    | (run) s' where "run_tests slow False (testArray ?p) (?s (report_event Test_run_start ?q)) = Some s'"
        "s = report_results False s'"
    using assms(2) only_asks_reported [of p slow testArray]
    by (cases "only_asks p"; cases "query_mode ?q")
      (auto simp: run_context_def start_run_simps Let_def)
  then show ?thesis
  proof cases
    case query
    then show ?thesis by (simp add: well_reported_def)
  next
    case list
    then have "reported (ctx s') = []" using query_silent [OF _ list(2)] by (simp add: start_run_simps)
    moreover have "list_all named (queryResults s')" using listed_named [OF _ list(2)] assms(1) by simp
    ultimately show ?thesis using list(3) by (simp add: report_results_def report_event_def well_reported_def)
  next
    case run
    have "reports (report_event Test_run_start ?q) (ctx s') Between Between"
      using tests_report [OF _ run(1)] assms(1) by simp
    then obtain es where es: "reported (ctx s') = Test_run_start # es" "event_steps es Between = Some Between" "list_all event_ok es"
      by (auto simp: reports_def report_event_def start_run_simps)
    then have "Report_query d None \<notin> set es" using no_query_later by blast
    then show ?thesis
      using es run(2) by (simp add: report_results_def report_event_def well_reported_def event_steps_append)
  qed
qed

text \<open>C25. What the reporters are told in a run comes in an order that makes sense: the run starts and
  ends once, or one query is answered; test cases do not overlap; subcases are nested in their test
  case, all of them are left when it is entered again or ends, also when an exception passes through
  them; and every assertion has a known type. For this it is enough that the tests are made of the
  macros, or anything else that leaves the subcases it enters.\<close>

theorem run_reports_in_order:
  assumes "\<forall>p. good_tests (testArray p)" "run_context slow testArray p = Some (code, s)"
  shows "well_reported (reported (ctx s))"
  using run_reported [OF assms] by simp

definition sample_test :: "test_function TestCase" where
  "sample_test =
     TestCaseData.extend
       (may_fail_case\<lparr>tc_name := Some ''sums'', tc_test_suite := Some ''arithmetic''\<rparr>)
       \<lparr>tc_test = program_test 0
          [Info ''a = 1'',
           Subcase \<lparr>m_name = ''wrong'', m_file = ''test.cpp'', m_line = 5\<rparr>
             [Assert REQUIRE K_EQ ''test.cpp'' 6 ''a == 2'' [] (Equals []) (Value False ''1 == 2'')],
           Subcase \<lparr>m_name = ''right'', m_file = ''test.cpp'', m_line = 8\<rparr> [Message WARN ''test.cpp'' 9 ''a is 1'']],
        tc_type = [], tc_template_id = -1, tc_full_name = []\<rparr>"

definition sample_state :: ContextState where
  "sample_state = blank_state\<lparr>o_last := 100\<rparr>"

lemma sample_good: "good_tests [sample_test]"
  by (simp add: good_tests_def sample_test_def program_balanced TestCaseData.defs may_fail_case_def named_def)

lemma sample_runs:
  "case run_context (\<lambda>_. False) (\<lambda>_. [sample_test]) sample_state of None \<Rightarrow> False | Some (code, s) \<Rightarrow> code = 0"
  by code_simp

theorem run_reports_in_order_witness:
  "\<exists>code s. run_context (\<lambda>_. False) (\<lambda>_. [sample_test]) sample_state = Some (code, s) \<and>
     well_reported (reported (ctx s))"
proof -
  obtain code s where "run_context (\<lambda>_. False) (\<lambda>_. [sample_test]) sample_state = Some (code, s)"
    using sample_runs by (auto split: option.splits)
  then show ?thesis using run_reports_in_order [of "\<lambda>_. [sample_test]"] sample_good by blast
qed

section \<open>After a crash\<close>

text \<open>\<open>reportFatal\<close>, which the signal handler calls; first its loop.\<close>

fun end_subcases :: "SubcaseSignature list \<Rightarrow> ContextState \<Rightarrow> ContextState" where
  "end_subcases [] p = p\<lparr>subcaseStack := []\<rparr>"
| "end_subcases (_ # stack) p = end_subcases stack (report_event Subcase_end p)"

definition reportFatal :: "bool \<Rightarrow> string \<Rightarrow> ContextState \<Rightarrow> ContextState" where
  "reportFatal timed_out message p =
     (let p = p\<lparr>failure_flags := add_flag Crash (failure_flags p)\<rparr>;
          p = report_event (Test_case_exception message True (stringifiedContexts p)) p;
          p = end_subcases (subcaseStack p) p;
          p = finalizeTestCaseData timed_out p;
          p = report_event (Test_case_end (CurrentTestCaseStats.truncate p)) p
      in report_event (Test_run_end (TestRunStats.truncate p)) p)"

text \<open>Leaving a subcase does not take it from the stack.\<close>

lemma stack_after_leaving: "subcaseStack (Subcase_leave entered uncaught p) = subcaseStack p"
  by (simp add: Subcase_leave_def report_event_def Let_def)

lemma reported_end_subcases: "reported (end_subcases stack p) = reported p @ map (\<lambda>_. Subcase_end) stack"
  by (induction stack arbitrary: p) (simp_all add: report_event_def)

lemma reported_finalize: "reported (finalizeTestCaseData timed_out p) = reported p"
  by (simp add: finalizeTestCaseData_def Let_def)

lemma reported_event: "reported (report_event e p) = reported p @ [e]"
  by (simp add: report_event_def)

lemma reported_fatal:
  "\<exists>st st'. reported (reportFatal timed_out message p) = reported p @
     Test_case_exception message True (stringifiedContexts p) # map (\<lambda>_. Subcase_end) (subcaseStack p) @
       [Test_case_end st, Test_run_end st']"
  unfolding reportFatal_def Let_def reported_event reported_finalize reported_end_subcases
  by (simp add: report_event_def)

lemma steps_ends:
  "event_steps (map (\<lambda>_. Subcase_end) stack @ es) (Inside n) =
     (if length stack \<le> n then event_steps es (Inside (n - length stack)) else None)"
  by (induction stack arbitrary: n) (auto simp: Suc_le_eq split: if_splits)

text \<open>C31. After a crash inside of so many subcases the reports end the test case and the run in order
  exactly if the stack of subcases holds just those; but it also holds the subcases of the pass
  that have been left, which are then ended twice.\<close>

theorem crash_reports_iff:
  "(\<exists>es. reported (reportFatal timed_out message p) = reported p @ es \<and> event_steps es (Inside n) = Some After)
     \<longleftrightarrow> length (subcaseStack p) = n"
proof -
  obtain st' st where r: "reported (reportFatal timed_out message p) = reported p @
      Test_case_exception message True (stringifiedContexts p) # map (\<lambda>_. Subcase_end) (subcaseStack p) @
        [Test_case_end st, Test_run_end st']"
    using reported_fatal by blast
  show ?thesis
    unfolding r by (auto simp: steps_ends)
qed

section \<open>A fatal failure in a subcase\<close>

lemma fatal_assert:
  assumes "run_assert lane contexts REQUIRE K_EQ file ln expr ty msg (Value False d) p = (r, ad, q)"
  shows "r = Throws_failure \<and> (\<exists>e. q = (report_event e (after_assert lane REQUIRE False p))\<lparr>shouldLogCurrentException := False\<rparr>)"
proof -
  have "\<not> expects_throw K_EQ" "\<not> holds K_EQ msg (Value False d)" by (simp_all add: expects_throw_def)
  then obtain rb where "run_assert lane contexts REQUIRE K_EQ file ln expr ty msg (Value False d) p =
      decided lane contexts REQUIRE False rb p"
    using run_assert_decided [where k = K_EQ and p = p and l = REQUIRE and ev = "Value False d" and msg = msg] by metis
  then show ?thesis using assms by (auto simp: decided_def ends_test_def Let_def)
qed



end
