(* ===== verification/Doctest_Xml.thy ===== *)
theory Doctest_Xml
  imports Doctest_String "HOL-Library.Sublist"
begin

text \<open>
  The XML writer of the vendored test framework (\<open>external/doctest.h\<close>): the encoding of texts
  and attributes, which escapes what XML does not allow, byte by byte, and the writer, which keeps a
  stack of open tags. The stream is the text written so far. An encoded text cannot end a tag or an
  attribute; so whatever is written, the tags are nested, which a small scanner checks.
\<close>

unbundle bit_operations_syntax

section \<open>Encoding\<close>

type_synonym byte = "32 word"

definition byte_of :: "char \<Rightarrow> byte" where
  "byte_of c = word_of_int (uchar c)"

text \<open>\<open>None\<close>: the internal error that is thrown.\<close>

definition trailingBytes :: "byte \<Rightarrow> nat option" where
  "trailingBytes c =
     (if c AND 0xE0 = 0xC0 then Some 2
      else if c AND 0xF0 = 0xE0 then Some 3
      else if c AND 0xF8 = 0xF0 then Some 4
      else None)"

definition headerValue :: "byte \<Rightarrow> 32 word option" where
  "headerValue c =
     (if c AND 0xE0 = 0xC0 then Some (c AND 0x1F)
      else if c AND 0xF0 = 0xE0 then Some (c AND 0x0F)
      else if c AND 0xF8 = 0xF0 then Some (c AND 0x07)
      else None)"

definition hex_digit :: "nat \<Rightarrow> char" where
  "hex_digit n = ''0123456789ABCDEF'' ! n"

definition hexEscapeChar :: "char \<Rightarrow> string" where
  "hexEscapeChar c =
     [CHR 0x5C, CHR ''x'', hex_digit (nat (uchar c) div 16), hex_digit (nat (uchar c) mod 16)]"

datatype for_what = ForTextNodes | ForAttributes

text \<open>The check of the bytes after a header: whether all are continuations, and the value.\<close>

definition read_bytes :: "string \<Rightarrow> nat \<Rightarrow> nat \<Rightarrow> 32 word \<Rightarrow> bool \<times> 32 word" where
  "read_bytes m_str idx encBytes hdr =
     foldl (\<lambda>(valid, v) n.
         let nc = byte_of (m_str ! (idx + n))
         in (valid \<and> nc AND 0xC0 = 0x80, push_bit 6 v OR (nc AND 0x3F)))
       (True, hdr) [1..<encBytes]"

definition bad_sequence :: "bool \<Rightarrow> 32 word \<Rightarrow> nat \<Rightarrow> bool" where
  "bad_sequence valid v encBytes \<longleftrightarrow>
     \<not> valid \<or> v < 0x80 \<or> v < 0x800 \<and> encBytes > 2 \<or> 0x800 < v \<and> v < 0x10000 \<and> encBytes > 3 \<or>
     v \<ge> 0x110000"

text \<open>What is written for the byte at a position, and how far the position is moved in addition.\<close>

definition encode_default :: "string \<Rightarrow> nat \<Rightarrow> (string \<times> nat) option" where
  "encode_default m_str idx =
     (let ch = m_str ! idx; c = byte_of ch
      in if c < 0x09 \<or> c > 0x0D \<and> c < 0x20 \<or> c = 0x7F then Some (hexEscapeChar ch, 0)
         else if c < 0x7F then Some ([ch], 0)
         else if c < 0xC0 \<or> c \<ge> 0xF8 then Some (hexEscapeChar ch, 0)
         else
           (case (trailingBytes c, headerValue c) of
              (Some encBytes, Some hdr) \<Rightarrow>
                if idx + encBytes - 1 \<ge> length m_str then Some (hexEscapeChar ch, 0)
                else
                  (case read_bytes m_str idx encBytes hdr of
                     (valid, v) \<Rightarrow>
                       if bad_sequence valid v encBytes then Some (hexEscapeChar ch, 0)
                       else Some (map (\<lambda>n. m_str ! (idx + n)) [0..<encBytes], encBytes - 1))
            | _ \<Rightarrow> None))"

definition encode_at :: "for_what \<Rightarrow> string \<Rightarrow> nat \<Rightarrow> (string \<times> nat) option" where
  "encode_at m_forWhat m_str idx =
     (let c = m_str ! idx
      in if c = CHR ''<'' then Some (''&lt;'', 0)
         else if c = CHR ''&'' then Some (''&amp;'', 0)
         else if c = CHR ''>'' then
           (if idx > 2 \<and> m_str ! (idx - 1) = CHR '']'' \<and> m_str ! (idx - 2) = CHR '']''
            then Some (''&gt;'', 0) else Some ([c], 0))
         else if c = CHR 0x22 then
           (if m_forWhat = ForAttributes then Some (''&quot;'', 0) else Some ([c], 0))
         else encode_default m_str idx)"

function encode_from :: "for_what \<Rightarrow> string \<Rightarrow> nat \<Rightarrow> string option" where
  "encode_from m_forWhat m_str idx =
     (if idx < length m_str then
        (case encode_at m_forWhat m_str idx of
           None \<Rightarrow> None
         | Some (out, n) \<Rightarrow>
             map_option (\<lambda>rest. out @ rest) (encode_from m_forWhat m_str (idx + n + 1)))
      else Some [])"
  by pat_completeness auto
termination
  by (relation "measure (\<lambda>(_, s, idx). length s - idx)") auto

declare encode_from.simps [simp del]

definition encodeTo :: "for_what \<Rightarrow> string \<Rightarrow> string option" where
  "encodeTo m_forWhat m_str = encode_from m_forWhat m_str 0"

section \<open>Any text is encoded safely\<close>

text \<open>Facts on single bytes, checked on all of them.\<close>

lemma byte_table: fixes c :: char shows
  "if 0xC0 \<le> byte_of c \<and> byte_of c < 0xF8
   then trailingBytes (byte_of c) \<in> {Some 2, Some 3, Some 4} \<and> headerValue (byte_of c) \<noteq> None
   else trailingBytes (byte_of c) = None"
proof -
  have "\<forall>c. if 0xC0 \<le> byte_of c \<and> byte_of c < 0xF8
   then trailingBytes (byte_of c) \<in> {Some 2, Some 3, Some 4} \<and> headerValue (byte_of c) \<noteq> None
   else trailingBytes (byte_of c) = None"
    by code_simp
  then show ?thesis by blast
qed

text \<open>The characters XML allows, apart from the checks on sequences of bytes.\<close>

definition xml_char :: "char \<Rightarrow> bool" where
  "xml_char c \<longleftrightarrow> (9 \<le> uchar c \<and> uchar c \<le> 13 \<or> 32 \<le> uchar c) \<and> uchar c \<noteq> 127"

definition plain_byte :: "char \<Rightarrow> bool" where
  "plain_byte c \<longleftrightarrow> c \<noteq> CHR ''<'' \<and> c \<noteq> CHR ''&'' \<and> c \<noteq> CHR 0x22"

lemma xml_char_tables: fixes c :: char shows
  "byte_of c < 0x09 \<or> byte_of c > 0x0D \<and> byte_of c < 0x20 \<or> byte_of c = 0x7F \<longleftrightarrow> \<not> xml_char c"
  "byte_of c AND 0xC0 = 0x80 \<longrightarrow> xml_char c \<and> plain_byte c"
  "list_all xml_char (hexEscapeChar c) \<and> list_all plain_byte (hexEscapeChar c)"
proof -
  have "\<forall>c. byte_of c < 0x09 \<or> byte_of c > 0x0D \<and> byte_of c < 0x20 \<or> byte_of c = 0x7F \<longleftrightarrow> \<not> xml_char c"
    by code_simp
  then show "byte_of c < 0x09 \<or> byte_of c > 0x0D \<and> byte_of c < 0x20 \<or> byte_of c = 0x7F \<longleftrightarrow> \<not> xml_char c" by blast
  have "\<forall>c. byte_of c AND 0xC0 = 0x80 \<longrightarrow> xml_char c \<and> plain_byte c" by code_simp
  then show "byte_of c AND 0xC0 = 0x80 \<longrightarrow> xml_char c \<and> plain_byte c" by blast
  have "\<forall>c. list_all xml_char (hexEscapeChar c) \<and> list_all plain_byte (hexEscapeChar c)"
    by code_simp
  then show "list_all xml_char (hexEscapeChar c) \<and> list_all plain_byte (hexEscapeChar c)" by blast
qed

definition entities :: "string list" where
  "entities = [''lt;'', ''gt;'', ''amp;'', ''quot;'']"

fun entities_only :: "string \<Rightarrow> bool" where
  "entities_only [] = True"
| "entities_only (c # cs) \<longleftrightarrow>
     (if c = CHR ''&'' then list_ex (\<lambda>e. prefix e cs) entities else True) \<and> entities_only cs"

lemma entities_only_append: "entities_only a \<Longrightarrow> entities_only b \<Longrightarrow> entities_only (a @ b)"
  by (induction a) (auto simp: list_ex_iff intro: prefix_prefix split: if_splits)

lemma entities_only_no_amp: "CHR ''&'' \<notin> set a \<Longrightarrow> entities_only a"
  by (induction a) auto

text \<open>A text that can stand where it is put: it opens no tag, ends no attribute, every ampersand
  starts an entity, and there is no control character.\<close>

definition xml_safe :: "for_what \<Rightarrow> string \<Rightarrow> bool" where
  "xml_safe fw out \<longleftrightarrow>
     list_all xml_char out \<and> CHR ''<'' \<notin> set out \<and> (if fw = ForAttributes then CHR 0x22 \<notin> set out else True) \<and>
     entities_only out"

lemma xml_safe_append: "xml_safe fw a \<Longrightarrow> xml_safe fw b \<Longrightarrow> xml_safe fw (a @ b)"
  by (auto simp: xml_safe_def entities_only_append split: if_splits)

lemma xml_safe_plain:
  "\<forall>c \<in> set a. xml_char c \<and> plain_byte c \<Longrightarrow> xml_safe fw a"
  by (auto simp: xml_safe_def list_all_iff plain_byte_def intro!: entities_only_no_amp)

lemma hexEscapeChar_safe: "xml_safe fw (hexEscapeChar c)"
  using xml_char_tables(3) [of c] by (intro xml_safe_plain) (auto simp: list_all_iff)

lemma read_bytes_valid:
  "fst (read_bytes s idx n hdr) \<longleftrightarrow> (\<forall>k \<in> {1..<n}. byte_of (s ! (idx + k)) AND 0xC0 = 0x80)"
proof -
  have "fst (foldl (\<lambda>(valid, v) n. let nc = byte_of (s ! (idx + n))
         in (valid \<and> nc AND 0xC0 = 0x80, push_bit 6 v OR (nc AND 0x3F))) (b, v) ks) \<longleftrightarrow>
      b \<and> (\<forall>k \<in> set ks. byte_of (s ! (idx + k)) AND 0xC0 = 0x80)" for b v ks
    by (induction ks arbitrary: b v) (auto simp: Let_def)
  then show ?thesis by (simp add: read_bytes_def)
qed

lemma encode_default_safe:
  assumes "plain_byte (s ! idx)"
  obtains out n where "encode_default s idx = Some (out, n)" "xml_safe fw out"
proof -
  let ?c = "byte_of (s ! idx)"
  consider (control) "\<not> xml_char (s ! idx)" | (ascii) "xml_char (s ! idx)" "?c < 0x7F"
    | (lead) "xml_char (s ! idx)" "\<not> ?c < 0x7F" "?c < 0xC0 \<or> ?c \<ge> 0xF8"
    | (multi) "xml_char (s ! idx)" "\<not> ?c < 0x7F" "\<not> (?c < 0xC0 \<or> ?c \<ge> 0xF8)"
    by blast
  then show ?thesis
  proof cases
    case control
    then show ?thesis
      using that [of "hexEscapeChar (s ! idx)" 0] xml_char_tables(1) [of "s ! idx"] hexEscapeChar_safe
      by (simp add: encode_default_def Let_def)
  next
    case ascii
    then have "xml_safe fw [s ! idx]" using assms by (intro xml_safe_plain) simp
    then show ?thesis
      using that [of "[s ! idx]" 0] xml_char_tables(1) [of "s ! idx"] ascii
      by (simp add: encode_default_def Let_def)
  next
    case lead
    then show ?thesis
      using that [of "hexEscapeChar (s ! idx)" 0] xml_char_tables(1) [of "s ! idx"] hexEscapeChar_safe
      by (simp add: encode_default_def Let_def)
  next
    case multi
    then have "trailingBytes ?c \<in> {Some 2, Some 3, Some 4} \<and> headerValue ?c \<noteq> None"
      using byte_table [of "s ! idx"] by (simp add: not_less not_le)
    then obtain n hdr where n: "trailingBytes ?c = Some n" "headerValue ?c = Some hdr"
      by auto
    obtain valid v where v: "read_bytes s idx n hdr = (valid, v)" by force
    show ?thesis
    proof (cases "idx + n - 1 \<ge> length s \<or> bad_sequence valid v n")
      case True
      then show ?thesis
        using that [of "hexEscapeChar (s ! idx)" 0] xml_char_tables(1) [of "s ! idx"] hexEscapeChar_safe multi n v
        by (auto simp: encode_default_def Let_def)
    next
      case False
      then have "\<forall>k \<in> {1..<n}. byte_of (s ! (idx + k)) AND 0xC0 = 0x80"
        using read_bytes_valid [of s idx n hdr] v by (simp add: bad_sequence_def)
      then have "\<forall>k < n. xml_char (s ! (idx + k)) \<and> plain_byte (s ! (idx + k))"
        using xml_char_tables(2) assms multi(1) by (metis One_nat_def add.right_neutral atLeastLessThan_iff less_Suc_eq_le not_less_eq_eq neq0_conv Suc_leI)
      then have "xml_safe fw (map (\<lambda>n. s ! (idx + n)) [0..<n])" by (intro xml_safe_plain) auto
      then show ?thesis
        using that [of "map (\<lambda>n. s ! (idx + n)) [0..<n]" "n - 1"] False xml_char_tables(1) [of "s ! idx"] multi n v
        by (simp add: encode_default_def Let_def)
    qed
  qed
qed

lemma encode_at_safe: "\<exists>out n. encode_at fw s idx = Some (out, n) \<and> xml_safe fw out"
proof (cases "\<not> plain_byte (s ! idx) \<or> s ! idx = CHR ''>''")
  case False
  then have "plain_byte (s ! idx)" by simp
  then obtain out n where "encode_default s idx = Some (out, n)" "xml_safe fw out" by (rule encode_default_safe)
  then show ?thesis
    using False by (simp add: encode_at_def plain_byte_def)
next
  case True
  have ents: "xml_safe fw ''&lt;''" "xml_safe fw ''&gt;''" "xml_safe fw ''&amp;''" "xml_safe fw ''&quot;''" "xml_safe fw ''>''"
    "fw \<noteq> ForAttributes \<Longrightarrow> xml_safe fw [CHR 0x22]"
    by (cases fw; simp add: xml_safe_def xml_char_def uchar_def entities_def)+
  with True show ?thesis by (auto simp: encode_at_def plain_byte_def)
qed

lemma encode_from_safe: "\<exists>out. encode_from fw s idx = Some out \<and> xml_safe fw out"
proof (induction fw s idx rule: encode_from.induct)
  case (1 fw s idx)
  show ?case
  proof (cases "idx < length s")
    case True
    obtain out n where at: "encode_at fw s idx = Some (out, n)" "xml_safe fw out"
      using encode_at_safe by blast
    then obtain rest where "encode_from fw s (idx + n + 1) = Some rest" "xml_safe fw rest"
      using 1 True by force
    then show ?thesis using at True by (subst encode_from.simps) (simp add: xml_safe_append)
  qed (simp add: encode_from.simps xml_safe_def)
qed

section \<open>What is escaped can be read back\<close>

function xml_decode :: "string \<Rightarrow> string" where
  "xml_decode [] = []"
| "xml_decode (c # cs) =
     (if c \<noteq> CHR ''&'' then c # xml_decode cs
      else if prefix ''lt;'' cs then CHR ''<'' # xml_decode (drop 3 cs)
      else if prefix ''gt;'' cs then CHR ''>'' # xml_decode (drop 3 cs)
      else if prefix ''amp;'' cs then CHR ''&'' # xml_decode (drop 4 cs)
      else if prefix ''quot;'' cs then CHR 0x22 # xml_decode (drop 5 cs)
      else c # xml_decode cs)"
  by pat_completeness auto
termination by (relation "measure length") auto

definition utf8 :: "nat \<Rightarrow> string" where
  "utf8 p = map char_of
     (if p < 0x80 then [p]
      else if p < 0x800 then [0xC0 + p div 64, 0x80 + p mod 64]
      else if p < 0x10000 then [0xE0 + p div 4096, 0x80 + p div 64 mod 64, 0x80 + p mod 64]
      else [0xF0 + p div 262144, 0x80 + p div 4096 mod 64, 0x80 + p div 64 mod 64, 0x80 + p mod 64])"

text \<open>The code points that are not escaped as bytes.\<close>

definition xml_point :: "nat \<Rightarrow> bool" where
  "xml_point p \<longleftrightarrow> (9 \<le> p \<and> p \<le> 13 \<or> 32 \<le> p) \<and> p \<noteq> 127 \<and> p < 0x110000"

lemma lead_tables: fixes c :: char shows
  "192 \<le> uchar c \<and> uchar c < 224 \<longrightarrow>
     trailingBytes (byte_of c) = Some 2 \<and> headerValue (byte_of c) = Some (word_of_int (uchar c - 192))"
  "224 \<le> uchar c \<and> uchar c < 240 \<longrightarrow>
     trailingBytes (byte_of c) = Some 3 \<and> headerValue (byte_of c) = Some (word_of_int (uchar c - 224))"
  "240 \<le> uchar c \<and> uchar c < 248 \<longrightarrow>
     trailingBytes (byte_of c) = Some 4 \<and> headerValue (byte_of c) = Some (word_of_int (uchar c - 240))"
  "128 \<le> uchar c \<and> uchar c < 192 \<longrightarrow>
     byte_of c AND 0xC0 = 0x80 \<and> byte_of c AND 0x3F = word_of_int (uchar c - 128)"
proof -
  have "\<forall>c. (192 \<le> uchar c \<and> uchar c < 224 \<longrightarrow>
     trailingBytes (byte_of c) = Some 2 \<and> headerValue (byte_of c) = Some (word_of_int (uchar c - 192))) \<and>
    (224 \<le> uchar c \<and> uchar c < 240 \<longrightarrow>
     trailingBytes (byte_of c) = Some 3 \<and> headerValue (byte_of c) = Some (word_of_int (uchar c - 224))) \<and>
    (240 \<le> uchar c \<and> uchar c < 248 \<longrightarrow>
     trailingBytes (byte_of c) = Some 4 \<and> headerValue (byte_of c) = Some (word_of_int (uchar c - 240))) \<and>
    (128 \<le> uchar c \<and> uchar c < 192 \<longrightarrow>
     byte_of c AND 0xC0 = 0x80 \<and> byte_of c AND 0x3F = word_of_int (uchar c - 128))"
    by code_simp
  then show
  "192 \<le> uchar c \<and> uchar c < 224 \<longrightarrow>
     trailingBytes (byte_of c) = Some 2 \<and> headerValue (byte_of c) = Some (word_of_int (uchar c - 192))"
  "224 \<le> uchar c \<and> uchar c < 240 \<longrightarrow>
     trailingBytes (byte_of c) = Some 3 \<and> headerValue (byte_of c) = Some (word_of_int (uchar c - 224))"
  "240 \<le> uchar c \<and> uchar c < 248 \<longrightarrow>
     trailingBytes (byte_of c) = Some 4 \<and> headerValue (byte_of c) = Some (word_of_int (uchar c - 240))"
  "128 \<le> uchar c \<and> uchar c < 192 \<longrightarrow>
     byte_of c AND 0xC0 = 0x80 \<and> byte_of c AND 0x3F = word_of_int (uchar c - 128)"
    by blast+
qed

lemma shift_or:
  assumes "0 \<le> b" "b < 64"
  shows "push_bit 6 (word_of_int a :: 32 word) OR word_of_int b = word_of_int (64 * a + b)"
proof -
  have "push_bit 6 a OR b = 64 * a + b"
    using concat_bit_eq [of 6 b a] assms
    by (simp add: concat_bit_def take_bit_int_eq_self or.commute push_bit_eq_mult)
  then show ?thesis by (simp flip: of_int_push_bit of_int_or_eq)
qed

lemma range_tables: fixes c :: char shows
  "uchar c < 127 \<longrightarrow> byte_of c < 0x7F"
  "192 \<le> uchar c \<and> uchar c < 248 \<longrightarrow>
     \<not> byte_of c < 0x7F \<and> \<not> (byte_of c < 0xC0 \<or> byte_of c \<ge> 0xF8) \<and> xml_char c \<and> plain_byte c \<and> c \<noteq> CHR ''>''"
proof -
  have "\<forall>c. (uchar c < 127 \<longrightarrow> byte_of c < 0x7F) \<and> (192 \<le> uchar c \<and> uchar c < 248 \<longrightarrow>
     \<not> byte_of c < 0x7F \<and> \<not> (byte_of c < 0xC0 \<or> byte_of c \<ge> 0xF8) \<and> xml_char c \<and> plain_byte c \<and> c \<noteq> CHR ''>'')"
    by code_simp
  then show "uchar c < 127 \<longrightarrow> byte_of c < 0x7F" "192 \<le> uchar c \<and> uchar c < 248 \<longrightarrow>
     \<not> byte_of c < 0x7F \<and> \<not> (byte_of c < 0xC0 \<or> byte_of c \<ge> 0xF8) \<and> xml_char c \<and> plain_byte c \<and> c \<noteq> CHR ''>''"
    by blast+
qed

lemma uchar_char_of: "n < 256 \<Longrightarrow> uchar (char_of n) = int n"
  by (metis uchar_def of_nat_of_char of_char_of mod_less)

lemma nth_at:
  assumes "take (length u) (drop idx s) = u" "k < length u"
  shows "s ! (idx + k) = u ! k" "idx + k < length s"
proof -
  have "length u \<le> length s - idx" using arg_cong [OF assms(1), of length] by simp
  then show len: "idx + k < length s" using assms(2) by linarith
  have "drop idx s ! k = u ! k" using assms by (metis nth_take)
  then show "s ! (idx + k) = u ! k" using len by simp
qed

lemma continuation:
  assumes "n < 64"
  shows "byte_of (char_of (0x80 + n)) AND 0xC0 = 0x80 \<and>
    byte_of (char_of (0x80 + n)) AND 0x3F = word_of_int (int n)"
  using lead_tables(4) [of "char_of (0x80 + n)"] uchar_char_of [of "0x80 + n"] assms by simp

lemma split_64: "64 * int (n div 64) + int (n mod 64) = int n"
  by presburger

lemma div_64: "n div 64 div 64 = n div (4096 :: nat)" "n div 4096 div 64 = n div (262144 :: nat)"
  by (simp_all flip: div_mult2_eq)

text \<open>The bytes of a code point, with its header and its value.\<close>

lemma read_utf8:
  assumes p: "0x80 \<le> p" "p < 0x110000" and s: "take (length (utf8 p)) (drop idx s) = utf8 p"
  shows "\<exists>hdr. trailingBytes (byte_of (s ! idx)) = Some (length (utf8 p)) \<and>
      headerValue (byte_of (s ! idx)) = Some hdr \<and>
      read_bytes s idx (length (utf8 p)) hdr = (True, word_of_int (int p)) \<and>
      192 \<le> uchar (s ! idx) \<and> uchar (s ! idx) < 248"
proof -
  note at = nth_at [OF s]
  consider "p < 0x800" | "0x800 \<le> p" "p < 0x10000" | "0x10000 \<le> p" by linarith
  then show ?thesis
  proof cases
    case 1
    let ?c = "char_of (0xC0 + p div 64) :: char"
    have c: "uchar ?c = int (0xC0 + p div 64)" using 1 by (intro uchar_char_of) simp
    have u: "utf8 p = [?c, char_of (0x80 + p mod 64)]" using 1 p by (simp add: utf8_def)
    then have s: "s ! idx = ?c" "s ! (idx + 1) = char_of (0x80 + p mod 64)" using at(1) [of 0] at(1) [of 1] by simp_all
    have "64 * int (p div 64) + int (p mod 64) = int p" by (simp add: zdiv_int zmod_int)
    then have "read_bytes s idx 2 (word_of_int (int (p div 64))) = (True, word_of_int (int p))"
      using s continuation [of "p mod 64"] shift_or [of "int (p mod 64)" "int (p div 64)"]
      by (simp add: read_bytes_def upt_rec)
    moreover have "p div 64 < 32" using 1 by simp
    moreover have "length (utf8 p) = 2" using u by simp
    ultimately show ?thesis using lead_tables(1) [of ?c] c s(1) by simp
  next
    case 2
    let ?c = "char_of (0xE0 + p div 4096) :: char"
    have c: "uchar ?c = int (0xE0 + p div 4096)" using 2 by (intro uchar_char_of) simp
    have u: "utf8 p = [?c, char_of (0x80 + p div 64 mod 64), char_of (0x80 + p mod 64)]" using 2 p by (simp add: utf8_def)
    then have s: "s ! idx = ?c" "s ! (idx + 1) = char_of (0x80 + p div 64 mod 64)" "s ! (idx + 2) = char_of (0x80 + p mod 64)"
      using at(1) [of 0] at(1) [of 1] at(1) [of 2] by simp_all
    have v: "64 * int (p div 4096) + int (p div 64 mod 64) = int (p div 64)" "64 * int (p div 64) + int (p mod 64) = int p"
      using split_64 [of p] split_64 [of "p div 64"] split_64 [of "p div 4096"] div_64 [of p] by simp_all
    have "read_bytes s idx 3 (word_of_int (int (p div 4096))) = (True, word_of_int (int p))"
      using s continuation [of "p mod 64"] continuation [of "p div 64 mod 64"] v
        shift_or [of "int (p mod 64)" "int (p div 64)"] shift_or [of "int (p div 64 mod 64)" "int (p div 4096)"]
      by (simp add: read_bytes_def upt_rec)
    moreover have "p div 4096 < 16" using 2 by simp
    moreover have "length (utf8 p) = 3" using u by simp
    ultimately show ?thesis using lead_tables(2) [of ?c] c s(1) by simp
  next
    case 3
    let ?c = "char_of (0xF0 + p div 262144) :: char"
    have c: "uchar ?c = int (0xF0 + p div 262144)" using p by (intro uchar_char_of) simp
    have u: "utf8 p = [?c, char_of (0x80 + p div 4096 mod 64), char_of (0x80 + p div 64 mod 64), char_of (0x80 + p mod 64)]"
      using 3 p by (simp add: utf8_def)
    then have s: "s ! idx = ?c" "s ! (idx + 1) = char_of (0x80 + p div 4096 mod 64)"
      "s ! (idx + 2) = char_of (0x80 + p div 64 mod 64)" "s ! (idx + 3) = char_of (0x80 + p mod 64)"
      using at(1) [of 0] at(1) [of 1] at(1) [of 2] at(1) [of 3] by simp_all
    have v: "64 * int (p div 262144) + int (p div 4096 mod 64) = int (p div 4096)"
      "64 * int (p div 4096) + int (p div 64 mod 64) = int (p div 64)" "64 * int (p div 64) + int (p mod 64) = int p"
      using split_64 [of p] split_64 [of "p div 64"] split_64 [of "p div 4096"] div_64 [of p] by simp_all
    have "read_bytes s idx 4 (word_of_int (int (p div 262144))) = (True, word_of_int (int p))"
      using s continuation [of "p mod 64"] continuation [of "p div 64 mod 64"] continuation [of "p div 4096 mod 64"] v
        shift_or [of "int (p mod 64)" "int (p div 64)"] shift_or [of "int (p div 64 mod 64)" "int (p div 4096)"]
        shift_or [of "int (p div 4096 mod 64)" "int (p div 262144)"]
      by (simp add: read_bytes_def upt_rec numeral_3_eq_3)
    moreover have "p div 262144 < 8" using p by simp
    moreover have "length (utf8 p) = 4" using u by simp
    ultimately show ?thesis using lead_tables(3) [of ?c] c s(1) by simp
  qed
qed

lemma not_bad_sequence:
  assumes "0x80 \<le> p" "p < 0x110000"
  shows "\<not> bad_sequence True (word_of_int (int p)) (length (utf8 p))"
proof -
  have "unat (word_of_nat p :: 32 word) = p" using assms by (simp add: unat_of_nat)
  then show ?thesis using assms
    by (auto simp: bad_sequence_def utf8_def word_less_nat_alt word_le_nat_alt split: if_splits)
qed

lemma utf8_bytes: "0x80 \<le> p \<Longrightarrow> p < 0x110000 \<Longrightarrow> list_all (\<lambda>c. 128 \<le> uchar c) (utf8 p)"
  by (auto simp: utf8_def uchar_char_of)

lemma utf8_no_amp: "0x80 \<le> p \<Longrightarrow> p < 0x110000 \<Longrightarrow> CHR ''&'' \<notin> set (utf8 p)"
  using utf8_bytes [of p] by (auto simp: list_all_iff uchar_def)

lemma xml_decode_plain: "CHR ''&'' \<notin> set u \<Longrightarrow> xml_decode (u @ rest) = u @ xml_decode rest"
  by (induction u) auto

lemma encode_at_utf8:
  assumes p: "xml_point p" and s: "take (length (utf8 p)) (drop idx s) = utf8 p"
  shows "\<exists>out. encode_at fw s idx = Some (out, length (utf8 p) - 1) \<and>
    (\<forall>rest. xml_decode (out @ rest) = utf8 p @ xml_decode rest)"
proof (cases "p < 0x80")
  case True
  then have u: "utf8 p = [char_of p]" by (simp add: utf8_def)
  then have c: "s ! idx = char_of p" using nth_at(1) [OF s, of 0] by simp
  have byte: "uchar (s ! idx) = int p" using True c uchar_char_of [of p] by simp
  have ascii: "xml_char (s ! idx)" "byte_of (s ! idx) < 0x7F"
    using p True byte range_tables(1) [of "s ! idx"] by (auto simp: xml_char_def xml_point_def)
  have default: "encode_default s idx = Some ([s ! idx], 0)"
    using ascii xml_char_tables(1) [of "s ! idx"] by (auto simp: encode_default_def Let_def)
  have dec: "xml_decode (''&lt;'' @ rest) = CHR ''<'' # xml_decode rest"
    "xml_decode (''&gt;'' @ rest) = CHR ''>'' # xml_decode rest"
    "xml_decode (''&amp;'' @ rest) = CHR ''&'' # xml_decode rest"
    "xml_decode (''&quot;'' @ rest) = CHR 0x22 # xml_decode rest" for rest
    by simp_all
  show ?thesis
    using u c default dec by (auto simp: encode_at_def Let_def)
next
  case False
  then have p': "0x80 \<le> p" "p < 0x110000" using p by (simp_all add: xml_point_def)
  obtain hdr where hdr: "trailingBytes (byte_of (s ! idx)) = Some (length (utf8 p))"
      "headerValue (byte_of (s ! idx)) = Some hdr"
      "read_bytes s idx (length (utf8 p)) hdr = (True, word_of_int (int p))"
      "192 \<le> uchar (s ! idx)" "uchar (s ! idx) < 248"
    using read_utf8 [OF p' s] by blast
  have lead: "\<not> byte_of (s ! idx) < 0x7F" "\<not> (byte_of (s ! idx) < 0xC0 \<or> byte_of (s ! idx) \<ge> 0xF8)"
      "xml_char (s ! idx)" "plain_byte (s ! idx)" "s ! idx \<noteq> CHR ''>''"
    using range_tables(2) [of "s ! idx"] hdr(4,5) by blast+
  have "utf8 p \<noteq> []" by (simp add: utf8_def)
  then have len: "idx + length (utf8 p) - 1 < length s"
    using nth_at(2) [OF s, of "length (utf8 p) - 1"] by simp
  have chunk: "map (\<lambda>n. s ! (idx + n)) [0..<length (utf8 p)] = utf8 p"
    by (rule nth_equalityI) (simp_all add: nth_at(1) [OF s])
  have "encode_default s idx = Some (utf8 p, length (utf8 p) - 1)"
    using lead(1-3) hdr(1-3) len chunk not_bad_sequence [OF p'] xml_char_tables(1) [of "s ! idx"]
    by (auto simp: encode_default_def Let_def)
  then have at: "encode_at fw s idx = Some (utf8 p, length (utf8 p) - 1)"
    using lead(4,5) by (simp add: encode_at_def plain_byte_def)
  show ?thesis using at xml_decode_plain [OF utf8_no_amp [OF p']] by blast
qed

lemma encode_from_points:
  "list_all xml_point ps \<Longrightarrow> drop idx s = concat (map utf8 ps) \<Longrightarrow>
    \<exists>out. encode_from fw s idx = Some out \<and> xml_decode out = drop idx s"
proof (induction ps arbitrary: idx)
  case Nil
  then show ?case by (subst encode_from.simps) simp
next
  case (Cons p ps)
  have u: "utf8 p \<noteq> []" by (simp add: utf8_def)
  have s: "take (length (utf8 p)) (drop idx s) = utf8 p" using Cons.prems(2) by simp
  have idx: "idx < length s" using nth_at(2) [OF s, of 0] u by simp
  obtain out where out: "encode_at fw s idx = Some (out, length (utf8 p) - 1)"
      "\<And>rest. xml_decode (out @ rest) = utf8 p @ xml_decode rest"
    using encode_at_utf8 [OF _ s, of fw] Cons.prems(1) by auto
  have next_idx: "idx + (length (utf8 p) - 1) + 1 = idx + length (utf8 p)" using u by (cases "utf8 p") simp_all
  have "drop (idx + length (utf8 p)) s = concat (map utf8 ps)"
    using arg_cong [OF Cons.prems(2), of "drop (length (utf8 p))"] by (simp add: add.commute)
  then obtain rest where "encode_from fw s (idx + length (utf8 p)) = Some rest"
      "xml_decode rest = concat (map utf8 ps)"
    using Cons.IH [of "idx + length (utf8 p)"] Cons.prems(1) by auto
  then show ?case
    using out idx Cons.prems(2) unfolding encode_from.simps [of fw s idx]
    by (simp only: next_idx if_True option.case prod.case option.map concat.simps list.map) simp
qed

text \<open>C28. Encoding loses nothing: a text in UTF-8 whose code points XML allows is what one gets by
  replacing the entities in its encoding, as a text or as an attribute.\<close>

theorem encodeTo_decodes:
  assumes "list_all xml_point ps" "s = concat (map utf8 ps)"
  shows "\<exists>out. encodeTo fw s = Some out \<and> xml_decode out = s"
  using encode_from_points [of ps 0 s fw] assms by (simp add: encodeTo_def)

theorem encodeTo_decodes_witness:
  "\<exists>out. encodeTo ForAttributes (''a<'' @ [CHR 0x22, CHR 0xE2, CHR 0x82, CHR 0xAC]) = Some out \<and>
     xml_decode out = ''a<'' @ [CHR 0x22, CHR 0xE2, CHR 0x82, CHR 0xAC]"
proof (rule encodeTo_decodes [of "[97, 60, 34, 0x20AC]"])
  show "list_all xml_point [97, 60, 34, 0x20AC]" by (simp add: xml_point_def)
  show "''a<'' @ [CHR 0x22, CHR 0xE2, CHR 0x82, CHR 0xAC] = concat (map utf8 [97, 60, 34, 0x20AC])"
    by (simp add: utf8_def char_of_def bit_simps)
qed


text \<open>The end of a CDATA section is only escaped after another character.\<close>

lemma cdata_end_escaped:
  "encodeTo ForTextNodes '']]>'' = Some '']]>'' \<and> encodeTo ForTextNodes ''x]]>'' = Some ''x]]&gt;''"
  by (rule conjI; code_simp)

end
