(* ===== verification/Doctest_Xml_Writer.thy ===== *)
theory Doctest_Xml_Writer
  imports Doctest_Xml "HOL-Library.Monad_Syntax"
begin

text \<open>
  The XML writer of the vendored test framework (\<open>external/doctest.h\<close>, \<open>XmlWriter\<close>): a
  stack of open tags and the text written so far. A scanner reads the tags of a text; the invariant
  says that on the writer's output it finds the writer's stack, so what is written is nested as long
  as the calls keep to the protocol.
\<close>


section \<open>The writer\<close>

record xml_writer =
  m_tagIsOpen :: bool
  m_needsNewline :: bool
  m_tags :: "string list"
  m_indent :: string
  m_os :: string

definition new_writer :: xml_writer where
  "new_writer = \<lparr>m_tagIsOpen = False, m_needsNewline = False, m_tags = [], m_indent = [], m_os = []\<rparr>"

definition out :: "string \<Rightarrow> xml_writer \<Rightarrow> xml_writer" where
  "out s w = w\<lparr>m_os := m_os w @ s\<rparr>"

definition endl :: string where
  "endl = [CHR 0x0A]"

definition quote :: string where
  "quote = [CHR 0x22]"

definition ensureTagClosed :: "xml_writer \<Rightarrow> xml_writer" where
  "ensureTagClosed w =
     (if m_tagIsOpen w then (out (''>'' @ endl) w)\<lparr>m_tagIsOpen := False\<rparr> else w)"

definition newlineIfNecessary :: "xml_writer \<Rightarrow> xml_writer" where
  "newlineIfNecessary w =
     (if m_needsNewline w then (out endl w)\<lparr>m_needsNewline := False\<rparr> else w)"

definition startElement :: "string \<Rightarrow> xml_writer \<Rightarrow> xml_writer" where
  "startElement name w =
     (let w = newlineIfNecessary (ensureTagClosed w);
          w = out (m_indent w @ ''<'' @ name) w
      in w\<lparr>m_tags := m_tags w @ [name], m_indent := m_indent w @ ''  '', m_tagIsOpen := True\<rparr>)"

text \<open>The last two characters; without two of them the count wraps around and all are kept.\<close>

definition shorten :: "string \<Rightarrow> string" where
  "shorten ind = (if 2 \<le> length ind then take (length ind - 2) ind else ind)"

text \<open>\<open>None\<close>: the vector of tags has no last element.\<close>

definition endElement :: "xml_writer \<Rightarrow> xml_writer option" where
  "endElement w =
     (let w = newlineIfNecessary w; w = w\<lparr>m_indent := shorten (m_indent w)\<rparr>
      in if m_tags w = [] then None
         else
           let w = (if m_tagIsOpen w then (out ''/>'' w)\<lparr>m_tagIsOpen := False\<rparr>
                    else out (m_indent w @ ''</'' @ last (m_tags w) @ ''>'') w);
               w = out endl w
           in Some (w\<lparr>m_tags := butlast (m_tags w)\<rparr>))"

definition writeAttribute :: "string \<Rightarrow> string \<Rightarrow> xml_writer \<Rightarrow> xml_writer option" where
  "writeAttribute name attribute w =
     (if name \<noteq> [] \<and> attribute \<noteq> [] then
        do { v \<leftarrow> encodeTo ForAttributes attribute;
             Some (out ('' '' @ name @ ''='' @ quote @ v @ quote) w) }
      else Some w)"

definition writeAttribute_bool :: "string \<Rightarrow> bool \<Rightarrow> xml_writer \<Rightarrow> xml_writer" where
  "writeAttribute_bool name attribute w =
     out ('' '' @ name @ ''='' @ quote @ (if attribute then ''true'' else ''false'') @ quote) w"

definition writeText :: "string \<Rightarrow> bool \<Rightarrow> xml_writer \<Rightarrow> xml_writer option" where
  "writeText txts indent w =
     (if txts \<noteq> [] then
        let tagWasOpen = m_tagIsOpen w; w = ensureTagClosed w;
            w = (if tagWasOpen \<and> indent then out (m_indent w) w else w)
        in do { v \<leftarrow> encodeTo ForTextNodes txts; Some ((out v w)\<lparr>m_needsNewline := True\<rparr>) }
      else Some w)"

definition writeDeclaration :: "xml_writer \<Rightarrow> xml_writer" where
  "writeDeclaration w =
     out (''<?xml version='' @ quote @ ''1.0'' @ quote @ '' encoding='' @ quote @ ''UTF-8'' @ quote @
       ''?>'' @ endl) w"

text \<open>The destructor ends the elements that are open.\<close>

function close_all :: "xml_writer \<Rightarrow> xml_writer option" where
  "close_all w =
     (if m_tags w = [] then Some w
      else case endElement w of None \<Rightarrow> None | Some w \<Rightarrow> close_all w)"
  by pat_completeness auto
termination
  by (relation "measure (\<lambda>w. length (m_tags w))")
    (auto simp: endElement_def newlineIfNecessary_def out_def Let_def split: if_splits)

declare close_all.simps [simp del]

section \<open>Calls of the writer\<close>

datatype xml_call =
    Declaration | Start string | End | Attr string string | Attr_bool string bool
  | Write string bool | Close_tag

fun xml_step :: "xml_call \<Rightarrow> xml_writer \<Rightarrow> xml_writer option" where
  "xml_step Declaration w = Some (writeDeclaration w)"
| "xml_step (Start name) w = Some (startElement name w)"
| "xml_step End w = endElement w"
| "xml_step (Attr name attribute) w = writeAttribute name attribute w"
| "xml_step (Attr_bool name attribute) w = Some (writeAttribute_bool name attribute w)"
| "xml_step (Write txts indent) w = writeText txts indent w"
| "xml_step Close_tag w = Some (ensureTagClosed w)"

fun xml_steps :: "xml_call list \<Rightarrow> xml_writer \<Rightarrow> xml_writer option" where
  "xml_steps [] w = Some w"
| "xml_steps (c # cs) w = do { w \<leftarrow> xml_step c w; xml_steps cs w }"

text \<open>A scoped element is an element that ends with the statement it is in.\<close>

definition scopedElement :: "string \<Rightarrow> xml_call list \<Rightarrow> xml_call list" where
  "scopedElement name body = Start name # body @ [End]"

section \<open>A scanner of tags\<close>

datatype scan_mode =
    Content | Opened | In_name string | In_tag string | In_quote string | Slash | Closing string | Decl

text \<open>The characters of the names of elements and attributes.\<close>

definition name_char :: "char \<Rightarrow> bool" where
  "name_char c \<longleftrightarrow> 97 \<le> uchar c \<and> uchar c \<le> 122 \<or> 65 \<le> uchar c \<and> uchar c \<le> 90 \<or>
     48 \<le> uchar c \<and> uchar c \<le> 57 \<or> uchar c = 95"

fun scan_char :: "char \<Rightarrow> scan_mode \<times> string list \<Rightarrow> (scan_mode \<times> string list) option" where
  "scan_char c (Content, st) = Some (if c = CHR ''<'' then Opened else Content, st)"
| "scan_char c (Opened, st) =
     (if c = CHR ''/'' then Some (Closing [], st)
      else if c = CHR ''?'' then Some (Decl, st)
      else if name_char c then Some (In_name [c], st)
      else None)"
| "scan_char c (In_name n, st) =
     (if c = CHR '' '' then Some (In_tag n, st)
      else if c = CHR ''>'' then Some (Content, n # st)
      else if c = CHR ''/'' then Some (Slash, st)
      else if name_char c then Some (In_name (n @ [c]), st)
      else None)"
| "scan_char c (In_tag n, st) =
     (if c = CHR 0x22 then Some (In_quote n, st)
      else if c = CHR ''>'' then Some (Content, n # st)
      else if c = CHR ''/'' then Some (Slash, st)
      else if c = CHR ''<'' then None
      else Some (In_tag n, st))"
| "scan_char c (In_quote n, st) =
     (if c = CHR 0x22 then Some (In_tag n, st)
      else if c = CHR ''<'' then None
      else Some (In_quote n, st))"
| "scan_char c (Slash, st) = (if c = CHR ''>'' then Some (Content, st) else None)"
| "scan_char c (Closing n, st) =
     (if c = CHR ''>'' then
        (case st of [] \<Rightarrow> None | m # st \<Rightarrow> if m = n then Some (Content, st) else None)
      else if name_char c then Some (Closing (n @ [c]), st)
      else None)"
| "scan_char c (Decl, st) = Some (if c = CHR ''>'' then Content else Decl, st)"

fun scan :: "string \<Rightarrow> scan_mode \<times> string list \<Rightarrow> (scan_mode \<times> string list) option" where
  "scan [] s = Some s"
| "scan (c # cs) s = do { s \<leftarrow> scan_char c s; scan cs s }"

text \<open>Every tag that is opened is closed, in the right order.\<close>

definition nested_tags :: "string \<Rightarrow> bool" where
  "nested_tags txts \<longleftrightarrow> scan txts (Content, []) = Some (Content, [])"

section \<open>What is written is nested\<close>

lemma scan_append: "scan (a @ b) s = do { s \<leftarrow> scan a s; scan b s }"
  by (induction a arbitrary: s) (simp_all split: bind_splits)

definition xml_name :: "string \<Rightarrow> bool" where
  "xml_name n \<longleftrightarrow> n \<noteq> [] \<and> list_all name_char n"

lemma name_char_neq: "name_char c \<Longrightarrow> c \<noteq> CHR ''/'' \<and> c \<noteq> CHR ''?'' \<and> c \<noteq> CHR '' '' \<and> c \<noteq> CHR ''>'' \<and>
    c \<noteq> CHR ''<'' \<and> c \<noteq> CHR 0x22"
  by (auto simp: name_char_def uchar_def)

lemma scan_content: "CHR ''<'' \<notin> set t \<Longrightarrow> scan t (Content, st) = Some (Content, st)"
  by (induction t) auto

lemma scan_quoted:
  "CHR ''<'' \<notin> set t \<Longrightarrow> CHR 0x22 \<notin> set t \<Longrightarrow> scan t (In_quote n, st) = Some (In_quote n, st)"
  by (induction t) auto

lemma scan_name: "list_all name_char m \<Longrightarrow> scan m (In_name n, st) = Some (In_name (n @ m), st)"
  by (induction m arbitrary: n) (auto dest: name_char_neq)

lemma scan_closing: "list_all name_char m \<Longrightarrow> scan m (Closing n, st) = Some (Closing (n @ m), st)"
  by (induction m arbitrary: n) (auto dest: name_char_neq)

lemma scan_in_tag: "list_all name_char m \<Longrightarrow> scan m (In_tag n, st) = Some (In_tag n, st)"
  by (induction m) (auto dest: name_char_neq)

lemma scan_start: "xml_name n \<Longrightarrow> scan (CHR ''<'' # n) (Content, st) = Some (In_name n, st)"
  by (cases n) (auto simp: xml_name_def scan_name dest: name_char_neq)

lemma scan_end: "xml_name n \<Longrightarrow> scan (''</'' @ n @ ''>'') (Content, n # st) = Some (Content, st)"
  by (simp add: xml_name_def scan_append scan_closing)

lemma scan_attribute:
  assumes "list_all name_char a" "CHR ''<'' \<notin> set v" "CHR 0x22 \<notin> set v" "m = In_name n \<or> m = In_tag n"
  shows "scan ('' '' @ a @ ''='' @ quote @ v @ quote) (m, st) = Some (In_tag n, st)"
  using assms by (auto simp: scan_append scan_in_tag scan_quoted quote_def)


text \<open>The invariant of the writer: what the scanner finds in the output is the stack of tags.\<close>

definition writer_ok :: "xml_writer \<Rightarrow> bool" where
  "writer_ok w \<longleftrightarrow> list_all xml_name (m_tags w) \<and> m_indent w = replicate (2 * length (m_tags w)) CHR '' '' \<and>
     (if m_tagIsOpen w then
        m_tags w \<noteq> [] \<and> \<not> m_needsNewline w \<and>
        (\<exists>m. scan (m_os w) (Content, []) = Some (m, tl (rev (m_tags w))) \<and>
          (m = In_name (last (m_tags w)) \<or> m = In_tag (last (m_tags w))))
      else scan (m_os w) (Content, []) = Some (Content, rev (m_tags w)))"

lemma new_writer_ok: "writer_ok new_writer"
  by (simp add: writer_ok_def new_writer_def)

lemma hd_tl_rev: "ts \<noteq> [] \<Longrightarrow> last ts # tl (rev ts) = rev ts"
  by (metis hd_rev list.collapse rev_is_Nil_conv)

lemma ensureTagClosed_ok:
  assumes "writer_ok w"
  shows "writer_ok (ensureTagClosed w)" "\<not> m_tagIsOpen (ensureTagClosed w)"
    "m_tags (ensureTagClosed w) = m_tags w" "m_indent (ensureTagClosed w) = m_indent w"
  using assms by (auto simp: writer_ok_def ensureTagClosed_def out_def scan_append endl_def hd_tl_rev split: if_splits)

lemma newlineIfNecessary_ok:
  assumes "writer_ok w"
  shows "writer_ok (newlineIfNecessary w)" "\<not> m_needsNewline (newlineIfNecessary w)"
    "m_tagIsOpen (newlineIfNecessary w) = m_tagIsOpen w" "m_tags (newlineIfNecessary w) = m_tags w"
  using assms by (auto simp: writer_ok_def newlineIfNecessary_def out_def scan_append endl_def split: if_splits)

lemma scan_blanks: "scan (replicate n CHR '' '') (Content, st) = Some (Content, st)"
  by (rule scan_content) simp

lemma blanks_more: "replicate n c @ [c, c] = replicate (Suc (Suc n)) c"
  by (induction n) simp_all

lemma shorten_blanks: "shorten (replicate (n + 2) c) = replicate n c"
  unfolding shorten_def length_replicate take_replicate by simp

lemma startElement_ok:
  assumes "writer_ok w" "xml_name n"
  shows "writer_ok (startElement n w)" "m_tagIsOpen (startElement n w)" "m_tags (startElement n w) = m_tags w @ [n]"
proof -
  let ?w = "newlineIfNecessary (ensureTagClosed w)"
  have w: "writer_ok ?w" "\<not> m_tagIsOpen ?w" "\<not> m_needsNewline ?w" "m_tags ?w = m_tags w"
    using ensureTagClosed_ok [OF assms(1)] newlineIfNecessary_ok by auto
  then have "scan (m_os ?w @ m_indent ?w @ CHR ''<'' # n) (Content, []) = Some (In_name n, rev (m_tags ?w))"
    using scan_start [OF assms(2)] by (simp add: writer_ok_def scan_append scan_blanks)
  then show "writer_ok (startElement n w)"
    using w assms(2) by (auto simp: startElement_def Let_def writer_ok_def out_def blanks_more simp del: replicate_Suc)
  show "m_tagIsOpen (startElement n w)" "m_tags (startElement n w) = m_tags w @ [n]"
    using w(4) by (simp_all add: startElement_def Let_def out_def)
qed

lemma endElement_ok:
  assumes "writer_ok w" "m_tags w \<noteq> []"
  shows "\<exists>w'. endElement w = Some w' \<and> writer_ok w' \<and> \<not> m_tagIsOpen w' \<and> m_tags w' = butlast (m_tags w)"
proof -
  let ?w = "newlineIfNecessary w"
  have w: "writer_ok ?w" "m_tagIsOpen ?w = m_tagIsOpen w" "\<not> m_needsNewline ?w" "m_tags ?w = m_tags w"
    using newlineIfNecessary_ok [OF assms(1)] by auto
  obtain ts t where ts: "m_tags w = ts @ [t]" using assms(2) by (metis append_butlast_last_id)
  have ind: "shorten (m_indent ?w) = replicate (2 * length ts) CHR '' ''"
    using w ts shorten_blanks [of "2 * length ts"] by (simp add: writer_ok_def del: replicate_Suc)
  have t: "xml_name t" "list_all xml_name ts" using w ts by (simp_all add: writer_ok_def)
  show ?thesis
  proof (cases "m_tagIsOpen w")
    case True
    then have "scan (m_os ?w @ ''/>'' @ endl) (Content, []) = Some (Content, rev ts)"
      using w ts by (auto simp: writer_ok_def scan_append endl_def)
    then show ?thesis using True w ts t ind by (simp add: endElement_def Let_def out_def writer_ok_def)
  next
    case False
    then have "scan (m_os ?w @ shorten (m_indent ?w) @ ''</'' @ t @ ''>'' @ endl) (Content, []) = Some (Content, rev ts)"
      using w ts t(1) scan_closing [of t "[]"] unfolding ind
      by (simp add: xml_name_def writer_ok_def scan_append scan_blanks endl_def)
    then show ?thesis using False w ts t ind by (simp add: endElement_def Let_def out_def writer_ok_def)
  qed
qed

lemma encoded:
  obtains v where "encodeTo fw s = Some v" "CHR ''<'' \<notin> set v" "fw = ForAttributes \<Longrightarrow> CHR 0x22 \<notin> set v"
  using encode_from_safe [of fw s 0] by (auto simp: encodeTo_def xml_safe_def)

lemma attribute_ok:
  assumes "writer_ok w" "m_tagIsOpen w" "list_all name_char a" "CHR ''<'' \<notin> set v" "CHR 0x22 \<notin> set v"
  shows "writer_ok (out ('' '' @ a @ ''='' @ quote @ v @ quote) w)"
proof -
  obtain m where m: "scan (m_os w) (Content, []) = Some (m, tl (rev (m_tags w)))"
      "m = In_name (last (m_tags w)) \<or> m = In_tag (last (m_tags w))"
    using assms(1,2) by (auto simp: writer_ok_def)
  then have "scan (m_os w @ '' '' @ a @ ''='' @ quote @ v @ quote) (Content, []) =
      Some (In_tag (last (m_tags w)), tl (rev (m_tags w)))"
    using scan_attribute [OF assms(3-5) m(2)] by (simp add: scan_append del: append.simps)
  then show ?thesis using assms(1,2) by (auto simp: writer_ok_def out_def)
qed

lemma writeAttribute_ok:
  assumes "writer_ok w" "m_tagIsOpen w" "list_all name_char a"
  shows "\<exists>w'. writeAttribute a v w = Some w' \<and> writer_ok w' \<and> m_tagIsOpen w' \<and> m_tags w' = m_tags w"
proof -
  obtain e where "encodeTo ForAttributes v = Some e" "CHR ''<'' \<notin> set e" "CHR 0x22 \<notin> set e"
    using encoded [of ForAttributes v] by blast
  then show ?thesis
    using attribute_ok [OF assms, of e] assms by (auto simp: writeAttribute_def out_def)
qed

lemma writeText_ok:
  assumes "writer_ok w"
  shows "\<exists>w'. writeText t i w = Some w' \<and> writer_ok w' \<and> m_tags w' = m_tags w \<and>
    m_tagIsOpen w' = (m_tagIsOpen w \<and> t = [])"
proof (cases "t = []")
  case True
  then show ?thesis using assms by (simp add: writeText_def)
next
  case False
  obtain e where e: "encodeTo ForTextNodes t = Some e" "CHR ''<'' \<notin> set e"
    using encoded [of ForTextNodes t] by blast
  let ?w = "ensureTagClosed w"
  have put: "writer_ok ((out s ?w)\<lparr>m_needsNewline := True\<rparr>)" if "CHR ''<'' \<notin> set s" for s
    using ensureTagClosed_ok [OF assms] that by (simp add: writer_ok_def out_def scan_append scan_content)
  have ind: "CHR ''<'' \<notin> set (m_indent ?w @ e)"
    using ensureTagClosed_ok(1) [OF assms] e(2) by (simp add: writer_ok_def)
  have "out e (out (m_indent ?w) ?w) = out (m_indent ?w @ e) ?w" by (simp add: out_def)
  then have "writeText t i w = Some ((out (if m_tagIsOpen w \<and> i then m_indent ?w @ e else e) ?w)\<lparr>m_needsNewline := True\<rparr>)"
    using False e(1) by (simp add: writeText_def Let_def)
  moreover have "writer_ok ((out (if m_tagIsOpen w \<and> i then m_indent ?w @ e else e) ?w)\<lparr>m_needsNewline := True\<rparr>)"
    using put [OF ind] put [OF e(2)] by simp
  ultimately show ?thesis
    using False ensureTagClosed_ok(2,3) [OF assms] by (simp add: out_def)
qed

text \<open>
  The protocol of the calls: attributes only in an open tag, no end without a start. Its state is
  the number of open elements, and whether the tag of the last one is open.
\<close>

fun call_ok :: "xml_call \<Rightarrow> nat \<times> bool \<Rightarrow> (nat \<times> bool) option" where
  "call_ok Declaration (d, opn) = (if opn then None else Some (d, False))"
| "call_ok (Start n) (d, opn) = (if xml_name n then Some (d + 1, True) else None)"
| "call_ok End (d, opn) = (if 0 < d then Some (d - 1, False) else None)"
| "call_ok (Attr a v) (d, opn) = (if opn \<and> list_all name_char a then Some (d, True) else None)"
| "call_ok (Attr_bool a v) (d, opn) = (if opn \<and> list_all name_char a then Some (d, True) else None)"
| "call_ok (Write t i) (d, opn) = Some (d, opn \<and> t = [])"
| "call_ok Close_tag (d, opn) = Some (d, False)"

fun calls_ok :: "xml_call list \<Rightarrow> nat \<times> bool \<Rightarrow> (nat \<times> bool) option" where
  "calls_ok [] s = Some s"
| "calls_ok (c # cs) s = do { s \<leftarrow> call_ok c s; calls_ok cs s }"

lemma calls_ok_append: "calls_ok (a @ b) s = do { s \<leftarrow> calls_ok a s; calls_ok b s }"
  by (induction a arbitrary: s) (simp_all split: bind_splits)

definition writer_at :: "nat \<times> bool \<Rightarrow> xml_writer \<Rightarrow> bool" where
  "writer_at s w \<longleftrightarrow> writer_ok w \<and> length (m_tags w) = fst s \<and> m_tagIsOpen w = snd s"

lemma xml_step_ok:
  assumes "call_ok c s = Some s'" "writer_at s w"
  shows "\<exists>w'. xml_step c w = Some w' \<and> writer_at s' w'"
  using assms
proof (induction c s rule: call_ok.induct)
  case (1 d opn)
  have "scan (m_os (writeDeclaration w)) (Content, []) = Some (Content, rev (m_tags w))"
    using 1 by (simp add: writer_at_def writer_ok_def writeDeclaration_def out_def scan_append quote_def endl_def split: if_splits)
  then have "writer_ok (writeDeclaration w)"
    using 1 by (simp add: writer_at_def writer_ok_def writeDeclaration_def out_def split: if_splits)
  then show ?case using 1 by (auto simp: writer_at_def writeDeclaration_def out_def split: if_splits)
next
  case (2 n d opn)
  then show ?case using startElement_ok [of w n] by (auto simp: writer_at_def split: if_splits)
next
  case (3 d opn)
  then show ?case using endElement_ok [of w] by (fastforce simp: writer_at_def split: if_splits)
next
  case (4 a v d opn)
  then show ?case using writeAttribute_ok [of w a v] by (fastforce simp: writer_at_def split: if_splits)
next
  case (5 a v d opn)
  then have "writer_ok (writeAttribute_bool a v w)" "m_tagIsOpen (writeAttribute_bool a v w)"
    using attribute_ok [of w a "if v then ''true'' else ''false''"]
    by (auto simp: writer_at_def writeAttribute_bool_def out_def split: if_splits)
  then show ?case using 5 by (auto simp: writer_at_def writeAttribute_bool_def out_def split: if_splits)
next
  case (6 t i d opn)
  then show ?case using writeText_ok [of w t i] by (fastforce simp: writer_at_def)
next
  case (7 d opn)
  then show ?case using ensureTagClosed_ok [of w] by (auto simp: writer_at_def)
qed

lemma xml_steps_ok:
  "calls_ok cs s = Some s' \<Longrightarrow> writer_at s w \<Longrightarrow> \<exists>w'. xml_steps cs w = Some w' \<and> writer_at s' w'"
proof (induction cs arbitrary: s w)
  case (Cons c cs)
  then obtain s1 where "call_ok c s = Some s1" "calls_ok cs s1 = Some s'" by (auto split: bind_splits)
  then show ?case using xml_step_ok [of c s s1 w] Cons by fastforce
qed simp

lemma xml_steps_append: "xml_steps (a @ b) w = do { w \<leftarrow> xml_steps a w; xml_steps b w }"
  by (induction a arbitrary: w) (simp_all split: bind_splits)

lemma new_writer_at: "writer_at (0, False) new_writer"
  using new_writer_ok by (simp add: writer_at_def new_writer_def)

lemma close_all_ok:
  "writer_ok w \<Longrightarrow> \<exists>w'. close_all w = Some w' \<and> writer_ok w' \<and> m_tags w' = [] \<and> \<not> m_tagIsOpen w'"
proof (induction w rule: close_all.induct)
  case (1 w)
  show ?case
  proof (cases "m_tags w = []")
    case True
    then show ?thesis using 1(2) by (auto simp: close_all.simps writer_ok_def split: if_splits)
  next
    case False
    then show ?thesis using endElement_ok [OF 1(2) False] 1(1) by (auto simp: close_all.simps [of w])
  qed
qed

lemma writer_nests:
  assumes "calls_ok cs (0, False) = Some s"
  shows "\<exists>w w'. xml_steps cs new_writer = Some w \<and> close_all w = Some w' \<and> nested_tags (m_os w')"
proof -
  obtain w where w: "xml_steps cs new_writer = Some w" "writer_ok w"
    using xml_steps_ok [OF assms new_writer_at] by (auto simp: writer_at_def)
  obtain w' where "close_all w = Some w'" "nested_tags (m_os w')"
    using close_all_ok [OF w(2)] by (auto simp: writer_ok_def nested_tags_def)
  then show ?thesis using w by blast
qed

text \<open>Whatever is called on a new writer, as long as attributes come in open tags only and no
  element is ended that was not started, and whatever the texts are: nothing fails, and after the
  destructor the tags of the output are nested.\<close>

theorem xml_writer_nests:
  assumes "calls_ok cs (0, False) = Some s"
  shows "\<exists>w w'. xml_steps cs new_writer = Some w \<and> close_all w = Some w' \<and> nested_tags (m_os w')"
  by (rule writer_nests [OF assms])

theorem xml_writer_nests_witness:
  "\<exists>w w'. xml_steps [Declaration, Start ''a'', Attr ''b'' ''</a>'', Start ''c'', Write ''x < y'' True, End, Start ''d''] new_writer = Some w \<and>
     close_all w = Some w' \<and> nested_tags (m_os w')"
  by (rule xml_writer_nests [of _ "(2, True)"]) (simp add: xml_name_def name_char_def uchar_def)

end
