(* ===== verification/Doctest_Reporters.thy ===== *)
theory Doctest_Reporters
  imports Doctest_Reports Doctest_Xml_Writer
begin

text \<open>
  The reporters of the vendored test framework that write XML (\<open>external/doctest.h\<close>,
  \<open>XmlReporter\<close> and \<open>JUnitReporter\<close>): what they call on the XML writer, for each method of
  \<open>IReporter\<close>. The locale \<open>tag_reporter\<close> is the contract of such a reporter, by which every
  report of a run is nested. Floating-point numbers are their bits, and the operations on them
  parameters.
\<close>

unbundle bit_operations_syntax

section \<open>What the reporters have\<close>

text \<open>
  Options; the registered listeners and reporters in their order; whether the standard output is a
  terminal; floating-point numbers: addition, order, output and \<open>Approx(x) != 0\<close>; the elapsed
  seconds of a case, the readings of the timer and the time stamp.
\<close>

record report_env =
  opt :: ContextState
  listeners :: "(int \<times> string) list"
  reporters :: "(int \<times> string) list"
  tty :: bool
  d_plus :: "64 word \<Rightarrow> 64 word \<Rightarrow> 64 word"
  d_less :: "64 word \<Rightarrow> 64 word \<Rightarrow> bool"
  d_show :: "64 word \<Rightarrow> string"
  d_small :: "64 word"
  d_nonzero :: "64 word \<Rightarrow> bool"
  seconds :: "CurrentTestCaseStats \<Rightarrow> 64 word"
  elapsed :: "nat \<Rightarrow> 64 word"
  timestamp :: string

definition show_unsigned :: "32 word \<Rightarrow> string" where
  "show_unsigned u = show_int (uint u)"

definition the_line :: "report_env \<Rightarrow> 32 word \<Rightarrow> 32 word" where
  "the_line env l = (if o_no_line_numbers (opt env) then 0 else l)"

definition path_of :: "report_env \<Rightarrow> string \<Rightarrow> string" where
  "path_of env f = skipPathFromFilename (o_no_path_in_filenames (opt env)) f"

definition version_str :: string where
  "version_str = ''2.4.11''"

fun content_text :: "StringContains \<Rightarrow> string" where
  "content_text (Equals t) = t"
| "content_text (Contains_text t) = t"

text \<open>A pointer to characters as an attribute: nothing is written for null, as for the empty text.\<close>

definition Attr_ptr :: "string \<Rightarrow> string option \<Rightarrow> xml_call" where
  "Attr_ptr name attribute = Attr name (case attribute of None \<Rightarrow> [] | Some t \<Rightarrow> t)"

definition Attr_unsigned :: "string \<Rightarrow> 32 word \<Rightarrow> xml_call" where
  "Attr_unsigned name u = Attr name (show_unsigned u)"

definition Attr_int :: "string \<Rightarrow> int \<Rightarrow> xml_call" where
  "Attr_int name i = Attr name (show_int i)"

section \<open>XmlReporter\<close>

text \<open>Its state is the last test case; \<open>None\<close> is a null pointer that is followed, or an exception.\<close>

type_synonym xml_state = "TestCaseData option"

definition xml_log_contexts :: "string list \<Rightarrow> xml_call list" where
  "xml_log_contexts contexts = concat (map (\<lambda>c. scopedElement ''Info'' [Write c True]) contexts)"

definition test_case_start_impl :: "report_env \<Rightarrow> TestCaseData \<Rightarrow> xml_state \<Rightarrow> (xml_call list \<times> xml_state) option" where
  "test_case_start_impl env tc_in tc =
     do { suite \<leftarrow> (case tc of
            None \<Rightarrow> Some ([], True)
          | Some t \<Rightarrow>
              do { a \<leftarrow> tc_test_suite t; b \<leftarrow> tc_test_suite tc_in;
                   Some (if strcmp a b \<noteq> 0 then ([End], True) else ([], False)) });
          let (calls, open_ts_tag) = suite;
          Some (calls @
            (if open_ts_tag then [Start ''TestSuite'', Attr_ptr ''name'' (tc_test_suite tc_in)] else []) @
            [Start ''TestCase'', Attr_ptr ''name'' (tc_name tc_in),
             Attr ''filename'' (path_of env (c_string (tc_file tc_in))),
             Attr_unsigned ''line'' (the_line env (tc_line tc_in)),
             Attr_ptr ''description'' (tc_description tc_in)] @
            (if d_nonzero env (tc_timeout tc_in) then [Attr ''timeout'' (d_show env (tc_timeout tc_in))] else []) @
            (if tc_may_fail tc_in then [Attr_bool ''may_fail'' True] else []) @
            (if tc_should_fail tc_in then [Attr_bool ''should_fail'' True] else []),
            Some tc_in) }"

definition xml_test_run_start :: "report_env \<Rightarrow> xml_call list" where
  "xml_test_run_start env =
     [Declaration, Start ''doctest'', Attr ''binary'' (path_of env (c_string (o_binary_name (opt env))))] @
     (if \<not> o_no_version (opt env) then [Attr ''version'' version_str] else []) @
     scopedElement ''Options''
       [Attr ''order_by'' (c_string (o_order_by (opt env))),
        Attr_unsigned ''rand_seed'' (o_rand_seed (opt env)),
        Attr_unsigned ''first'' (o_first (opt env)),
        Attr_unsigned ''last'' (o_last (opt env)),
        Attr_int ''abort_after'' (o_abort_after (opt env)),
        Attr_int ''subcase_filter_levels'' (o_subcase_filter_levels (opt env)),
        Attr_bool ''case_sensitive'' (o_case_sensitive (opt env)),
        Attr_bool ''no_throw'' (o_no_throw (opt env)),
        Attr_bool ''no_skip'' (o_no_skip (opt env))]"

definition xml_report_query ::
    "report_env \<Rightarrow> TestCaseData list \<Rightarrow> TestRunStats option \<Rightarrow> xml_call list option" where
  "xml_report_query env data run_stats =
     do { body \<leftarrow>
            (if o_list_reporters (opt env) then
               let entry = (\<lambda>what (priority, name). scopedElement what [Attr_int ''priority'' priority, Attr ''name'' (c_string name)])
               in Some (concat (map (entry ''Listener'') (listeners env)) @
                        concat (map (entry ''Reporter'') (reporters env)))
             else if o_count (opt env) \<or> o_list_test_cases (opt env) then
               do { st \<leftarrow> run_stats;
                    Some (concat (map (\<lambda>d. scopedElement ''TestCase''
                            [Attr_ptr ''name'' (tc_name d), Attr_ptr ''testsuite'' (tc_test_suite d),
                             Attr ''filename'' (path_of env (c_string (tc_file d))),
                             Attr_unsigned ''line'' (the_line env (tc_line d)),
                             Attr_bool ''skipped'' (tc_skip d)]) data) @
                          scopedElement ''OverallResultsTestCases''
                            [Attr_unsigned ''unskipped'' (numTestCasesPassingFilters st)]) }
             else if o_list_test_suites (opt env) then
               do { st \<leftarrow> run_stats;
                    Some (concat (map (\<lambda>d. scopedElement ''TestSuite'' [Attr_ptr ''name'' (tc_test_suite d)]) data) @
                          scopedElement ''OverallResultsTestCases''
                            [Attr_unsigned ''unskipped'' (numTestCasesPassingFilters st)] @
                          scopedElement ''OverallResultsTestSuites''
                            [Attr_unsigned ''unskipped'' (numTestSuitesPassingFilters st)]) }
             else Some []);
          Some (xml_test_run_start env @ body @ [End]) }"

definition xml_test_run_end :: "report_env \<Rightarrow> TestRunStats \<Rightarrow> xml_state \<Rightarrow> xml_call list" where
  "xml_test_run_end env p tc =
     (if tc \<noteq> None then [End] else []) @
     scopedElement ''OverallResultsAsserts''
       [Attr_int ''successes'' (numAsserts p - numAssertsFailed p),
        Attr_int ''failures'' (numAssertsFailed p)] @
     [Start ''OverallResultsTestCases'',
      Attr_unsigned ''successes'' (numTestCasesPassingFilters p - numTestCasesFailed p),
      Attr_unsigned ''failures'' (numTestCasesFailed p)] @
     (if \<not> o_no_skipped_summary (opt env)
      then [Attr_unsigned ''skipped'' (numTestCases p - numTestCasesPassingFilters p)] else []) @
     [End, End]"

definition xml_test_case_end :: "report_env \<Rightarrow> CurrentTestCaseStats \<Rightarrow> xml_state \<Rightarrow> xml_call list option" where
  "xml_test_case_end env st tc =
     do { t \<leftarrow> tc;
          Some ([Start ''OverallResultsAsserts'',
                 Attr_int ''successes'' (numAssertsCurrentTest st - numAssertsFailedCurrentTest st),
                 Attr_int ''failures'' (numAssertsFailedCurrentTest st),
                 Attr_bool ''test_case_success'' (testCaseSuccess st)] @
                (if o_duration (opt env) then [Attr ''duration'' (d_show env (seconds env st))] else []) @
                (if tc_expected_failures t \<noteq> 0 then [Attr_int ''expected_failures'' (tc_expected_failures t)] else []) @
                [End, End]) }"

definition xml_log_assert :: "report_env \<Rightarrow> AssertData \<Rightarrow> string list \<Rightarrow> xml_call list option" where
  "xml_log_assert env rb contexts =
     (if \<not> ad_failed rb \<and> \<not> o_success (opt env) then Some []
      else do { type \<leftarrow> assertString (ad_at rb);
                Some ([Start ''Expression'', Attr_bool ''success'' (\<not> ad_failed rb), Attr ''type'' type,
                       Attr ''filename'' (path_of env (ad_file rb)),
                       Attr_unsigned ''line'' (the_line env (word_of_int (ad_line rb)))] @
                  scopedElement ''Original'' [Write (ad_expr rb) True] @
                  (if ad_threw rb then scopedElement ''Exception'' [Write (c_string (ad_exception rb)) True] else []) @
                  (if ad_at rb AND is_throws_as \<noteq> 0
                   then scopedElement ''ExpectedException'' [Write (ad_exception_type rb) True] else []) @
                  (if ad_at rb AND is_throws_with \<noteq> 0
                   then scopedElement ''ExpectedExceptionString''
                          [Write (c_string (content_text (ad_exception_string rb))) True] else []) @
                  (if ad_at rb AND is_normal \<noteq> 0 \<and> \<not> ad_threw rb
                   then scopedElement ''Expanded'' [Write (c_string (ad_decomp rb)) True] else []) @
                  xml_log_contexts contexts @ [End]) })"

definition xml_log_message :: "report_env \<Rightarrow> MessageData \<Rightarrow> string list \<Rightarrow> xml_call list" where
  "xml_log_message env mb contexts =
     [Start ''Message'', Attr ''type'' (failureString (md_severity mb)),
      Attr ''filename'' (path_of env (md_file mb)),
      Attr_unsigned ''line'' (the_line env (word_of_int (md_line mb)))] @
     scopedElement ''Text'' [Write (c_string (md_string mb)) True] @
     xml_log_contexts contexts @ [End]"

definition xml_subcase_start :: "report_env \<Rightarrow> SubcaseSignature \<Rightarrow> xml_call list" where
  "xml_subcase_start env s =
     [Start ''SubCase'', Attr ''name'' (c_string (m_name s)),
      Attr ''filename'' (path_of env (m_file s)),
      Attr_unsigned ''line'' (the_line env (word_of_int (m_line s))), Close_tag]"

text \<open>The methods.\<close>

fun xml_event :: "report_env \<Rightarrow> reporter_event \<Rightarrow> xml_state \<Rightarrow> (xml_call list \<times> xml_state) option" where
  "xml_event env (Report_query data run_stats) tc =
     map_option (\<lambda>cs. (cs, tc)) (xml_report_query env data run_stats)"
| "xml_event env Test_run_start tc = Some (xml_test_run_start env, tc)"
| "xml_event env (Test_run_end p) tc = Some (xml_test_run_end env p tc, tc)"
| "xml_event env (Test_case_start t) tc =
     map_option (\<lambda>(cs, tc). (cs @ [Close_tag], tc)) (test_case_start_impl env t tc)"
| "xml_event env (Test_case_reenter t) tc = Some ([], tc)"
| "xml_event env (Test_case_end st) tc = map_option (\<lambda>cs. (cs, tc)) (xml_test_case_end env st tc)"
| "xml_event env (Test_case_exception error_string is_crash stringified) tc =
     Some (scopedElement ''Exception'' [Attr_bool ''crash'' is_crash, Write (c_string error_string) True], tc)"
| "xml_event env (Subcase_start s) tc = Some (xml_subcase_start env s, tc)"
| "xml_event env Subcase_end tc = Some ([End], tc)"
| "xml_event env (Log_assert rb contexts) tc = map_option (\<lambda>cs. (cs, tc)) (xml_log_assert env rb contexts)"
| "xml_event env (Log_message mb contexts) tc = Some (xml_log_message env mb contexts, tc)"
| "xml_event env (Test_case_skipped t) tc =
     (if \<not> o_no_skipped_summary (opt env)
      then map_option (\<lambda>(cs, tc). (cs @ [Attr ''skipped'' ''true'', End], tc)) (test_case_start_impl env t tc)
      else Some ([], tc))"

text \<open>All that a reporter does for the reports of a run; what is written by calls of the writer, with
  its destructor.\<close>

fun calls_for :: "(reporter_event \<Rightarrow> 's \<Rightarrow> ('o list \<times> 's) option) \<Rightarrow> reporter_event list \<Rightarrow> 's \<Rightarrow> ('o list \<times> 's) option" where
  "calls_for handle [] s = Some ([], s)"
| "calls_for handle (e # es) s =
     do { (cs, s) \<leftarrow> handle e s; (rest, s) \<leftarrow> calls_for handle es s; Some (cs @ rest, s) }"

definition written :: "xml_call list \<Rightarrow> string option" where
  "written cs = do { w \<leftarrow> xml_steps cs new_writer; w \<leftarrow> close_all w; Some (m_os w) }"

section \<open>Texts of assertions\<close>

datatype Color =
    NoColor | White | Red | Green | Blue | Cyan | Yellow | Grey | Bright | BrightRed | BrightGreen
  | LightGrey | BrightWhite

fun color_code :: "Color \<Rightarrow> string" where
  "color_code Red = ''[0;31m''"
| "color_code Green = ''[0;32m''"
| "color_code Blue = ''[0;34m''"
| "color_code Cyan = ''[0;36m''"
| "color_code Yellow = ''[0;33m''"
| "color_code Grey = ''[1;30m''"
| "color_code LightGrey = ''[0;37m''"
| "color_code BrightRed = ''[1;31m''"
| "color_code BrightGreen = ''[1;32m''"
| "color_code BrightWhite = ''[1;37m''"
| "color_code _ = ''[0m''"

definition color :: "report_env \<Rightarrow> Color \<Rightarrow> string" where
  "color env code =
     (if o_no_colors (opt env) \<or> \<not> tty env \<and> \<not> o_force_colors (opt env) then []
      else CHR 0x1B # color_code code)"

definition threw_as_expected :: string where
  "threw_as_expected = ''threw as expected!''"

definition did_not_throw :: string where
  "did_not_throw = ''did NOT throw at all!''"

definition fulltext_log_assert_to_stream :: "report_env \<Rightarrow> AssertData \<Rightarrow> string option" where
  "fulltext_log_assert_to_stream env rb =
     do { s1 \<leftarrow>
            (if ad_at rb AND (is_throws_as OR is_throws_with) = 0 then
               do { a \<leftarrow> assertString (ad_at rb);
                    Some (color env Cyan @ a @ ''( '' @ ad_expr rb @ '' ) '' @ color env NoColor) }
             else Some []);
          s2 \<leftarrow>
            (if ad_at rb AND is_throws \<noteq> 0 then
               Some ((if ad_threw rb then threw_as_expected else did_not_throw) @ endl)
             else if ad_at rb AND is_throws_as \<noteq> 0 \<and> ad_at rb AND is_throws_with \<noteq> 0 then
               do { a \<leftarrow> assertString (ad_at rb);
                    Some (color env Cyan @ a @ ''( '' @ ad_expr rb @ '', '' @ quote @
                      c_string (content_text (ad_exception_string rb)) @ quote @ '', '' @
                      ad_exception_type rb @ '' ) '' @ color env NoColor @
                      (if ad_threw rb then
                         (if \<not> ad_failed rb then threw_as_expected @ endl
                          else ''threw a DIFFERENT exception! (contents: '' @ c_string (ad_exception rb) @ '')'' @ endl)
                       else did_not_throw @ endl)) }
             else if ad_at rb AND is_throws_as \<noteq> 0 then
               do { a \<leftarrow> assertString (ad_at rb);
                    Some (color env Cyan @ a @ ''( '' @ ad_expr rb @ '', '' @ ad_exception_type rb @ '' ) '' @
                      color env NoColor @
                      (if ad_threw rb then
                         (if ad_threw_as rb then threw_as_expected else ''threw a DIFFERENT exception: '')
                       else did_not_throw) @ color env Cyan @ c_string (ad_exception rb) @ endl) }
             else if ad_at rb AND is_throws_with \<noteq> 0 then
               do { a \<leftarrow> assertString (ad_at rb);
                    Some (color env Cyan @ a @ ''( '' @ ad_expr rb @ '', '' @ quote @
                      c_string (content_text (ad_exception_string rb)) @ quote @ '' ) '' @ color env NoColor @
                      (if ad_threw rb then
                         (if \<not> ad_failed rb then threw_as_expected else ''threw a DIFFERENT exception: '')
                       else did_not_throw) @ color env Cyan @ c_string (ad_exception rb) @ endl) }
             else if ad_at rb AND is_nothrow \<noteq> 0 then
               Some ((if ad_threw rb then ''THREW exception: '' else ''didn't throw!'') @ color env Cyan @
                 c_string (ad_exception rb) @ endl)
             else
               do { s3 \<leftarrow> (if ad_threw rb then Some (c_string (ad_exception rb) @ endl)
                      else do { a \<leftarrow> assertString (ad_at rb);
                                Some (''  values: '' @ a @ ''( '' @ c_string (ad_decomp rb) @ '' )'' @ endl) });
                    Some ((if ad_threw rb then ''THREW exception: ''
                           else if \<not> ad_failed rb then ''is correct!'' @ endl else ''is NOT correct!'' @ endl) @ s3) });
          Some (s1 @ s2) }"

section \<open>JUnitReporter\<close>

record junit_message =
  jm_message :: string
  jm_type :: string
  jm_details :: string

record junit_case =
  jc_classname :: string
  jc_name :: string
  jc_time :: "64 word"
  jc_failures :: "junit_message list"
  jc_errors :: "junit_message list"

text \<open>The state; the last field counts the readings of the timer.\<close>

record junit_state =
  testcases :: "junit_case list"
  totalSeconds :: "64 word"
  totalErrors :: int
  totalFailures :: int
  deepestSubcaseStackNames :: "string list"
  timer_reads :: nat

definition new_junit :: junit_state where
  "new_junit = \<lparr>testcases = [], totalSeconds = 0, totalErrors = 0, totalFailures = 0,
     deepestSubcaseStackNames = [], timer_reads = 0\<rparr>"

text \<open>A change of the last test case; \<open>None\<close>: there is none.\<close>

definition on_last :: "(junit_case \<Rightarrow> junit_case) \<Rightarrow> junit_state \<Rightarrow> junit_state option" where
  "on_last f ju =
     (if testcases ju = [] then None
      else Some (ju\<lparr>testcases := butlast (testcases ju) @ [f (last (testcases ju))]\<rparr>))"

definition junit_add :: "string \<Rightarrow> string \<Rightarrow> junit_state \<Rightarrow> junit_state" where
  "junit_add classname name ju =
     ju\<lparr>testcases := testcases ju @
          [\<lparr>jc_classname = classname, jc_name = name, jc_time = 0, jc_failures = [], jc_errors = []\<rparr>]\<rparr>"

definition appendSubcaseNamesToLastTestcase :: "string list \<Rightarrow> junit_state \<Rightarrow> junit_state option" where
  "appendSubcaseNamesToLastTestcase nameStack ju =
     (let names = concat (map (\<lambda>curr. ''/'' @ c_string curr) (filter (\<lambda>curr. curr \<noteq> []) nameStack))
      in if names = [] then Some ju else on_last (\<lambda>c. c\<lparr>jc_name := jc_name c @ names\<rparr>) ju)"

definition addTime :: "report_env \<Rightarrow> 64 word \<Rightarrow> junit_state \<Rightarrow> junit_state option" where
  "addTime env time ju =
     (let time = (if d_less env time (d_small env) then 0 else time)
      in map_option (\<lambda>ju. ju\<lparr>totalSeconds := d_plus env (totalSeconds ju) time\<rparr>)
           (on_last (\<lambda>c. c\<lparr>jc_time := time\<rparr>) ju))"

definition addFailure :: "string \<Rightarrow> string \<Rightarrow> string \<Rightarrow> junit_state \<Rightarrow> junit_state option" where
  "addFailure message type details ju =
     map_option (\<lambda>ju. ju\<lparr>totalFailures := totalFailures ju + 1\<rparr>)
       (on_last (\<lambda>c. c\<lparr>jc_failures := jc_failures c @
          [\<lparr>jm_message = message, jm_type = type, jm_details = details\<rparr>]\<rparr>) ju)"

definition addError :: "string \<Rightarrow> string \<Rightarrow> junit_state \<Rightarrow> junit_state option" where
  "addError message details ju =
     map_option (\<lambda>ju. ju\<lparr>totalErrors := totalErrors ju + 1\<rparr>)
       (on_last (\<lambda>c. c\<lparr>jc_errors := jc_errors c @
          [\<lparr>jm_message = message, jm_type = [], jm_details = details\<rparr>]\<rparr>) ju)"

definition junit_log_contexts :: "string list \<Rightarrow> string" where
  "junit_log_contexts contexts =
     (if contexts = [] then []
      else ''  logged: '' @ hd contexts @ endl @
           concat (map (\<lambda>c. replicate 10 (CHR '' '') @ c @ endl) (tl contexts)))"

definition junit_location :: "report_env \<Rightarrow> string \<Rightarrow> int \<Rightarrow> string" where
  "junit_location env file ln =
     path_of env file @ (if o_gnu_file_line (opt env) then '':'' else ''('') @
     show_unsigned (the_line env (word_of_int ln)) @
     (if o_gnu_file_line (opt env) then '':'' else ''):'') @ endl"

text \<open>The elapsed time and the names of the subcases go to the last test case.\<close>

definition junit_finish :: "report_env \<Rightarrow> junit_state \<Rightarrow> junit_state option" where
  "junit_finish env ju =
     do { ju \<leftarrow> addTime env (elapsed env (timer_reads ju)) (ju\<lparr>timer_reads := timer_reads ju + 1\<rparr>);
          ju \<leftarrow> appendSubcaseNamesToLastTestcase (deepestSubcaseStackNames ju) ju;
          Some (ju\<lparr>deepestSubcaseStackNames := []\<rparr>) }"

definition junit_start :: "report_env \<Rightarrow> TestCaseData \<Rightarrow> junit_state \<Rightarrow> junit_state option" where
  "junit_start env tc ju =
     do { name \<leftarrow> tc_name tc; Some (junit_add (path_of env (c_string (tc_file tc))) name ju) }"

definition junit_log_assert :: "report_env \<Rightarrow> AssertData \<Rightarrow> string list \<Rightarrow> junit_state \<Rightarrow> junit_state option" where
  "junit_log_assert env rb contexts ju =
     (if \<not> ad_failed rb then Some ju
      else do { full \<leftarrow> fulltext_log_assert_to_stream env rb;
                type \<leftarrow> assertString (ad_at rb);
                addFailure (c_string (ad_decomp rb)) type
                  (junit_location env (ad_file rb) (ad_line rb) @ full @ junit_log_contexts contexts) ju })"

definition junit_log_message :: "report_env \<Rightarrow> MessageData \<Rightarrow> string list \<Rightarrow> junit_state \<Rightarrow> junit_state option" where
  "junit_log_message env mb contexts ju =
     (if md_severity mb AND is_warn \<noteq> 0 then Some ju
      else addFailure (c_string (md_string mb))
             (if md_severity mb AND is_check \<noteq> 0 then ''FAIL_CHECK'' else ''FAIL'')
             (junit_location env (md_file mb) (md_line mb) @ c_string (md_string mb) @ endl @
              junit_log_contexts contexts) ju)"

definition junit_failure :: "junit_message \<Rightarrow> xml_call list" where
  "junit_failure f = scopedElement ''failure''
     [Attr ''message'' (jm_message f), Attr ''type'' (jm_type f), Write (jm_details f) False]"

definition junit_error :: "junit_message \<Rightarrow> xml_call list" where
  "junit_error e = scopedElement ''error'' [Attr ''message'' (jm_message e), Write (jm_details e) True]"

definition junit_testcase :: "report_env \<Rightarrow> junit_case \<Rightarrow> xml_call list" where
  "junit_testcase env c =
     [Start ''testcase'', Attr ''classname'' (jc_classname c), Attr ''name'' (jc_name c)] @
     (if \<not> o_no_time_in_output (opt env) then [Attr ''time'' (d_show env (jc_time c))] else []) @
     [Attr ''status'' ''run''] @
     concat (map junit_failure (jc_failures c)) @ concat (map junit_error (jc_errors c)) @ [End]"

definition junit_test_run_end :: "report_env \<Rightarrow> TestRunStats \<Rightarrow> junit_state \<Rightarrow> xml_call list" where
  "junit_test_run_end env p ju =
     [Start ''testsuites'', Start ''testsuite'',
      Attr ''name'' (path_of env (c_string (o_binary_name (opt env)))),
      Attr_int ''errors'' (totalErrors ju), Attr_int ''failures'' (totalFailures ju),
      Attr_int ''tests'' (numAsserts p)] @
     (if \<not> o_no_time_in_output (opt env)
      then [Attr ''time'' (d_show env (totalSeconds ju)), Attr ''timestamp'' (timestamp env)] else []) @
     (if \<not> o_no_version (opt env) then [Attr ''doctest_version'' version_str] else []) @
     concat (map (junit_testcase env) (testcases ju)) @ [End, End]"

fun junit_event :: "report_env \<Rightarrow> reporter_event \<Rightarrow> junit_state \<Rightarrow> (xml_call list \<times> junit_state) option" where
  "junit_event env (Report_query data run_stats) ju = Some ([Declaration], ju)"
| "junit_event env Test_run_start ju = Some ([Declaration], ju)"
| "junit_event env (Test_run_end p) ju = Some (junit_test_run_end env p ju, ju)"
| "junit_event env (Test_case_start tc) ju = map_option (\<lambda>ju. ([], ju)) (junit_start env tc ju)"
| "junit_event env (Test_case_reenter tc) ju =
     do { ju \<leftarrow> junit_finish env ju; ju \<leftarrow> junit_start env tc ju; Some ([], ju) }"
| "junit_event env (Test_case_end st) ju = map_option (\<lambda>ju. ([], ju)) (junit_finish env ju)"
| "junit_event env (Test_case_exception error_string is_crash stringified) ju =
     map_option (\<lambda>ju. ([], ju)) (addError ''exception'' (c_string error_string) ju)"
| "junit_event env (Subcase_start s) ju =
     Some ([], ju\<lparr>deepestSubcaseStackNames := deepestSubcaseStackNames ju @ [m_name s]\<rparr>)"
| "junit_event env Subcase_end ju = Some ([], ju)"
| "junit_event env (Log_assert rb contexts) ju = map_option (\<lambda>ju. ([], ju)) (junit_log_assert env rb contexts ju)"
| "junit_event env (Log_message mb contexts) ju = map_option (\<lambda>ju. ([], ju)) (junit_log_message env mb contexts ju)"
| "junit_event env (Test_case_skipped tc) ju = Some ([], ju)"

section \<open>The contract\<close>

text \<open>
  A reporter has an invariant for each stage of a run, by which no report makes it fail.
\<close>

locale reporter =
  fixes handle :: "reporter_event \<Rightarrow> 's \<Rightarrow> ('o list \<times> 's) option"
    and start :: 's
    and inv :: "stage \<Rightarrow> 's \<Rightarrow> bool"
    and ok :: "reporter_event \<Rightarrow> bool"
  assumes start_inv: "inv Before start"
    and handled: "inv st s \<Longrightarrow> event_step e st = Some st' \<Longrightarrow> ok e \<Longrightarrow>
      \<exists>out s'. handle e s = Some (out, s') \<and> inv st' s'"
begin

lemma calls_handled:
  "inv st s \<Longrightarrow> event_steps es st = Some st' \<Longrightarrow> list_all ok es \<Longrightarrow>
     \<exists>r s'. calls_for handle es s = Some (r, s') \<and> inv st' s'"
proof (induction es arbitrary: st s)
  case (Cons e es)
  then obtain st1 where "event_step e st = Some st1" "event_steps es st1 = Some st'"
    by (auto split: option.splits)
  then show ?case using handled [of st s e st1] Cons by fastforce
qed simp

lemma report_handled:
  "event_steps es Before = Some st \<Longrightarrow> list_all ok es \<Longrightarrow> \<exists>r s'. calls_for handle es start = Some (r, s')"
  using calls_handled [OF start_inv] by blast

end

text \<open>
  A reporter that writes tags: at each stage of a run it has so many elements open, the tag of the
  last one closed, and what it calls for a report leads from there to the next stage.
\<close>

locale tag_reporter = reporter handle start inv ok
  for handle :: "reporter_event \<Rightarrow> 's \<Rightarrow> (xml_call list \<times> 's) option"
    and start :: 's
    and inv :: "stage \<Rightarrow> 's \<Rightarrow> bool"
    and ok :: "reporter_event \<Rightarrow> bool" +
  fixes depth :: "stage \<Rightarrow> 's \<Rightarrow> nat"
  assumes start_depth: "depth Before start = 0"
    and tags: "inv st s \<Longrightarrow> event_step e st = Some st' \<Longrightarrow> ok e \<Longrightarrow> handle e s = Some (cs, s') \<Longrightarrow>
      calls_ok cs (depth st s, False) = Some (depth st' s', False)"
begin

lemma step:
  "inv st s \<Longrightarrow> event_step e st = Some st' \<Longrightarrow> ok e \<Longrightarrow>
     \<exists>cs s'. handle e s = Some (cs, s') \<and> inv st' s' \<and>
       calls_ok cs (depth st s, False) = Some (depth st' s', False)"
  using handled tags by blast

lemma calls_steps:
  "inv st s \<Longrightarrow> event_steps es st = Some st' \<Longrightarrow> list_all ok es \<Longrightarrow>
     \<exists>cs s'. calls_for handle es s = Some (cs, s') \<and> calls_ok cs (depth st s, False) = Some (depth st' s', False)"
proof (induction es arbitrary: st s)
  case (Cons e es)
  then obtain st1 where st1: "event_step e st = Some st1" "event_steps es st1 = Some st'"
    by (auto split: option.splits)
  then obtain cs s1 where cs: "handle e s = Some (cs, s1)" "inv st1 s1"
      "calls_ok cs (depth st s, False) = Some (depth st1 s1, False)"
    using step Cons.prems by fastforce
  then show ?case using Cons.IH [OF cs(2) st1(2)] Cons.prems(3) by (auto simp: calls_ok_append)
qed auto

lemma report_nested:
  assumes "event_steps es Before = Some st" "list_all ok es"
  shows "\<exists>txts. Option.bind (calls_for handle es start) (written \<circ> fst) = Some txts \<and> nested_tags txts"
proof -
  obtain cs s' where "calls_for handle es start = Some (cs, s')" "\<exists>d. calls_ok cs (0, False) = Some d"
    using calls_steps [OF start_inv assms] start_depth by auto
  then show ?thesis using writer_nests by (fastforce simp: written_def)
qed

end

section \<open>Both reporters fulfil it\<close>

lemma name_chars: "list_all name_char ''abcdefghijklmnopqrstuvwxyzABCDEFGHIJKLMNOPQRSTUVWXYZ_''"
  by code_simp

lemmas name_char_simps = name_chars [simplified]

lemma calls_ok_if: "calls_ok (if b then cs else []) s = (if b then calls_ok cs s else Some s)"
  by simp

lemma calls_ok_option_attr:
  "list_all name_char n \<Longrightarrow> calls_ok (if b then [Attr n v] else []) (d, True) = Some (d, True)"
  "list_all name_char n \<Longrightarrow> calls_ok (if b then [Attr_bool n w] else []) (d, True) = Some (d, True)"
  by simp_all

lemma calls_ok_concat:
  "(\<And>x opn. x \<in> set xs \<Longrightarrow> calls_ok (f x) (d, opn) = Some (d, False)) \<Longrightarrow>
     calls_ok (concat (map f xs)) (d, opn) = Some (d, opn \<and> xs = [])"
  by (induction xs arbitrary: opn) (auto simp: calls_ok_append)

lemmas call_simps = calls_ok_append scopedElement_def xml_name_def name_char_simps
  Attr_ptr_def Attr_unsigned_def Attr_int_def calls_ok_option_attr

lemma xml_log_contexts_ok: "calls_ok (xml_log_contexts contexts) (d, opn) = Some (d, opn \<and> contexts = [])"
  unfolding xml_log_contexts_def by (rule calls_ok_concat) (simp add: call_simps)

text \<open>Test cases have a name and a suite.\<close>

definition xml_inv :: "stage \<Rightarrow> xml_state \<Rightarrow> bool" where
  "xml_inv st tc \<longleftrightarrow>
     (case tc of None \<Rightarrow> (case st of Inside _ \<Rightarrow> False | _ \<Rightarrow> True)
      | Some t \<Rightarrow> st \<noteq> Before \<and> tc_test_suite t \<noteq> None)"

fun xml_depth :: "stage \<Rightarrow> xml_state \<Rightarrow> nat" where
  "xml_depth Between tc = (if tc = None then 1 else 2)"
| "xml_depth (Inside n) tc = 3 + n"
| "xml_depth _ tc = 0"

lemma test_case_start_impl_ok:
  assumes "xml_inv Between tc" "tc_test_suite t \<noteq> None"
  shows "\<exists>cs. test_case_start_impl env t tc = Some (cs, Some t) \<and>
    calls_ok cs (xml_depth Between tc, False) = Some (3, True)"
proof -
  obtain suite where suite: "tc_test_suite t = Some suite" using assms(2) by auto
  show ?thesis
  proof (cases tc)
    case None
    then show ?thesis
      using suite by (simp add: test_case_start_impl_def call_simps)
  next
    case (Some t')
    then obtain suite' where "tc_test_suite t' = Some suite'" using assms(1) by (auto simp: xml_inv_def)
    then show ?thesis
      using suite Some by (cases "strcmp suite' suite = 0") (simp_all add: test_case_start_impl_def call_simps)
  qed
qed

text \<open>
  What the XML reporter needs of a report; a query without statistics comes when nothing is run.
\<close>

fun xml_ok :: "report_env \<Rightarrow> reporter_event \<Rightarrow> bool" where
  "xml_ok env (Report_query data None) \<longleftrightarrow> o_list_reporters (opt env) \<or> \<not> query_mode (opt env)"
| "xml_ok env e = event_ok e"

lemma xml_run_start_ok: "calls_ok (xml_test_run_start env) (0, False) = Some (1, False)"
  by (simp add: xml_test_run_start_def call_simps)

lemma calls_ok_scoped:
  "xml_name n \<Longrightarrow> calls_ok body (d + 1, True) = Some (d + 1, opn') \<Longrightarrow>
     calls_ok (scopedElement n body) (d, opn) = Some (d, False)"
  by (simp add: scopedElement_def calls_ok_append)

lemma xml_query_ok:
  assumes "xml_ok env (Report_query data run_stats)"
  shows "\<exists>cs. xml_report_query env data run_stats = Some cs \<and> calls_ok cs (0, False) = Some (0, False)"
proof -
  have each: "calls_ok (concat (map f xs)) (Suc 0, False) = Some (Suc 0, False)"
    if "\<And>x opn. calls_ok (f x) (Suc 0, opn) = Some (Suc 0, False)" for f :: "'b \<Rightarrow> xml_call list" and xs
    using calls_ok_concat [of xs f "Suc 0" False] that by simp
  have pairs: "calls_ok (concat (map f xs)) (Suc 0, False) = Some (Suc 0, False)"
    if "\<And>x y opn. calls_ok (f (x, y)) (Suc 0, opn) = Some (Suc 0, False)" for f :: "int \<times> string \<Rightarrow> xml_call list" and xs
    using each [of f xs] that by (metis surj_pair)
  consider "o_list_reporters (opt env)" | "\<not> o_list_reporters (opt env)" "\<not> query_mode (opt env)"
    | st where "run_stats = Some st"
    using assms by (cases run_stats) auto
  then show ?thesis
    by cases
      (auto simp: xml_report_query_def query_mode_def calls_ok_append xml_run_start_ok call_simps each pairs Let_def)
qed

lemma xml_run_end_ok:
  "xml_inv Between tc \<Longrightarrow> calls_ok (xml_test_run_end env p tc) (xml_depth Between tc, False) = Some (0, False)"
  by (cases tc) (simp_all add: xml_test_run_end_def call_simps)

lemma xml_case_end_ok:
  "xml_inv (Inside n) tc \<Longrightarrow> \<exists>cs. xml_test_case_end env st tc = Some cs \<and> calls_ok cs (3, False) = Some (2, False)"
  by (cases tc) (simp_all add: xml_inv_def xml_test_case_end_def call_simps)

lemma xml_log_assert_ok:
  assumes "assertString (ad_at rb) \<noteq> None"
  shows "\<exists>cs. xml_log_assert env rb contexts = Some cs \<and> calls_ok cs (d, False) = Some (d, False)"
proof -
  have opt: "calls_ok (if b then scopedElement n [Write t i] else []) (d, opn) = Some (d, opn \<and> \<not> b)"
    if "xml_name n" for b n t i d opn
    using that by (simp add: scopedElement_def)
  show ?thesis
    using assms
    by (auto simp: xml_log_assert_def calls_ok_append opt xml_log_contexts_ok xml_name_def name_char_simps
        Attr_unsigned_def scopedElement_def)
qed

lemma xml_log_message_ok: "calls_ok (xml_log_message env mb contexts) (d, False) = Some (d, False)"
  by (simp add: xml_log_message_def call_simps xml_log_contexts_ok)

lemma xml_event_ok:
  assumes "xml_inv st tc" "event_step e st = Some st'" "xml_ok env e"
  shows "\<exists>cs tc'. xml_event env e tc = Some (cs, tc') \<and> xml_inv st' tc' \<and>
    calls_ok cs (xml_depth st tc, False) = Some (xml_depth st' tc', False)"
proof (cases st)
  case Before
  then have tc: "tc = None" using assms(1) by (cases tc) (auto simp: xml_inv_def)
  then show ?thesis
    using assms(2,3) Before xml_query_ok xml_run_start_ok
    by (cases e) (auto simp: xml_inv_def)
next
  case Between
  consider p where "e = Test_run_end p" "st' = After" | t where "e = Test_case_start t" "st' = Inside 0" "named t"
    | t where "e = Test_case_skipped t" "st' = Between" "named t"
    using assms(2,3) Between by (cases e) auto
  then show ?thesis
  proof cases
    case 1
    then show ?thesis
      using xml_run_end_ok [of tc env p] assms(1) Between by (auto simp: xml_inv_def split: option.splits)
  next
    case 2
    then show ?thesis
      using test_case_start_impl_ok [of tc t env] assms(1) Between
      by (auto simp: xml_inv_def named_def calls_ok_append)
  next
    case 3
    obtain cs where "test_case_start_impl env t tc = Some (cs, Some t)" "calls_ok cs (xml_depth Between tc, False) = Some (3, True)"
      using test_case_start_impl_ok [of tc t env] assms(1) Between 3(3) by (auto simp: named_def)
    then show ?thesis
      using 3 Between assms(1) by (simp add: xml_inv_def named_def calls_ok_append name_char_simps)
  qed
next
  case (Inside n)
  then show ?thesis
    using assms xml_case_end_ok [of n tc] xml_log_assert_ok [of _ env _ "3 + n"] xml_log_message_ok
    by (cases e)
      (auto simp: xml_inv_def xml_subcase_start_def call_simps split: if_splits option.splits)
next
  case After
  then show ?thesis using assms(2) by simp
qed

interpretation xml_reporter: tag_reporter "xml_event env" None xml_inv "xml_ok env" xml_depth for env
  by unfold_locales (use xml_event_ok in \<open>fastforce simp: xml_inv_def [of Before]\<close>)+

lemma fulltext_some:
  "assertString (ad_at rb) \<noteq> None \<Longrightarrow> \<exists>t. fulltext_log_assert_to_stream env rb = Some t"
  by (auto simp: fulltext_log_assert_to_stream_def)

text \<open>In a test case the JUnit reporter has it as the last one of its list.\<close>

definition junit_inv :: "stage \<Rightarrow> junit_state \<Rightarrow> bool" where
  "junit_inv st ju \<longleftrightarrow> (case st of Inside _ \<Rightarrow> testcases ju \<noteq> [] | _ \<Rightarrow> True)"

definition keeps_a_case :: "junit_state option \<Rightarrow> bool" where
  "keeps_a_case r \<longleftrightarrow> (\<exists>ju. r = Some ju \<and> testcases ju \<noteq> [])"

lemma junit_keeps:
  assumes "testcases ju \<noteq> []"
  shows "keeps_a_case (addTime env t ju)" "keeps_a_case (addFailure m ty d ju)" "keeps_a_case (addError m d ju)"
    "keeps_a_case (appendSubcaseNamesToLastTestcase names ju)"
  using assms
  by (auto simp: keeps_a_case_def addTime_def addFailure_def addError_def
      appendSubcaseNamesToLastTestcase_def on_last_def Let_def)

lemma junit_finish_keeps: "testcases ju \<noteq> [] \<Longrightarrow> keeps_a_case (junit_finish env ju)"
proof -
  assume "testcases ju \<noteq> []"
  then obtain ju1 where ju1: "addTime env (elapsed env (timer_reads ju)) (ju\<lparr>timer_reads := timer_reads ju + 1\<rparr>) = Some ju1"
      "testcases ju1 \<noteq> []"
    using junit_keeps(1) [of "ju\<lparr>timer_reads := timer_reads ju + 1\<rparr>"] by (fastforce simp: keeps_a_case_def)
  then obtain ju2 where "appendSubcaseNamesToLastTestcase (deepestSubcaseStackNames ju1) ju1 = Some ju2" "testcases ju2 \<noteq> []"
    using junit_keeps(4) by (fastforce simp: keeps_a_case_def)
  then show "keeps_a_case (junit_finish env ju)" using ju1 by (simp add: keeps_a_case_def junit_finish_def)
qed

lemma junit_start_keeps: "named tc \<Longrightarrow> keeps_a_case (junit_start env tc ju)"
  by (auto simp: keeps_a_case_def junit_start_def junit_add_def named_def)

lemma junit_log_keeps:
  assumes "testcases ju \<noteq> []"
  shows "assertString (ad_at rb) \<noteq> None \<Longrightarrow> keeps_a_case (junit_log_assert env rb contexts ju)"
    "keeps_a_case (junit_log_message env mb contexts ju)"
  using assms fulltext_some [of rb env] junit_keeps(2) [OF assms]
  by (auto simp: keeps_a_case_def junit_log_assert_def junit_log_message_def)

lemma junit_messages_ok:
  "calls_ok (junit_failure f) (d, opn) = Some (d, False)" "calls_ok (junit_error f) (d, opn) = Some (d, False)"
  by (simp_all add: junit_failure_def junit_error_def call_simps)

lemma junit_testcase_ok: "calls_ok (junit_testcase env c) (d, opn) = Some (d, False)"
  by (simp add: junit_testcase_def call_simps calls_ok_concat junit_messages_ok)

lemma junit_run_end_ok: "calls_ok (junit_test_run_end env p ju) (0, False) = Some (0, False)"
  by (simp add: junit_test_run_end_def call_simps calls_ok_concat junit_testcase_ok)

lemma junit_event_ok:
  assumes "junit_inv st ju" "event_step e st = Some st'" "event_ok e"
  shows "\<exists>cs ju'. junit_event env e ju = Some (cs, ju') \<and> junit_inv st' ju' \<and> calls_ok cs (0, False) = Some (0, False)"
proof -
  have quiet: ?thesis
    if "junit_event env e ju = map_option (\<lambda>ju. ([], ju)) r" "keeps_a_case r" for r
    using that by (auto simp: keeps_a_case_def junit_inv_def split: stage.split)
  show ?thesis
  proof (cases st)
    case Before
    then show ?thesis using assms(2) by (cases e) (auto simp: junit_inv_def)
  next
    case Between
    then show ?thesis
      using assms(2,3) junit_run_end_ok quiet junit_start_keeps by (cases e) (auto simp: junit_inv_def)
  next
    case (Inside n)
    have ju: "testcases ju \<noteq> []" using assms(1) Inside by (simp add: junit_inv_def)
    show ?thesis
    proof (cases "\<exists>tc. e = Test_case_reenter tc")
      case True
      then obtain tc where tc: "e = Test_case_reenter tc" "named tc" using assms(3) by auto
      obtain ju1 where "junit_finish env ju = Some ju1" using junit_finish_keeps [OF ju] by (auto simp: keeps_a_case_def)
      then have "junit_event env e ju = map_option (\<lambda>ju. ([], ju)) (junit_start env tc ju1)"
        using tc(1) by (cases "junit_start env tc ju1") simp_all
      then show ?thesis using quiet junit_start_keeps [OF tc(2)] by blast
    next
      case False
      then show ?thesis
        using assms(2,3) Inside ju quiet junit_finish_keeps [OF ju] junit_log_keeps [OF ju] junit_keeps(3) [OF ju]
        by (cases e) (auto simp: junit_inv_def split: if_splits)
    qed
  next
    case After
    then show ?thesis using assms(2) by simp
  qed
qed

interpretation junit_reporter: tag_reporter "junit_event env" new_junit junit_inv event_ok "\<lambda>_ _. 0" for env
proof unfold_locales
  show "\<exists>cs ju'. junit_event env e ju = Some (cs, ju') \<and> junit_inv st' ju'"
    if "junit_inv st ju" "event_step e st = Some st'" "event_ok e" for st ju e st'
    using junit_event_ok [OF that] by blast
  show "calls_ok cs (0, False) = Some (0, False)"
    if "junit_inv st ju" "event_step e st = Some st'" "event_ok e" "junit_event env e ju = Some (cs, ju')"
    for st ju e st' cs ju'
    using junit_event_ok [OF that(1-3), of env] that(4) by auto
qed (simp_all add: junit_inv_def)

section \<open>Reports of a run\<close>

definition xml_report :: "report_env \<Rightarrow> reporter_event list \<Rightarrow> string option" where
  "xml_report env es = Option.bind (calls_for (xml_event env) es None) (written \<circ> fst)"

definition junit_report :: "report_env \<Rightarrow> reporter_event list \<Rightarrow> string option" where
  "junit_report env es = Option.bind (calls_for (junit_event env) es new_junit) (written \<circ> fst)"

lemma xml_ok_event: "event_ok e \<Longrightarrow> (\<forall>d. e \<noteq> Report_query d None) \<Longrightarrow> xml_ok env e"
  by (cases "(env, e)" rule: xml_ok.cases) auto

text \<open>C24. The XML report of a run is written without failing and its tags are nested, whatever the names
  and messages are. The tests are made of macros, or leave the subcases they enter; and the options
  do not ask for a count or a list together with no run at all.\<close>

theorem xml_report_nested:
  assumes "\<forall>p. good_tests (testArray p)" "run_context slow testArray (opt env) = Some (code, s)"
    and "only_asks (opt env) \<longrightarrow> o_list_reporters (opt env) \<or> \<not> query_mode (opt env)"
  shows "\<exists>txts. xml_report env (reported (ctx s)) = Some txts \<and> nested_tags txts"
proof -
  have run: "well_reported (reported (ctx s))"
    "\<forall>d. Report_query d None \<in> set (reported (ctx s)) \<longrightarrow> only_asks (opt env)"
    using run_reported [OF assms(1,2)] by auto
  have "xml_ok env e" if "e \<in> set (reported (ctx s))" for e
  proof (cases "\<exists>d. e = Report_query d None")
    case True
    then show ?thesis using run(2) assms(3) that by auto
  next
    case False
    then show ?thesis using run(1) that by (auto simp: well_reported_def list_all_iff intro: xml_ok_event)
  qed
  then have "list_all (xml_ok env) (reported (ctx s))" by (simp add: list_all_iff)
  then show ?thesis
    using xml_reporter.report_nested run(1) unfolding well_reported_def xml_report_def by blast
qed

text \<open>C36. With \<open>count\<close>, \<open>list-test-cases\<close> or \<open>list-test-suites\<close> together with \<open>no-run\<close>,
  \<open>version\<close> or \<open>help\<close>, the XML reporter follows a null pointer: the query has no statistics.\<close>

theorem xml_query_crashes:
  assumes "only_asks (opt env)" "query_mode (opt env)" "\<not> o_list_reporters (opt env)"
  shows "\<exists>code s. run_context slow testArray (opt env) = Some (code, s) \<and> xml_report env (reported (ctx s)) = None"
proof -
  obtain code s where s: "run_context slow testArray (opt env) = Some (code, s)" "reported (ctx s) = [Report_query [] None]"
    using only_asks_reported [OF assms(1)] by blast
  have "xml_report_query env [] None = None"
    using assms(2,3) by (auto simp: xml_report_query_def query_mode_def)
  then have "xml_report env (reported (ctx s)) = None" by (simp add: xml_report_def s(2))
  then show ?thesis using s(1) by blast
qed

text \<open>The JUnit report of a run, too, is written without failing and its tags are nested.\<close>

theorem junit_report_nested:
  assumes "\<forall>p. good_tests (testArray p)" "run_context slow testArray p = Some (code, s)"
  shows "\<exists>txts. junit_report env (reported (ctx s)) = Some txts \<and> nested_tags txts"
  using junit_reporter.report_nested run_reported [OF assms]
  unfolding well_reported_def junit_report_def by blast

text \<open>A concrete run, with an arithmetic of whole numbers.\<close>

definition sample_env :: report_env where
  "sample_env =
     \<lparr>opt = sample_state, listeners = [], reporters = [(0, ''console''), (0, ''junit''), (0, ''xml'')],
      tty = False, d_plus = (+), d_less = (<), d_show = (\<lambda>d. show_int (uint d)), d_small = 1,
      d_nonzero = (\<lambda>d. d \<noteq> 0), seconds = (\<lambda>_. 0), elapsed = (\<lambda>_. 0), timestamp = ''2024-01-01T00:00:00Z''\<rparr>"

lemma sample_env_runs:
  obtains code s where "run_context (\<lambda>_. False) (\<lambda>_. [sample_test]) (opt sample_env) = Some (code, s)"
  using sample_runs by (auto simp: sample_env_def split: option.splits)

lemma sample_options: "\<not> only_asks (opt sample_env)"
  by (simp add: sample_env_def sample_state_def blank_state_def only_asks_def)

theorem xml_report_nested_witness:
  "\<exists>code s txts. run_context (\<lambda>_. False) (\<lambda>_. [sample_test]) (opt sample_env) = Some (code, s) \<and>
     xml_report sample_env (reported (ctx s)) = Some txts \<and> nested_tags txts"
proof -
  obtain code s where s: "run_context (\<lambda>_. False) (\<lambda>_. [sample_test]) (opt sample_env) = Some (code, s)"
    by (rule sample_env_runs)
  then show ?thesis using xml_report_nested [OF _ s] sample_good sample_options by blast
qed

theorem junit_report_nested_witness:
  "\<exists>code s txts. run_context (\<lambda>_. False) (\<lambda>_. [sample_test]) (opt sample_env) = Some (code, s) \<and>
     junit_report sample_env (reported (ctx s)) = Some txts \<and> nested_tags txts"
proof -
  obtain code s where s: "run_context (\<lambda>_. False) (\<lambda>_. [sample_test]) (opt sample_env) = Some (code, s)"
    by (rule sample_env_runs)
  then show ?thesis using junit_report_nested [OF _ s, of sample_env] sample_good by blast
qed

definition count_env :: report_env where
  "count_env = sample_env\<lparr>opt := sample_state\<lparr>o_count := True, o_no_run := True\<rparr>\<rparr>"

theorem xml_query_crashes_witness:
  "\<exists>code s. run_context (\<lambda>_. False) (\<lambda>_. [sample_test]) (opt count_env) = Some (code, s) \<and>
     xml_report count_env (reported (ctx s)) = None"
  by (rule xml_query_crashes)
    (simp_all add: count_env_def sample_env_def sample_state_def blank_state_def only_asks_def query_mode_def)

end
