(* ===== verification/Doctest_Options.thy ===== *)
theory Doctest_Options
  imports Doctest_Context
begin

text \<open>
  The command line of the vendored test framework (\<open>external/doctest.h\<close>, \<open>parseOption\<close> to
  \<open>Context::setOption\<close>). An argument vector is the list of its strings. \<open>std::atoi\<close> is that of
  the C library, \<open>strtol\<close> and a conversion to \<open>int\<close>.
\<close>

section \<open>Looking for an option\<close>

text \<open>\<open>std::strstr\<close>: the first position of the pattern.\<close>

fun strstr_at :: "string \<Rightarrow> string \<Rightarrow> nat option" where
  "strstr_at [] pat = (if pat = [] then Some 0 else None)"
| "strstr_at (x # xs) pat = (if prefix pat (x # xs) then Some 0 else map_option Suc (strstr_at xs pat))"

text \<open>The body of the loop of \<open>parseOptionImpl\<close>; a flag is an option without a value.\<close>

definition parse_arg :: "string \<Rightarrow> bool \<Rightarrow> string \<Rightarrow> string option" where
  "parse_arg pattern wants_value arg =
     (case strstr_at arg pattern of
        None \<Rightarrow> None
      | Some k \<Rightarrow>
          let temp = drop k arg
          in if wants_value \<or> length temp = length pattern then
               let noBadCharsFound = list_all (\<lambda>c. c = CHR ''-'') (take k arg)
               in if noBadCharsFound \<and> arg \<noteq> [] \<and> hd arg = CHR ''-'' then
                    if wants_value then
                      let temp = drop (length pattern) temp
                      in if temp \<noteq> [] then Some temp else None
                    else Some []
                  else None
             else None)"

text \<open>From the last argument to the first one.\<close>

fun parse_backwards :: "string \<Rightarrow> bool \<Rightarrow> string list \<Rightarrow> string option" where
  "parse_backwards pattern wants_value [] = None"
| "parse_backwards pattern wants_value (arg # args) =
     (case parse_arg pattern wants_value arg of
        Some v \<Rightarrow> Some v
      | None \<Rightarrow> parse_backwards pattern wants_value args)"

definition parseOptionImpl :: "string list \<Rightarrow> string \<Rightarrow> bool \<Rightarrow> string option" where
  "parseOptionImpl argv pattern wants_value = parse_backwards pattern wants_value (rev argv)"

definition options_prefix :: string where
  "options_prefix = ''dt-''"

text \<open>\<open>parseOption\<close> with a value, and without one; first without the prefix, then with it.\<close>

definition parseOption :: "string list \<Rightarrow> string \<Rightarrow> string \<Rightarrow> bool \<times> string" where
  "parseOption argv pattern defaultVal =
     (case parseOptionImpl argv (drop (length options_prefix) pattern) True of
        Some v \<Rightarrow> (True, v)
      | None \<Rightarrow>
          (case parseOptionImpl argv pattern True of
             Some v \<Rightarrow> (True, v)
           | None \<Rightarrow> (False, defaultVal)))"

definition parseFlag :: "string list \<Rightarrow> string \<Rightarrow> bool" where
  "parseFlag argv pattern \<longleftrightarrow>
     parseOptionImpl argv (drop (length options_prefix) pattern) False \<noteq> None \<or>
     parseOptionImpl argv pattern False \<noteq> None"

section \<open>Lists of words\<close>

abbreviation backslash :: char where
  "backslash \<equiv> CHR 0x5C"

definition flush :: "string \<Rightarrow> string list" where
  "flush s = (if s = [] then [] else [s])"

fun split_words :: "bool \<Rightarrow> string \<Rightarrow> string \<Rightarrow> string list" where
  "split_words seenBackslash s [] = flush (if seenBackslash then s @ [backslash] else s)"
| "split_words seenBackslash s (c # cs) =
     (if seenBackslash \<and> (c = CHR '','' \<or> c = backslash) then split_words False (s @ [c]) cs
      else
        let s = (if seenBackslash then s @ [backslash] else s)
        in if c = backslash then split_words True s cs
           else if c = CHR '','' then flush s @ split_words False [] cs
           else split_words False (s @ [c]) cs)"

definition parseCommaSepArgs :: "string list \<Rightarrow> string \<Rightarrow> string list \<Rightarrow> string list" where
  "parseCommaSepArgs argv pattern res =
     (case parseOption argv pattern [] of
        (True, filtersString) \<Rightarrow> res @ split_words False [] filtersString
      | (False, _) \<Rightarrow> res)"

section \<open>Numbers and truth values\<close>

definition is_space :: "char \<Rightarrow> bool" where
  "is_space c \<longleftrightarrow> uchar c = 32 \<or> 9 \<le> uchar c \<and> uchar c \<le> 13"

definition strtol :: "string \<Rightarrow> int" where
  "strtol cs =
     (let cs = dropWhile is_space cs;
          neg = (cs \<noteq> [] \<and> hd cs = CHR ''-'');
          cs = (if cs \<noteq> [] \<and> (hd cs = CHR ''-'' \<or> hd cs = CHR ''+'') then tl cs else cs);
          n = digits_value 10 (takeWhile (is_base_digit 10) cs);
          n = (if neg then - n else n)
      in max (- (2 ^ 63)) (min (2 ^ 63 - 1) n))"

definition atoi :: "string \<Rightarrow> int" where
  "atoi cs = sint (word_of_int (strtol cs) :: 32 word)"

datatype optionType = option_bool | option_int

definition positive :: "string list" where
  "positive = [''1'', ''true'', ''on'', ''yes'']"

definition negative :: "string list" where
  "negative = [''0'', ''false'', ''off'', ''no'']"

fun truth_value :: "string \<Rightarrow> (string \<times> string) list \<Rightarrow> int option" where
  "truth_value v [] = None"
| "truth_value v ((pos, neg) # rest) =
     (if stricmp v pos = 0 then Some 1 else if stricmp v neg = 0 then Some 0 else truth_value v rest)"

definition parseIntOption :: "string list \<Rightarrow> string \<Rightarrow> optionType \<Rightarrow> int option" where
  "parseIntOption argv pattern type =
     (case parseOption argv pattern [] of
        (False, _) \<Rightarrow> None
      | (True, parsedValue) \<Rightarrow>
          (case type of
             option_int \<Rightarrow>
               let theInt = atoi parsedValue in if theInt \<noteq> 0 then Some theInt else None
           | option_bool \<Rightarrow> truth_value parsedValue (zip positive negative)))"

section \<open>All options\<close>

text \<open>The three macros of \<open>Context::parseArgs\<close>: the new value of a variable.\<close>

definition bool_option :: "string list \<Rightarrow> bool \<Rightarrow> string \<Rightarrow> string \<Rightarrow> bool \<Rightarrow> bool \<Rightarrow> bool" where
  "bool_option argv wd nm sname dflt old =
     (case parseIntOption argv (options_prefix @ nm @ ''='') option_bool of
        Some intRes \<Rightarrow> intRes \<noteq> 0
      | None \<Rightarrow>
          (case parseIntOption argv (options_prefix @ sname @ ''='') option_bool of
             Some intRes \<Rightarrow> intRes \<noteq> 0
           | None \<Rightarrow>
               if parseFlag argv (options_prefix @ nm) \<or> parseFlag argv (options_prefix @ sname) then True
               else if wd then dflt else old))"

definition int_option :: "string list \<Rightarrow> bool \<Rightarrow> string \<Rightarrow> string \<Rightarrow> int \<Rightarrow> int \<Rightarrow> int" where
  "int_option argv wd nm sname dflt old =
     (case parseIntOption argv (options_prefix @ nm @ ''='') option_int of
        Some intRes \<Rightarrow> intRes
      | None \<Rightarrow>
          (case parseIntOption argv (options_prefix @ sname @ ''='') option_int of
             Some intRes \<Rightarrow> intRes
           | None \<Rightarrow> if wd then dflt else old))"

definition str_option :: "string list \<Rightarrow> bool \<Rightarrow> string \<Rightarrow> string \<Rightarrow> string \<Rightarrow> string \<Rightarrow> string" where
  "str_option argv wd nm sname dflt old =
     (case parseOption argv (options_prefix @ nm @ ''='') dflt of
        (True, strRes) \<Rightarrow> strRes
      | (False, _) \<Rightarrow>
          (case parseOption argv (options_prefix @ sname @ ''='') dflt of
             (True, strRes) \<Rightarrow> strRes
           | (False, strRes) \<Rightarrow> if wd then strRes else old))"

definition filter_options :: "(string \<times> nat) list" where
  "filter_options =
     [(''source-file='', 0),
      (''sf='', 0),
      (''source-file-exclude='', 1),
      (''sfe='', 1),
      (''test-suite='', 2),
      (''ts='', 2),
      (''test-suite-exclude='', 3),
      (''tse='', 3),
      (''test-case='', 4),
      (''tc='', 4),
      (''test-case-exclude='', 5),
      (''tce='', 5),
      (''subcase='', 6),
      (''sc='', 6),
      (''subcase-exclude='', 7),
      (''sce='', 7),
      (''reporters='', 8),
      (''r='', 8)]"

definition parse_filters :: "string list \<Rightarrow> ContextState \<Rightarrow> ContextState" where
  "parse_filters argv p =
     p\<lparr>filters := foldl (\<lambda>fs (nm, i). fs[i := parseCommaSepArgs argv (options_prefix @ nm) (fs ! i)])
         (filters p) filter_options\<rparr>"

definition parse_options :: "string list \<Rightarrow> bool \<Rightarrow> ContextState \<Rightarrow> ContextState" where
  "parse_options argv wd p =
     p\<lparr>o_out := str_option argv wd ''out'' ''o'' '''' (o_out p),
       o_order_by := str_option argv wd ''order-by'' ''ob'' ''file'' (o_order_by p),
       o_rand_seed := word_of_int (int_option argv wd ''rand-seed'' ''rs'' 0 (uint (o_rand_seed p))),
       o_first := word_of_int (int_option argv wd ''first'' ''f'' 0 (uint (o_first p))),
       o_last := word_of_int (int_option argv wd ''last'' ''l'' 4294967295 (uint (o_last p))),
       o_abort_after := int_option argv wd ''abort-after'' ''aa'' 0 (o_abort_after p),
       o_subcase_filter_levels := int_option argv wd ''subcase-filter-levels'' ''scfl'' 2147483647 (o_subcase_filter_levels p),
       o_success := bool_option argv wd ''success'' ''s'' False (o_success p),
       o_case_sensitive := bool_option argv wd ''case-sensitive'' ''cs'' False (o_case_sensitive p),
       o_exit := bool_option argv wd ''exit'' ''e'' False (o_exit p),
       o_duration := bool_option argv wd ''duration'' ''d'' False (o_duration p),
       o_minimal := bool_option argv wd ''minimal'' ''m'' False (o_minimal p),
       o_quiet := bool_option argv wd ''quiet'' ''q'' False (o_quiet p),
       o_no_throw := bool_option argv wd ''no-throw'' ''nt'' False (o_no_throw p),
       o_no_exitcode := bool_option argv wd ''no-exitcode'' ''ne'' False (o_no_exitcode p),
       o_no_run := bool_option argv wd ''no-run'' ''nr'' False (o_no_run p),
       o_no_intro := bool_option argv wd ''no-intro'' ''ni'' False (o_no_intro p),
       o_no_version := bool_option argv wd ''no-version'' ''nv'' False (o_no_version p),
       o_no_colors := bool_option argv wd ''no-colors'' ''nc'' False (o_no_colors p),
       o_force_colors := bool_option argv wd ''force-colors'' ''fc'' False (o_force_colors p),
       o_no_breaks := bool_option argv wd ''no-breaks'' ''nb'' False (o_no_breaks p),
       o_no_skip := bool_option argv wd ''no-skip'' ''ns'' False (o_no_skip p),
       o_gnu_file_line := bool_option argv wd ''gnu-file-line'' ''gfl'' True (o_gnu_file_line p),
       o_no_path_in_filenames := bool_option argv wd ''no-path-filenames'' ''npf'' False (o_no_path_in_filenames p),
       o_no_line_numbers := bool_option argv wd ''no-line-numbers'' ''nln'' False (o_no_line_numbers p),
       o_no_debug_output := bool_option argv wd ''no-debug-output'' ''ndo'' False (o_no_debug_output p),
       o_no_skipped_summary := bool_option argv wd ''no-skipped-summary'' ''nss'' False (o_no_skipped_summary p),
       o_no_time_in_output := bool_option argv wd ''no-time-in-output'' ''ntio'' False (o_no_time_in_output p)\<rparr>"

definition any_flag :: "string list \<Rightarrow> string list \<Rightarrow> bool" where
  "any_flag argv names \<longleftrightarrow> list_ex (\<lambda>nm. parseFlag argv (options_prefix @ nm)) names"

definition clear_queries :: "ContextState \<Rightarrow> ContextState" where
  "clear_queries p =
     p\<lparr>o_help := False, o_version := False, o_count := False, o_list_test_cases := False,
       o_list_test_suites := False, o_list_reporters := False\<rparr>"

definition parse_queries :: "string list \<Rightarrow> bool \<Rightarrow> ContextState \<Rightarrow> ContextState" where
  "parse_queries argv wd p =
     (let p = (if wd then clear_queries p else p);
          p = (if any_flag argv [''help'', ''h'', ''?''] then p\<lparr>o_help := True, o_exit := True\<rparr> else p);
          p = (if any_flag argv [''version'', ''v''] then p\<lparr>o_version := True, o_exit := True\<rparr> else p);
          p = (if any_flag argv [''count'', ''c''] then p\<lparr>o_count := True, o_exit := True\<rparr> else p);
          p = (if any_flag argv [''list-test-cases'', ''ltc'']
               then p\<lparr>o_list_test_cases := True, o_exit := True\<rparr> else p);
          p = (if any_flag argv [''list-test-suites'', ''lts'']
               then p\<lparr>o_list_test_suites := True, o_exit := True\<rparr> else p);
          p = (if any_flag argv [''list-reporters'', ''lr'']
               then p\<lparr>o_list_reporters := True, o_exit := True\<rparr> else p)
      in p)"

definition parseArgs :: "string list \<Rightarrow> bool \<Rightarrow> ContextState \<Rightarrow> ContextState" where
  "parseArgs argv withDefaults p =
     parse_queries argv withDefaults (parse_options argv withDefaults (parse_filters argv p))"

definition applyCommandLine :: "string list \<Rightarrow> ContextState \<Rightarrow> ContextState" where
  "applyCommandLine argv p =
     (let p = parseArgs argv False p
      in if argv \<noteq> [] then p\<lparr>o_binary_name := hd argv\<rparr> else p)"

definition make_Context :: "ContextState \<Rightarrow> string list \<Rightarrow> ContextState" where
  "make_Context fresh argv =
     (let p = parseArgs argv True fresh
      in if argv \<noteq> [] then p\<lparr>o_binary_name := hd argv\<rparr> else p)"

definition clearFilters :: "ContextState \<Rightarrow> ContextState" where
  "clearFilters p = p\<lparr>filters := map (\<lambda>curr. []) (filters p)\<rparr>"

definition setOption :: "string \<Rightarrow> string \<Rightarrow> ContextState \<Rightarrow> ContextState" where
  "setOption opt v p = parseArgs [''-'' @ opt @ ''='' @ v] False p"

definition setOption_bool :: "string \<Rightarrow> bool \<Rightarrow> ContextState \<Rightarrow> ContextState" where
  "setOption_bool opt v p = setOption opt (if v then ''true'' else ''false'') p"

definition setOption_int :: "string \<Rightarrow> int \<Rightarrow> ContextState \<Rightarrow> ContextState" where
  "setOption_int opt v p = setOption opt (show_int v) p"

definition addFilter :: "string \<Rightarrow> string \<Rightarrow> ContextState \<Rightarrow> ContextState" where
  "addFilter flt v p = setOption flt v p"

section \<open>What counts as an option\<close>

lemma strstr_at_first:
  assumes "pat \<noteq> []" "hd pat \<noteq> CHR ''-''"
  shows "strstr_at (replicate n (CHR ''-'') @ pat @ v) pat = Some n"
proof (induction n)
  case 0
  then show ?case using assms(1) by (cases pat) auto
next
  case (Suc n)
  have "\<not> prefix pat (CHR ''-'' # replicate n (CHR ''-'') @ pat @ v)"
    using assms by (cases pat) auto
  then show ?case using Suc by simp
qed

lemma strstr_at_SomeD: "strstr_at xs pat = Some k \<Longrightarrow> \<exists>v. xs = take k xs @ pat @ v \<and> k \<le> length xs"
proof (induction xs arbitrary: k)
  case (Cons x xs)
  then show ?case by (cases "prefix pat (x # xs)") (auto simp: prefix_def)
qed (auto split: if_splits)

lemma dashes: "list_all (\<lambda>c. c = CHR ''-'') cs \<longleftrightarrow> cs = replicate (length cs) (CHR ''-'')"
  by (auto simp: list_all_iff replicate_length_same[symmetric] intro!: replicate_eqI) (metis in_set_replicate)

definition option_arg :: "string \<Rightarrow> string \<Rightarrow> string \<Rightarrow> bool" where
  "option_arg pattern v arg \<longleftrightarrow> (\<exists>n. arg = replicate (Suc n) (CHR ''-'') @ pattern @ v)"

lemma parse_arg_value:
  assumes "pat \<noteq> []" "hd pat \<noteq> CHR ''-''"
  shows "parse_arg pat True arg = Some v \<longleftrightarrow> v \<noteq> [] \<and> option_arg pat v arg"
proof
  assume "parse_arg pat True arg = Some v"
  then obtain k where k: "strstr_at arg pat = Some k" "list_all (\<lambda>c. c = CHR ''-'') (take k arg)"
    "arg \<noteq> []" "hd arg = CHR ''-''" "v = drop (length pat) (drop k arg)" "v \<noteq> []"
    by (auto simp: parse_arg_def Let_def split: option.splits if_splits)
  obtain u where u: "arg = take k arg @ pat @ u" "k \<le> length arg" using strstr_at_SomeD [OF k(1)] by blast
  then have "drop k arg = pat @ u" by (metis append_eq_conv_conj length_take min.absorb2)
  then have "v = u" using k(5) by simp
  moreover have "take k arg = replicate k (CHR ''-'')" using k(2) u(2) by (simp add: dashes min.absorb2)
  moreover have "k \<noteq> 0" using u(1) k(4) assms by (cases k) (auto simp: hd_append)
  ultimately show "v \<noteq> [] \<and> option_arg pat v arg"
    using k(6) u(1) unfolding option_arg_def by (metis not0_implies_Suc)
next
  assume "v \<noteq> [] \<and> option_arg pat v arg"
  then obtain n where "v \<noteq> []" "arg = replicate (Suc n) (CHR ''-'') @ pat @ v"
    by (auto simp: option_arg_def)
  then show "parse_arg pat True arg = Some v"
    using strstr_at_first [OF assms, of "Suc n" v]
    by (simp add: parse_arg_def Let_def list_all_iff del: replicate.simps)
qed

lemma parse_backwards_last:
  "parse_backwards pat w (rev argv) = Some v \<longleftrightarrow>
     (\<exists>as arg bs. argv = as @ arg # bs \<and> parse_arg pat w arg = Some v \<and>
        list_all (\<lambda>b. parse_arg pat w b = None) bs)"
proof (induction argv rule: rev_induct)
  case (snoc x xs)
  show ?case
  proof (cases "parse_arg pat w x")
    case None
    have "(\<exists>as arg bs. xs @ [x] = as @ arg # bs \<and> parse_arg pat w arg = Some v \<and>
          list_all (\<lambda>b. parse_arg pat w b = None) bs) \<longleftrightarrow>
        (\<exists>as arg bs. xs = as @ arg # bs \<and> parse_arg pat w arg = Some v \<and>
          list_all (\<lambda>b. parse_arg pat w b = None) bs)" (is "?l \<longleftrightarrow> ?r")
    proof
      assume ?l
      then obtain as arg bs where h: "xs @ [x] = as @ arg # bs" "parse_arg pat w arg = Some v"
        "list_all (\<lambda>b. parse_arg pat w b = None) bs" by blast
      then have "bs \<noteq> []" using None by (cases bs rule: rev_cases) auto
      then show ?r using h by (cases bs rule: rev_cases) auto
    next
      assume ?r
      then obtain as arg bs where "xs = as @ arg # bs" "parse_arg pat w arg = Some v"
        "list_all (\<lambda>b. parse_arg pat w b = None) bs" by blast
      then show ?l using None by (intro exI [of _ as] exI [of _ arg] exI [of _ "bs @ [x]"]) simp
    qed
    then show ?thesis using snoc None by simp
  next
    case (Some u)
    have "u = v" if "xs @ [x] = as @ arg # bs" "parse_arg pat w arg = Some v"
      "list_all (\<lambda>b. parse_arg pat w b = None) bs" for as arg bs
      using that Some by (cases bs rule: rev_cases) auto
    then show ?thesis using Some by (auto intro: exI [of _ xs] exI [of _ x])
  qed
qed simp

text \<open>C39. An option is found exactly when some argument is dashes, the pattern and a value that is
  not empty; of several such arguments the last one counts. The first occurrence of the pattern in an
  argument, at which the code looks, is always the right one.\<close>

theorem parseOptionImpl_last:
  assumes "pattern \<noteq> []" "hd pattern \<noteq> CHR ''-''"
  shows "parseOptionImpl argv pattern True = Some v \<longleftrightarrow>
    (\<exists>as arg bs. argv = as @ arg # bs \<and> v \<noteq> [] \<and> option_arg pattern v arg \<and>
       (\<forall>b \<in> set bs. \<forall>u. u \<noteq> [] \<longrightarrow> \<not> option_arg pattern u b))"
proof -
  have "parse_arg pattern True b = None \<longleftrightarrow> (\<forall>u. u \<noteq> [] \<longrightarrow> \<not> option_arg pattern u b)" for b
    using parse_arg_value [OF assms, of b] by (cases "parse_arg pattern True b") auto
  then show ?thesis
    by (simp add: parseOptionImpl_def parse_backwards_last parse_arg_value [OF assms] list_all_iff)
qed

theorem parseOptionImpl_last_witness:
  "parseOptionImpl [''prog'', ''--abort-after=3'', ''-abort-after=5'', ''x-abort-after=7''] ''abort-after='' True
     = Some ''5''"
proof -
  let ?argv = "[''prog'', ''--abort-after=3'', ''-abort-after=5'', ''x-abort-after=7'']"
  have "\<not> option_arg ''abort-after='' u ''x-abort-after=7''" for u by (simp add: option_arg_def)
  moreover have "option_arg ''abort-after='' ''5'' ''-abort-after=5''"
    unfolding option_arg_def by (intro exI [of _ 0]) simp
  ultimately have "\<exists>as arg bs. ?argv = as @ arg # bs \<and> ''5'' \<noteq> [] \<and> option_arg ''abort-after='' ''5'' arg \<and>
      (\<forall>b \<in> set bs. \<forall>u. u \<noteq> [] \<longrightarrow> \<not> option_arg ''abort-after='' u b)"
    by (intro exI [of _ "[''prog'', ''--abort-after=3'']"] exI [of _ "''-abort-after=5''"]
        exI [of _ "[''x-abort-after=7'']"]) simp
  then show ?thesis using parseOptionImpl_last [of "''abort-after=''" ?argv "''5''"] by simp
qed

section \<open>Reading back lists of words\<close>

definition escape :: "string \<Rightarrow> string" where
  "escape w = concat (map (\<lambda>c. if c = CHR '','' \<or> c = backslash then [backslash, c] else [c]) w)"

fun join_words :: "string list \<Rightarrow> string" where
  "join_words [] = []"
| "join_words [w] = escape w"
| "join_words (w # ws) = escape w @ CHR '','' # join_words ws"

lemma split_escaped: "split_words False s (escape w @ rest) = split_words False (s @ w) rest"
  by (induction w arbitrary: s) (auto simp: escape_def)

lemma split_join: "[] \<notin> set ws \<Longrightarrow> split_words False [] (join_words ws) = ws"
proof (induction ws rule: join_words.induct)
  case (2 w)
  then show ?case using split_escaped [of "[]" w "[]"] by (simp add: flush_def)
next
  case (3 w v vs)
  then show ?case by (auto simp: split_escaped flush_def)
qed (simp add: flush_def)

section \<open>Setting one option\<close>

text \<open>With one argument that has one dash, looking for an option is comparing prefixes.\<close>

lemma option_arg_single:
  assumes "b \<noteq> CHR ''-''" "pat \<noteq> []" "hd pat \<noteq> CHR ''-''"
  shows "option_arg pat v (CHR ''-'' # b # bs) \<longleftrightarrow> b # bs = pat @ v"
proof -
  have "b # bs = replicate n (CHR ''-'') @ pat @ v \<longleftrightarrow> n = 0 \<and> b # bs = pat @ v" for n
    using assms by (cases n) auto
  then show ?thesis by (auto simp: option_arg_def)
qed

lemma parse_single:
  assumes "b \<noteq> CHR ''-''" "pat \<noteq> []" "hd pat \<noteq> CHR ''-''"
  shows "parseOptionImpl [CHR ''-'' # b # bs] pat True =
    (if prefix pat (b # bs) \<and> pat \<noteq> b # bs then Some (drop (length pat) (b # bs)) else None)"
proof -
  have "parse_arg pat True (CHR ''-'' # b # bs) = Some v \<longleftrightarrow> v \<noteq> [] \<and> b # bs = pat @ v" for v
    by (simp only: parse_arg_value [OF assms(2,3)] option_arg_single [OF assms])
  note found = this
  show ?thesis
  proof (cases "prefix pat (b # bs) \<and> pat \<noteq> b # bs")
    case True
    then obtain v where "b # bs = pat @ v" "v \<noteq> []" by (auto simp: prefix_def)
    moreover from this have "parse_arg pat True (CHR ''-'' # b # bs) = Some v"
      using found [of v] by blast
    ultimately show ?thesis using True by (simp add: parseOptionImpl_def)
  next
    case False
    have "parse_arg pat True (CHR ''-'' # b # bs) = None"
    proof (rule ccontr)
      assume "parse_arg pat True (CHR ''-'' # b # bs) \<noteq> None"
      then obtain v where "parse_arg pat True (CHR ''-'' # b # bs) = Some v" by blast
      with found [of v] have "v \<noteq> []" "b # bs = pat @ v" by blast+
      with False show False by (metis append_self_conv prefixI)
    qed
    with False show ?thesis by (auto simp: parseOptionImpl_def)
  qed
qed

lemma parse_single_flag:
  assumes "b \<noteq> CHR ''-''" "pat \<noteq> []" "hd pat \<noteq> CHR ''-''"
  shows "parseOptionImpl [CHR ''-'' # b # bs] pat False = (if pat = b # bs then Some [] else None)"
proof (cases "pat = b # bs")
  case True
  then show ?thesis using assms by (simp add: parseOptionImpl_def parse_arg_def)
next
  case False
  have "parse_arg pat False (CHR ''-'' # b # bs) = None"
  proof (rule ccontr)
    assume "parse_arg pat False (CHR ''-'' # b # bs) \<noteq> None"
    then obtain k where k: "strstr_at (CHR ''-'' # b # bs) pat = Some k"
      "length (drop k (CHR ''-'' # b # bs)) = length pat"
      "list_all (\<lambda>c. c = CHR ''-'') (take k (CHR ''-'' # b # bs))"
      by (auto simp: parse_arg_def Let_def split: option.splits if_splits)
    obtain v where v: "CHR ''-'' # b # bs = take k (CHR ''-'' # b # bs) @ pat @ v"
      using strstr_at_SomeD [OF k(1)] by blast
    consider "k = 0" | "k = 1" | j where "k = Suc (Suc j)" by (metis One_nat_def not0_implies_Suc)
    then show False
    proof cases
      case 1
      then show ?thesis using v assms by (cases pat) auto
    next
      case 2
      then have "b # bs = pat @ v" "length (b # bs) = length pat" using v k(2) by auto
      then show ?thesis using False by simp
    next
      case 3
      then show ?thesis using k(3) assms(1) by simp
    qed
  qed
  then show ?thesis using False by (simp add: parseOptionImpl_def)
qed

lemmas single_argument = parse_single parse_single_flag parseOption_def parseFlag_def
  options_prefix_def parseIntOption_def any_flag_def

text \<open>Adding test case filters by a comma separated list adds exactly these words, whatever
  characters they contain, after the ones there are, and changes nothing else of the context.\<close>

theorem addFilter_test_case:
  assumes "ws \<noteq> []" "[] \<notin> set ws" "length (filters p) = 9"
  shows "addFilter ''test-case'' (join_words ws) p = p\<lparr>filters := (filters p)[4 := filters p ! 4 @ ws]\<rparr>"
proof -
  have "join_words ws \<noteq> []"
    using split_join [OF assms(2)] assms(1) by (auto simp: flush_def)
  then show ?thesis
    by (simp add: addFilter_def setOption_def parseArgs_def parse_filters_def filter_options_def
        parse_options_def parse_queries_def bool_option_def int_option_def str_option_def
        single_argument parseCommaSepArgs_def split_join [OF assms(2)] Let_def)
qed

theorem addFilter_test_case_witness:
  "filters (addFilter ''test-case'' (join_words [''a,b'', ''*'']) blank_state) ! 4 = [''a,b'', ''*'']"
  using addFilter_test_case [of "[''a,b'', ''*'']" blank_state] by (simp add: blank_state_def)

lemma show_digits_digits:
  assumes "0 \<le> n" "c \<in> set (show_digits n)"
  shows "is_base_digit 10 c \<and> \<not> is_space c \<and> c \<noteq> CHR ''-'' \<and> c \<noteq> CHR ''+''"
proof -
  obtain d where d: "0 \<le> d" "d < 10" "c = digit_char d" using show_digits_chars [OF assms] by auto
  then have "uchar c = 48 + d" using ord_digit_char [of d] by (simp add: ord_def uchar_def)
  then show ?thesis using d by (auto simp: is_space_def uchar_def)
qed

lemma strtol_show_digits:
  assumes "0 \<le> n"
  shows "digits_value 10 (takeWhile (is_base_digit 10) (show_digits n)) = n"
    "dropWhile is_space (show_digits n) = show_digits n"
    "hd (show_digits n) \<noteq> CHR ''-''" "hd (show_digits n) \<noteq> CHR ''+''"
proof -
  have hd: "hd (show_digits n) \<in> set (show_digits n)" by simp
  have "takeWhile (is_base_digit 10) (show_digits n) = show_digits n"
    using show_digits_digits [OF assms] by (subst takeWhile_eq_all_conv) simp
  then show "digits_value 10 (takeWhile (is_base_digit 10) (show_digits n)) = n"
    by (rule ssubst) (rule digits_value_show_digits [OF assms])
  show "dropWhile is_space (show_digits n) = show_digits n"
    using show_digits_digits [OF assms hd] by (simp add: dropWhile_eq_self_iff)
  show "hd (show_digits n) \<noteq> CHR ''-''" "hd (show_digits n) \<noteq> CHR ''+''"
    using show_digits_digits [OF assms hd] by simp_all
qed

lemma atoi_show_int: "fits_int32 n \<Longrightarrow> atoi (show_int n) = n"
proof -
  assume fits: "fits_int32 n"
  have "strtol (show_int n) = n"
  proof (cases "n < 0")
    case True
    then show ?thesis
      using strtol_show_digits [of "- n"] fits
      by (simp add: strtol_def show_int_def is_space_def uchar_def fits_int32_def)
  next
    case False
    then show ?thesis
      using strtol_show_digits [of n] fits by (simp add: strtol_def show_int_def fits_int32_def Let_def)
  qed
  then show ?thesis using sint_word_of_int_fits [OF fits] by (simp add: atoi_def)
qed

lemma show_int_not_Nil [simp]: "show_int n \<noteq> []" "[] \<noteq> show_int n"
  using show_digits_nonempty [of n, symmetric] by (auto simp: show_int_def)

text \<open>Setting the number of failed assertions after which a run stops sets this one option to the
  given number, except that it cannot be set to zero: zero is taken for a number that does not parse,
  and leaves everything as it was.\<close>

theorem setOption_abort_after:
  assumes "fits_int32 n"
  shows "setOption_int ''abort-after'' n p = (if n = 0 then p else p\<lparr>o_abort_after := n\<rparr>)"
proof -
  have zero: "atoi (show_int 0) = 0" by (rule atoi_show_int) (simp add: fits_int32_def)
  show ?thesis
    by (simp add: setOption_int_def setOption_def parseArgs_def parse_filters_def filter_options_def
        parse_options_def parse_queries_def bool_option_def int_option_def str_option_def
        single_argument parseCommaSepArgs_def atoi_show_int [OF assms] zero Let_def)
qed

theorem setOption_abort_after_witness:
  "o_abort_after (setOption_int ''abort-after'' 3 blank_state) = 3 \<and>
   o_abort_after (setOption_int ''abort-after'' 0 (blank_state\<lparr>o_abort_after := 3\<rparr>)) = 3"
  using setOption_abort_after [of 3 blank_state]
    setOption_abort_after [of 0 "blank_state\<lparr>o_abort_after := 3\<rparr>"]
  by (simp add: fits_int32_def)

end
