(* ===== verification/Doctest_Console.thy ===== *)
theory Doctest_Console
  imports Doctest_Reporters Doctest_Options
begin

text \<open>
  The console reporter of the vendored test framework (\<open>external/doctest.h\<close>,
  \<open>ConsoleReporter\<close>): the text it writes for each report. It prints the head of a test case
  only when there is something to say about it, and finds the subcases to print in its own stack.
  It fulfils the contract of a reporter, tells whether the run has failed, and shows the subcases
  in which the test is.
\<close>

unbundle bit_operations_syntax

section \<open>State\<close>

text \<open>The output of floating-point numbers with six digits behind the point is a parameter.\<close>

record console_env = report_env +
  d_fixed :: "64 word \<Rightarrow> string"

text \<open>The pointer to the test case is not initialized; here it is null then.\<close>

record console_state =
  hasLoggedCurrentTestStart :: bool
  subcasesStack :: "SubcaseSignature list"
  currentSubcaseLevel :: nat
  con_tc :: "TestCaseData option"

definition new_console :: console_state where
  "new_console = \<lparr>hasLoggedCurrentTestStart = False, subcasesStack = [], currentSubcaseLevel = 0, con_tc = None\<rparr>"

abbreviation env_color :: "console_env \<Rightarrow> Color \<Rightarrow> string" where
  "env_color env \<equiv> color (report_env.truncate env)"

section \<open>Helpers\<close>

definition doctest_tag :: "console_env \<Rightarrow> string" where
  "doctest_tag env = env_color env Cyan @ ''[doctest] '' @ env_color env NoColor"

definition separator :: "console_env \<Rightarrow> string" where
  "separator env = env_color env Yellow @ replicate 79 (CHR ''='') @ endl"

definition getSuccessOrFailString :: "bool \<Rightarrow> assertType \<Rightarrow> string \<Rightarrow> string" where
  "getSuccessOrFailString success at success_str = (if success then success_str else failureString at)"

definition getSuccessOrFailColor :: "bool \<Rightarrow> assertType \<Rightarrow> Color" where
  "getSuccessOrFailColor success at =
     (if success then BrightGreen else if at AND is_warn \<noteq> 0 then Yellow else Red)"

definition successOrFail :: "console_env \<Rightarrow> bool \<Rightarrow> assertType \<Rightarrow> string" where
  "successOrFail env success at =
     env_color env (getSuccessOrFailColor success at) @ getSuccessOrFailString success at ''SUCCESS'' @ '': ''"

definition con_log_contexts :: "console_env \<Rightarrow> string list \<Rightarrow> string" where
  "con_log_contexts env contexts =
     (if contexts = [] then []
      else env_color env NoColor @ ''  logged: '' @ hd contexts @ endl @
           concat (map (\<lambda>c. replicate 10 (CHR '' '') @ c @ endl) (tl contexts))) @ endl"

definition file_line_to_stream :: "console_env \<Rightarrow> string \<Rightarrow> int \<Rightarrow> string \<Rightarrow> string" where
  "file_line_to_stream env file ln tail =
     env_color env LightGrey @ path_of (report_env.truncate env) file @
     (if o_gnu_file_line (opt env) then '':'' else ''('') @
     show_int (if o_no_line_numbers (opt env) then 0 else ln) @
     (if o_gnu_file_line (opt env) then '':'' else ''):'') @ tail"

definition subcase_names :: "string list \<Rightarrow> string" where
  "subcase_names names = concat (map (\<lambda>n. ''  '' @ n @ endl) (filter (\<lambda>n. n \<noteq> []) names))"

definition names_of :: "SubcaseSignature list \<Rightarrow> string list" where
  "names_of sigs = map (\<lambda>s. c_string (m_name s)) sigs"

text \<open>The subcases that are shown as the current ones; \<open>None\<close>: the stack is left.\<close>

definition shown_subcases :: "console_state \<Rightarrow> string list option" where
  "shown_subcases st =
     (if currentSubcaseLevel st \<le> length (subcasesStack st)
      then Some (names_of (take (currentSubcaseLevel st) (subcasesStack st))) else None)"

text \<open>The head of a test case; \<open>None\<close>: a null pointer is followed, or the stack is left.\<close>

definition test_head :: "console_env \<Rightarrow> TestCaseData \<Rightarrow> console_state \<Rightarrow> string option" where
  "test_head env tc st =
     do { name \<leftarrow> tc_name tc;
          shown \<leftarrow> shown_subcases st;
          Some (separator env @ file_line_to_stream env (c_string (tc_file tc)) (sint (tc_line tc)) endl @
            (case tc_description tc of None \<Rightarrow> []
             | Some d \<Rightarrow> env_color env Yellow @ ''DESCRIPTION: '' @ env_color env NoColor @ d @ endl) @
            (case tc_test_suite tc of None \<Rightarrow> []
             | Some s \<Rightarrow> if s = [] then []
                 else env_color env Yellow @ ''TEST SUITE: '' @ env_color env NoColor @ s @ endl) @
            (if take 11 name \<noteq> ''  Scenario:'' then env_color env Yellow @ ''TEST CASE:  '' else []) @
            env_color env NoColor @ name @ endl @
            subcase_names shown @
            (if currentSubcaseLevel st \<noteq> length (subcasesStack st) then
               env_color env Yellow @ endl @ ''DEEPEST SUBCASE STACK REACHED (DIFFERENT FROM THE CURRENT ONE):'' @
               endl @ env_color env NoColor @ subcase_names (names_of (subcasesStack st))
             else []) @ endl) }"

definition logTestStart :: "console_env \<Rightarrow> console_state \<Rightarrow> (string \<times> console_state) option" where
  "logTestStart env st =
     (if hasLoggedCurrentTestStart st then Some ([], st)
      else do { tc \<leftarrow> con_tc st; s \<leftarrow> test_head env tc st; Some (s, st\<lparr>hasLoggedCurrentTestStart := True\<rparr>) })"

section \<open>Version, help and queries\<close>

definition printVersion :: "console_env \<Rightarrow> string" where
  "printVersion env =
     (if \<not> o_no_version (opt env)
      then doctest_tag env @ ''doctest version is '' @ quote @ version_str @ quote @ endl else [])"

definition printIntro :: "console_env \<Rightarrow> string" where
  "printIntro env =
     (if \<not> o_no_intro (opt env)
      then printVersion env @ doctest_tag env @ ''run with '' @ quote @ ''--help'' @ quote @ '' for options'' @ endl
      else [])"

definition query_help :: "string list" where
  "query_help =
     ['' -?,   --help, -h                      prints this message'',
      '' -v,   --version                       prints the version'',
      '' -c,   --count                         prints the number of matching tests'',
      '' -ltc, --list-test-cases               lists all matching tests by name'',
      '' -lts, --list-test-suites              lists all matching test suites'',
      '' -lr,  --list-reporters                lists all registered reporters'',
      []]"

definition filter_help :: "string list" where
  "filter_help =
     ['' -tc,  --test-case=<filters>           filters     tests by their name'',
      '' -tce, --test-case-exclude=<filters>   filters OUT tests by their name'',
      '' -sf,  --source-file=<filters>         filters     tests by their file'',
      '' -sfe, --source-file-exclude=<filters> filters OUT tests by their file'',
      '' -ts,  --test-suite=<filters>          filters     tests by their test suite'',
      '' -tse, --test-suite-exclude=<filters>  filters OUT tests by their test suite'',
      '' -sc,  --subcase=<filters>             filters     subcases by their name'',
      '' -sce, --subcase-exclude=<filters>     filters OUT subcases by their name'',
      '' -r,   --reporters=<filters>           reporters to use (console is default)'',
      '' -o,   --out=<string>                  output filename'',
      '' -ob,  --order-by=<string>             how the tests should be ordered'',
      ''                                       <string> - [file/suite/name/rand/none]'',
      '' -rs,  --rand-seed=<int>               seed for random ordering'',
      '' -f,   --first=<int>                   the first test passing the filters to'',
      ''                                       execute - for range-based execution'',
      '' -l,   --last=<int>                    the last test passing the filters to'',
      ''                                       execute - for range-based execution'',
      '' -aa,  --abort-after=<int>             stop after <int> failed assertions'',
      '' -scfl,--subcase-filter-levels=<int>   apply filters for the first <int> levels'']"

definition bool_help :: "string list" where
  "bool_help =
     ['' -s,   --success=<bool>                include successful assertions in output'',
      '' -cs,  --case-sensitive=<bool>         filters being treated as case sensitive'',
      '' -e,   --exit=<bool>                   exits after the tests finish'',
      '' -d,   --duration=<bool>               prints the time duration of each test'',
      '' -m,   --minimal=<bool>                minimal console output (only failures)'',
      '' -q,   --quiet=<bool>                  no console output'',
      '' -nt,  --no-throw=<bool>               skips exceptions-related assert checks'',
      '' -ne,  --no-exitcode=<bool>            returns (or exits) always with success'',
      '' -nr,  --no-run=<bool>                 skips all runtime doctest operations'',
      '' -ni,  --no-intro=<bool>               omit the framework intro in the output'',
      '' -nv,  --no-version=<bool>             omit the framework version in the output'',
      '' -nc,  --no-colors=<bool>              disables colors in output'',
      '' -fc,  --force-colors=<bool>           use colors even when not in a tty'',
      '' -nb,  --no-breaks=<bool>              disables breakpoints in debuggers'',
      '' -ns,  --no-skip=<bool>                don't skip test cases marked as skip'',
      '' -gfl, --gnu-file-line=<bool>          :n: vs (n): for line numbers in output'',
      '' -npf, --no-path-filenames=<bool>      only filenames and no paths in output'',
      '' -nln, --no-line-numbers=<bool>        0 instead of real line numbers in output'']"

definition help_lines :: "string list \<Rightarrow> string" where
  "help_lines ls = concat (map (\<lambda>l. l @ endl) ls)"

definition help_gap :: "console_env \<Rightarrow> string" where
  "help_gap env = env_color env Cyan @ ''[doctest]'' @ endl @ env_color env NoColor"

definition help_head :: "console_env \<Rightarrow> string" where
  "help_head env = env_color env Cyan @ endl @ ''[doctest] '' @ env_color env NoColor"

definition printHelp :: "console_env \<Rightarrow> string" where
  "printHelp env =
     printVersion env @
     help_gap env @
     doctest_tag env @ ''boolean values: '' @ quote @ ''1/on/yes/true'' @ quote @ '' or '' @ quote @ ''0/off/no/false'' @ quote @ endl @
     doctest_tag env @ ''filter  values: '' @ quote @ ''str1,str2,str3'' @ quote @ '' (comma separated strings)'' @ endl @
     help_gap env @
     doctest_tag env @ ''filters use wildcards for matching strings'' @ endl @
     doctest_tag env @ ''something passes a filter if any of the strings in a filter matches'' @ endl @
     help_gap env @
     doctest_tag env @ ''ALL FLAGS, OPTIONS AND FILTERS ALSO AVAILABLE WITH A '' @ quote @ options_prefix @ quote @ '' PREFIX!!!'' @ endl @
     help_gap env @
     doctest_tag env @ ''Query flags - the program quits after them. Available:'' @ endl @ endl @
     help_lines query_help @
     doctest_tag env @ ''The available <int>/<string> options/filters are:'' @ endl @ endl @
     help_lines filter_help @
     help_head env @ ''Bool options - can be used like flags and true is assumed. Available:'' @ endl @ endl @
     help_lines bool_help @
     help_head env @ ''for more information visit the project documentation'' @ endl @ endl"

text \<open>A number right-aligned in a width.\<close>

definition setw :: "nat \<Rightarrow> string \<Rightarrow> string" where
  "setw n s = replicate (n - length s) (CHR '' '') @ s"

definition printRegisteredReporters :: "console_env \<Rightarrow> string" where
  "printRegisteredReporters env =
     (let printReporters = (\<lambda>rs type.
            if rs = [] then []
            else doctest_tag env @ ''listing all registered '' @ type @ endl @
                 concat (map (\<lambda>(priority, name). ''priority: '' @ setw 5 (show_int priority) @ '' name: '' @ c_string name @ endl) rs))
      in printVersion env @ printReporters (listeners env) ''listeners'' @ printReporters (reporters env) ''reporters'')"

text \<open>The names of the data, each on a line of its own.\<close>

definition list_names :: "console_env \<Rightarrow> string option list \<Rightarrow> string option" where
  "list_names env names =
     (if None \<in> set names then None
      else Some (concat (map (\<lambda>n. env_color env NoColor @ the n @ endl) names)))"

definition con_report_query :: "console_env \<Rightarrow> TestCaseData list \<Rightarrow> TestRunStats option \<Rightarrow> string option" where
  "con_report_query env data run_stats =
     (let st = (case run_stats of Some st \<Rightarrow> st | None \<Rightarrow> TestRunStats.truncate (resetRunData (opt env)));
          passing = doctest_tag env @ ''unskipped test cases passing the current filters: '' @
            show_unsigned (numTestCasesPassingFilters st) @ endl
      in if o_version (opt env) then Some (printVersion env)
         else if o_help (opt env) then Some (printHelp env)
         else if o_list_reporters (opt env) then Some (printRegisteredReporters env)
         else if o_count (opt env) \<or> o_list_test_cases (opt env) then
           do { names \<leftarrow> list_names env (map tc_name data);
                Some ((if o_list_test_cases (opt env)
                       then doctest_tag env @ ''listing all test case names'' @ endl @ separator env else []) @
                      names @ separator env @ passing) }
         else if o_list_test_suites (opt env) then
           do { names \<leftarrow> list_names env (map tc_test_suite data);
                Some (doctest_tag env @ ''listing all test suites'' @ endl @ separator env @ names @ separator env @
                      passing @ doctest_tag env @
                      ''test suites with unskipped test cases passing the current filters: '' @
                      show_unsigned (numTestSuitesPassingFilters st) @ endl) }
         else Some [])"

section \<open>Results\<close>

text \<open>The least integer not below the logarithm of the successor: the number of digits, but none of zero.\<close>

definition log_width :: "32 word \<Rightarrow> nat" where
  "log_width u = (if u = 0 then 0 else length (show_unsigned u))"

definition con_test_run_end :: "console_env \<Rightarrow> TestRunStats \<Rightarrow> string" where
  "con_test_run_end env p =
     (if o_minimal (opt env) \<and> numTestCasesFailed p = 0 then []
      else
        let passing = numTestCasesPassingFilters p; failed = numTestCasesFailed p;
            totwidth = log_width (max passing (word_of_int (numAsserts p)));
            passwidth = log_width (max (passing - failed) (word_of_int (numAsserts p - numAssertsFailed p)));
            failwidth = log_width (max failed (word_of_int (numAssertsFailed p)));
            anythingFailed = (failed > 0 \<or> numAssertsFailed p > 0);
            numSkipped = sint (numTestCases p - passing);
            none = env_color env NoColor
        in separator env @ doctest_tag env @ ''test cases: '' @ setw totwidth (show_unsigned passing) @ '' | '' @
           (if passing = 0 \<or> anythingFailed then none else env_color env Green) @
           setw passwidth (show_unsigned (passing - failed)) @ '' passed'' @ none @ '' | '' @
           (if failed > 0 then env_color env Red else none) @
           setw failwidth (show_unsigned failed) @ '' failed'' @ none @ '' |'' @
           (if \<not> o_no_skipped_summary (opt env)
            then '' '' @ (if numSkipped = 0 then none else env_color env Yellow) @ show_int numSkipped @ '' skipped'' @ none
            else []) @ endl @
           doctest_tag env @ ''assertions: '' @ setw totwidth (show_int (numAsserts p)) @ '' | '' @
           (if numAsserts p = 0 \<or> anythingFailed then none else env_color env Green) @
           setw passwidth (show_int (numAsserts p - numAssertsFailed p)) @ '' passed'' @ none @ '' | '' @
           (if numAssertsFailed p > 0 then env_color env Red else none) @
           setw failwidth (show_int (numAssertsFailed p)) @ '' failed'' @ none @ '' |'' @ endl @
           doctest_tag env @ ''Status: '' @ (if failed > 0 then env_color env Red else env_color env Green) @
           (if failed > 0 then ''FAILURE!'' else ''SUCCESS!'') @ none @ endl)"

text \<open>The remarks on the flags of a test case that has ended.\<close>

definition verdict_text :: "console_env \<Rightarrow> TestCaseData \<Rightarrow> 32 word \<Rightarrow> string" where
  "verdict_text env tc flags =
     (let times = '' '' @ show_int (tc_expected_failures tc) @ '' times ''
      in (if has_flag Timeout flags
          then env_color env Red @ ''Test case exceeded time limit of '' @ d_fixed env (tc_timeout tc) @ ''!'' @ endl else []) @
         (if has_flag ShouldHaveFailedButDidnt flags then
            env_color env Red @ ''Should have failed but didn't! Marking it as failed!'' @ endl
          else if has_flag ShouldHaveFailedAndDid flags then
            env_color env Yellow @ ''Failed as expected so marking it as not failed'' @ endl
          else if has_flag CouldHaveFailedAndDid flags then
            env_color env Yellow @ ''Allowed to fail so marking it as not failed'' @ endl
          else if has_flag DidntFailExactlyNumTimes flags then
            env_color env Red @ ''Didn't fail exactly'' @ times @ ''so marking it as failed!'' @ endl
          else if has_flag FailedExactlyNumTimes flags then
            env_color env Yellow @ ''Failed exactly'' @ times @ ''as expected so marking it as not failed!'' @ endl
          else []) @
         (if has_flag TooManyFailedAsserts flags
          then env_color env Red @ ''Aborting - too many failed asserts!'' @ endl else []))"

definition con_test_case_end ::
    "console_env \<Rightarrow> CurrentTestCaseStats \<Rightarrow> console_state \<Rightarrow> (string \<times> console_state) option" where
  "con_test_case_end env st con =
     do { tc \<leftarrow> con_tc con;
          if tc_no_output tc then Some ([], con)
          else
            do { (s, con) \<leftarrow>
                   (if o_duration (opt env) \<or> failure_flags st \<noteq> 0 \<and> failure_flags st \<noteq> reason_flag AssertFailure
                    then logTestStart env con else Some ([], con));
                 d \<leftarrow> (if o_duration (opt env) then
                        do { name \<leftarrow> tc_name tc;
                             Some (env_color env NoColor @ d_fixed env (seconds env st) @ '' s: '' @ name @ endl) }
                      else Some []);
                 Some (s @ d @ verdict_text env tc (failure_flags st) @ env_color env NoColor, con) } }"

definition con_test_case_exception ::
    "console_env \<Rightarrow> string \<Rightarrow> bool \<Rightarrow> string list \<Rightarrow> console_state \<Rightarrow> (string \<times> console_state) option" where
  "con_test_case_exception env error_string is_crash stringified con =
     do { tc \<leftarrow> con_tc con;
          if tc_no_output tc then Some ([], con)
          else
            do { (s, con) \<leftarrow> logTestStart env con;
                 Some (s @ file_line_to_stream env (c_string (tc_file tc)) (sint (tc_line tc)) '' '' @
                   successOrFail env False (if is_crash then is_require else is_check) @
                   env_color env Red @ (if is_crash then ''test case CRASHED: '' else ''test case THREW exception: '') @
                   env_color env Cyan @ c_string error_string @ endl @
                   (if stringified = [] then []
                    else env_color env NoColor @ ''  logged: '' @ c_string (last stringified) @ endl @
                         concat (map (\<lambda>c. replicate 10 (CHR '' '') @ c_string c @ endl) (tl (rev stringified)))) @
                   endl @ env_color env NoColor, con) } }"

definition con_log_assert ::
    "console_env \<Rightarrow> AssertData \<Rightarrow> string list \<Rightarrow> console_state \<Rightarrow> (string \<times> console_state) option" where
  "con_log_assert env rb contexts con =
     (if \<not> ad_failed rb \<and> \<not> o_success (opt env) then Some ([], con)
      else
        do { tc \<leftarrow> con_tc con;
             if tc_no_output tc then Some ([], con)
             else
               do { (s, con) \<leftarrow> logTestStart env con;
                    full \<leftarrow> fulltext_log_assert_to_stream (report_env.truncate env) rb;
                    Some (s @ file_line_to_stream env (ad_file rb) (ad_line rb) '' '' @
                      successOrFail env (\<not> ad_failed rb) (ad_at rb) @ full @ con_log_contexts env contexts, con) } })"

definition con_log_message ::
    "console_env \<Rightarrow> MessageData \<Rightarrow> string list \<Rightarrow> console_state \<Rightarrow> (string \<times> console_state) option" where
  "con_log_message env mb contexts con =
     do { tc \<leftarrow> con_tc con;
          if tc_no_output tc then Some ([], con)
          else
            do { (s, con) \<leftarrow> logTestStart env con;
                 Some (s @ file_line_to_stream env (md_file mb) (md_line mb) '' '' @
                   env_color env (getSuccessOrFailColor False (md_severity mb)) @
                   getSuccessOrFailString (md_severity mb AND is_warn \<noteq> 0) (md_severity mb) ''MESSAGE'' @ '': '' @
                   env_color env NoColor @ c_string (md_string mb) @ endl @ con_log_contexts env contexts, con) } }"

text \<open>The level is unsigned, and wraps around below zero.\<close>

definition level_down :: "nat \<Rightarrow> nat" where
  "level_down n = (if n = 0 then 2 ^ 64 - 1 else n - 1)"

fun con_event :: "console_env \<Rightarrow> reporter_event \<Rightarrow> console_state \<Rightarrow> (string \<times> console_state) option" where
  "con_event env (Report_query data run_stats) con = map_option (\<lambda>s. (s, con)) (con_report_query env data run_stats)"
| "con_event env Test_run_start con = Some (if \<not> o_minimal (opt env) then printIntro env else [], con)"
| "con_event env (Test_run_end p) con = Some (con_test_run_end env p, con)"
| "con_event env (Test_case_start tc) con =
     Some ([], con\<lparr>hasLoggedCurrentTestStart := False, con_tc := Some tc, subcasesStack := [], currentSubcaseLevel := 0\<rparr>)"
| "con_event env (Test_case_reenter tc) con = Some ([], con\<lparr>subcasesStack := []\<rparr>)"
| "con_event env (Test_case_end st) con = con_test_case_end env st con"
| "con_event env (Test_case_exception error_string is_crash stringified) con =
     con_test_case_exception env error_string is_crash stringified con"
| "con_event env (Subcase_start s) con =
     Some ([], con\<lparr>subcasesStack := subcasesStack con @ [s], currentSubcaseLevel := currentSubcaseLevel con + 1,
                   hasLoggedCurrentTestStart := False\<rparr>)"
| "con_event env Subcase_end con =
     Some ([], con\<lparr>currentSubcaseLevel := level_down (currentSubcaseLevel con), hasLoggedCurrentTestStart := False\<rparr>)"
| "con_event env (Log_assert rb contexts) con = con_log_assert env rb contexts con"
| "con_event env (Log_message mb contexts) con = con_log_message env mb contexts con"
| "con_event env (Test_case_skipped tc) con = Some ([], con)"

definition console_report :: "console_env \<Rightarrow> reporter_event list \<Rightarrow> string option" where
  "console_report env es = map_option fst (calls_for (con_event env) es new_console)"


section \<open>It can write every report\<close>

definition con_inv :: "stage \<Rightarrow> console_state \<Rightarrow> bool" where
  "con_inv st con \<longleftrightarrow>
     (case st of
        Inside n \<Rightarrow> (\<exists>tc. con_tc con = Some tc \<and> named tc) \<and>
          currentSubcaseLevel con = n \<and> n \<le> length (subcasesStack con)
      | _ \<Rightarrow> True)"

text \<open>The same test case and subcases; only the head may have been written.\<close>

definition same_place :: "console_state \<Rightarrow> console_state \<Rightarrow> bool" where
  "same_place con con' \<longleftrightarrow> con_tc con' = con_tc con \<and> currentSubcaseLevel con' = currentSubcaseLevel con \<and>
     subcasesStack con' = subcasesStack con"

definition writes :: "(string \<times> console_state) option \<Rightarrow> console_state \<Rightarrow> bool" where
  "writes r con \<longleftrightarrow> (\<exists>s con'. r = Some (s, con') \<and> same_place con con')"

lemma writes_nothing: "writes (Some (s, con)) con"
  by (simp add: writes_def same_place_def)

lemma head_written: "con_inv (Inside n) con \<Longrightarrow> writes (logTestStart env con) con"
  by (auto simp: con_inv_def logTestStart_def test_head_def shown_subcases_def named_def writes_def same_place_def)

lemma inside_tc:
  assumes "con_inv (Inside n) con"
  obtains tc name where "con_tc con = Some tc" "tc_name tc = Some name"
  using assms by (auto simp: con_inv_def named_def)

lemma writes_bind:
  "writes r con \<Longrightarrow> (\<And>s con'. \<exists>t. f (s, con') = Some (t, con')) \<Longrightarrow> writes (Option.bind r f) con"
  by (fastforce simp: writes_def)

lemmas handler_defs = con_test_case_end_def con_test_case_exception_def con_log_assert_def con_log_message_def

lemma handlers_write:
  assumes "con_inv (Inside n) con"
  shows "writes (con_test_case_end env st con) con"
    and "writes (con_test_case_exception env error_string is_crash stringified con) con"
    and "assertString (ad_at rb) \<noteq> None \<Longrightarrow> writes (con_log_assert env rb contexts con) con"
    and "writes (con_log_message env mb contexts con) con"
proof -
  obtain tc name where tc: "con_tc con = Some tc" "tc_name tc = Some name" using assms by (rule inside_tc)
  note head = head_written [OF assms, of env] writes_nothing
  show "writes (con_test_case_end env st con) con"
    using tc head by (auto simp: handler_defs intro!: writes_bind)
  show "writes (con_test_case_exception env error_string is_crash stringified con) con"
    using tc head by (auto simp: handler_defs intro!: writes_bind)
  show "writes (con_log_message env mb contexts con) con"
    using tc head by (auto simp: handler_defs intro!: writes_bind)
  assume "assertString (ad_at rb) \<noteq> None"
  then obtain txt' where "fulltext_log_assert_to_stream (report_env.truncate env) rb = Some txt'"
    using fulltext_some by blast
  then show "writes (con_log_assert env rb contexts con) con"
    using tc head by (auto simp: handler_defs intro!: writes_bind)
qed

lemma query_written:
  assumes "list_all named data"
  shows "\<exists>s. con_report_query env data run_stats = Some s"
proof -
  have "None \<notin> set (map tc_name data)" "None \<notin> set (map tc_test_suite data)"
    using assms by (auto simp: list_all_iff named_def)
  then show ?thesis by (simp add: con_report_query_def list_names_def Let_def)
qed

lemma inv_same_place: "con_inv (Inside n) con \<Longrightarrow> same_place con con' \<Longrightarrow> con_inv (Inside n) con'"
  by (simp add: con_inv_def same_place_def)

lemma con_event_ok:
  assumes "con_inv st con" "event_step e st = Some st'" "event_ok e"
  shows "\<exists>s con'. con_event env e con = Some (s, con') \<and> con_inv st' con'"
proof (cases st)
  case Before
  then show ?thesis
    using assms(2,3) query_written by (cases e) (fastforce simp: con_inv_def)+
next
  case Between
  then show ?thesis
    using assms(2,3) by (cases e) (auto simp: con_inv_def)
next
  case (Inside n)
  have stays: ?thesis if w: "writes (con_event env e con) con" and st': "st' = Inside n \<or> st' = Between"
  proof -
    obtain s con' where r: "con_event env e con = Some (s, con')" "same_place con con'"
      using w by (auto simp: writes_def)
    have "con_inv (Inside n) con'" using inv_same_place [OF _ r(2)] assms(1) Inside by simp
    then show ?thesis using st' r(1) by (auto simp: con_inv_def [of Between])
  qed
  show ?thesis
    using assms(2,3) handlers_write [OF assms(1) [unfolded Inside]] stays Inside assms(1)
    by (cases e) (auto simp: con_inv_def level_down_def split: if_splits)
next
  case After
  then show ?thesis using assms(2) by simp
qed

interpretation console_reporter: reporter "con_event env" new_console con_inv event_ok for env
proof
  show "con_inv Before new_console" by (simp add: con_inv_def)
qed (rule con_event_ok)

section \<open>The verdict\<close>

lemma run_ends:
  assumes "run_context slow testArray p = Some (code, s)" "\<not> only_asks p" "\<not> query_mode p" "\<not> o_no_exitcode (ctx s)"
  shows "\<exists>es r. reported (ctx s) = es @ [Test_run_end r] \<and> (code = 0 \<longleftrightarrow> numTestCasesFailed r = 0)"
proof -
  let ?q = "(start_run p)\<lparr>numTestCases := of_nat (length (testArray (start_run p)))\<rparr>"
  have q: "\<not> query_mode ?q" using assms(3) start_run_simps(2) [of p] by (simp add: query_mode_def)
  then obtain s' where s': "s = report_results False s'" "code = exit_code (ctx s)"
    using assms(1,2) by (auto simp: run_context_def start_run_simps Let_def)
  then show ?thesis
    using assms(4) by (auto simp: report_results_def report_event_def exit_code_def TestRunStats.defs)
qed

lemma calls_last:
  "calls_for handle (es @ [e]) s = Some (r, s') \<Longrightarrow> \<exists>before s1 now. handle e s1 = Some (now, s') \<and> r = before @ now"
proof (induction es arbitrary: s r)
  case Nil
  then have "handle e s = Some (r, s')" by (auto simp: bind_eq_Some_conv)
  then show ?case by auto
next
  case (Cons a es)
  then obtain cs s1 rest where step: "calls_for handle (es @ [e]) s1 = Some (rest, s')" "r = cs @ rest"
    by (auto simp: bind_eq_Some_conv)
  obtain before s1 now where "handle e s1 = Some (now, s')" "rest = before @ now"
    using Cons.IH [OF step(1)] by blast
  then show ?case using step(2) by (metis append.assoc)
qed

text \<open>The end of the last line.\<close>

definition verdict_line :: "console_env \<Rightarrow> bool \<Rightarrow> string" where
  "verdict_line env ok =
     (if ok then env_color env Green @ ''SUCCESS!'' else env_color env Red @ ''FAILURE!'') @ env_color env NoColor @ endl"

lemma end_text:
  "o_minimal (opt env) \<longrightarrow> numTestCasesFailed r \<noteq> 0 \<Longrightarrow>
     \<exists>before. con_test_run_end env r = before @ ''Status: '' @ verdict_line env (numTestCasesFailed r = 0)"
  by (auto simp: con_test_run_end_def verdict_line_def Let_def word_neq_0_conv)


text \<open>The console reporter writes a report of every run without failing: it never follows a null
  pointer, nor reads beyond its stack of subcases.\<close>

theorem console_report_written:
  assumes "\<forall>p. good_tests (testArray p)" "run_context slow testArray p = Some (code, s)"
  shows "\<exists>text. console_report env (reported (ctx s)) = Some text"
  using console_reporter.report_handled [of _ _ env] run_reported [OF assms]
  unfolding well_reported_def console_report_def by fastforce

lemma console_verdict:
  assumes "\<forall>p. good_tests (testArray p)" "run_context slow testArray (opt env) = Some (code, s)"
    and "\<not> only_asks (opt env)" "\<not> query_mode (opt env)" "\<not> o_no_exitcode (ctx s)"
    and "o_minimal (opt env) \<longrightarrow> code \<noteq> 0"
  shows "\<exists>before. console_report env (reported (ctx s)) =
    Some (before @ ''Status: '' @ verdict_line env (code = 0))"
proof -
  obtain es r where run: "reported (ctx s) = es @ [Test_run_end r]" "code = 0 \<longleftrightarrow> numTestCasesFailed r = 0"
    using run_ends [OF assms(2-5)] by blast
  obtain out' con where "calls_for (con_event env) (reported (ctx s)) new_console = Some (out', con)"
    using console_reporter.report_handled [of _ _ env] run_reported [OF assms(1,2)] unfolding well_reported_def by blast
  moreover from this obtain before where "out' = before @ con_test_run_end env r"
    using calls_last run(1) by (metis con_event.simps(3) option.inject prod.inject)
  moreover obtain rest where "con_test_run_end env r = rest @ ''Status: '' @ verdict_line env (numTestCasesFailed r = 0)"
    using end_text assms(6) run(2) by blast
  ultimately show ?thesis unfolding console_report_def run(2)
    by (intro exI [where x = "before @ rest"]) simp
qed

section \<open>The subcases it shows\<close>

text \<open>The subcases that are open after some reports.\<close>

fun open_step :: "reporter_event \<Rightarrow> SubcaseSignature list \<Rightarrow> SubcaseSignature list" where
  "open_step (Subcase_start s) opened = opened @ [s]"
| "open_step Subcase_end opened = butlast opened"
| "open_step _ opened = opened"

definition open_subcases :: "reporter_event list \<Rightarrow> SubcaseSignature list" where
  "open_subcases es = fold open_step es []"

text \<open>
  The place of the framework in a pass: its stack of subcases, how deep in it the test is, and whether
  a leaf has been left. On the way to the leaf the stack grows; afterwards only subcases that are on
  it are entered.
\<close>

type_synonym place = "SubcaseSignature list \<times> nat \<times> bool"

definition place :: "ContextState \<Rightarrow> place" where
  "place p = (subcaseStack p, currentSubcaseDepth p, reachedLeaf p)"

definition place_ok :: "place \<Rightarrow> bool" where
  "place_ok \<equiv> \<lambda>(stack, depth, leaf). depth \<le> length stack \<and> (leaf \<or> depth = length stack)"

fun place_step :: "reporter_event \<Rightarrow> place \<Rightarrow> place option" where
  "place_step (Subcase_start s) (stack, depth, leaf) =
     (if \<not> leaf then Some (stack @ [s], depth + 1, False)
      else if depth < length stack \<and> signature_eq (stack ! depth) s then Some (stack, depth + 1, True) else None)"
| "place_step Subcase_end (stack, depth, leaf) = (if 0 < depth then Some (stack, depth - 1, True) else None)"
| "place_step (Test_case_exception _ _ _) pl = Some pl"
| "place_step (Log_assert rb _) pl = (if assertString (ad_at rb) \<noteq> None then Some pl else None)"
| "place_step (Log_message _ _) pl = Some pl"
| "place_step _ pl = None"

fun place_steps :: "reporter_event list \<Rightarrow> place \<Rightarrow> place option" where
  "place_steps [] pl = Some pl"
| "place_steps (e # es) pl = Option.bind (place_step e pl) (place_steps es)"

lemma place_steps_append: "place_steps (a @ b) pl = Option.bind (place_steps a pl) (place_steps b)"
  by (induction a arbitrary: pl) (auto split: bind_split)

text \<open>A change of the context that moves from place to place.\<close>

definition moves :: "ContextState \<Rightarrow> ContextState \<Rightarrow> bool" where
  "moves p q \<longleftrightarrow> (place_ok (place p) \<longrightarrow>
     (\<exists>es. reported q = reported p @ es \<and> place_steps es (place p) = Some (place q) \<and> place_ok (place q)))"

lemma moves_silent: "reported q = reported p \<Longrightarrow> place q = place p \<Longrightarrow> moves p q"
  by (simp add: moves_def)

lemma moves_trans: "moves p q \<Longrightarrow> moves q r \<Longrightarrow> moves p r"
  by (fastforce simp: moves_def place_steps_append)

lemma moves_event:
  "reported q = reported p @ [e] \<Longrightarrow> place q = place p \<Longrightarrow> place_step e (place p) = Some (place p) \<Longrightarrow> moves p q"
  by (auto simp: moves_def)

lemmas place_simps = place_def place_ok_def moves_def report_event_def

lemma enter_moves:
  "Subcase_enter s p = Some (entered, q) \<Longrightarrow>
     moves p q \<and> currentSubcaseDepth q = (if entered then currentSubcaseDepth p + 1 else currentSubcaseDepth p)"
  by (auto simp: Subcase_enter_def place_simps split: if_splits)

lemma leave_moves:
  "0 < currentSubcaseDepth p \<Longrightarrow> moves p (Subcase_leave True u p)"
  "currentSubcaseDepth (Subcase_leave True u p) = currentSubcaseDepth p - 1"
  "Subcase_leave False u p = p"
  by (auto simp: Subcase_leave_def place_simps Let_def)

lemma assert_moves:
  assumes "run_assert lane contexts l k file ln expr ty msg ev p = (r, ad, q)"
  shows "moves p q \<and> currentSubcaseDepth q = currentSubcaseDepth p"
proof -
  have same: "reported (after_assert lane l ok p) = reported p" "place (after_assert lane l ok p) = place p" for ok
    by (simp_all add: after_assert_def place_def Let_def)
  consider "q = p" | rb where "decided lane contexts l (holds k msg ev) rb p = (r, ad, q)" "ad_at rb = DT l k"
    using run_assert_decided [where k = k and p = p and ev = ev and msg = msg] assms
    unfolding evaluated_def by (metis (no_types, lifting) Pair_inject)
  then show ?thesis
  proof cases
    case 2
    then have "reported q = reported p @ [Log_assert rb contexts]" "place q = place p"
      using same by (auto simp: decided_def report_event_def place_def Let_def split: if_splits)
    then show ?thesis using 2(2) assertString_DT [of l k] by (simp add: moves_event) (simp add: place_def)
  qed (simp add: moves_silent)
qed

lemma message_moves:
  "add_message lane contexts l file ln msg p = (r, q) \<Longrightarrow> moves p q \<and> currentSubcaseDepth q = currentSubcaseDepth p"
  by (auto simp: add_message_def MB_log_def addAssert_def addFailedAssert_def
      throwException_def Let_def place_simps split: if_splits)

lemma destroy_moves: "moves p q \<Longrightarrow> moves p (destroy uncaught t q)" "currentSubcaseDepth (destroy uncaught t q) = currentSubcaseDepth q"
  by (simp_all add: destroy_def place_simps)

lemma exec_moves:
  "exec lane contexts ss p = Some (outcome, q) \<Longrightarrow> moves p q \<and> currentSubcaseDepth q = currentSubcaseDepth p"
proof (induction lane contexts ss p arbitrary: outcome q rule: exec.induct)
  case (2 lane contexts l k fl ln expr ty msg ev rest p)
  obtain r ad p1 where r: "run_assert lane contexts l k fl ln expr ty msg ev p = (r, ad, p1)" by (metis prod_cases3)
  then show ?case using 2 assert_moves [OF r] moves_trans [of p p1 q] by (cases r) auto
next
  case (3 lane contexts l fl ln msg rest p)
  obtain r p1 where r: "add_message lane contexts l fl ln msg p = (r, p1)" by force
  have p1: "moves p p1" "currentSubcaseDepth p1 = currentSubcaseDepth p" using message_moves [OF r] by simp_all
  show ?case
  proof (cases r)
    case True
    then show ?thesis using 3(2) r p1 by simp
  next
    case False
    then show ?thesis using 3(1) [OF r [symmetric]] 3(2) r p1 moves_trans by simp
  qed
next
  case (4 lane contexts t rest p)
  then obtain p1 where "exec lane (contexts @ [t]) rest p = Some (outcome, p1)" "q = destroy (outcome \<noteq> Completes) t p1"
    by (auto split: option.splits)
  then show ?case using 4(1) destroy_moves by auto
next
  case (5 lane contexts s body rest p)
  obtain entered p1 where e: "Subcase_enter s p = Some (entered, p1)"
    using 5(3) by (auto split: option.splits)
  obtain out' p2 where b: "(if entered then exec lane contexts body p1 else Some (Completes, p1)) = Some (out', p2)"
    using 5(3) e by (auto split: option.splits if_splits)
  let ?p3 = "Subcase_leave entered (out' \<noteq> Completes) p2"
  have p2: "moves p1 p2 \<and> currentSubcaseDepth p2 = currentSubcaseDepth p1"
    using 5(1) [OF e refl] b moves_silent by (cases entered) auto
  have "moves p2 ?p3" "currentSubcaseDepth ?p3 = currentSubcaseDepth p"
    using leave_moves [where p = p2] enter_moves [OF e] p2 by (cases entered; simp add: moves_silent)+
  then have p: "moves p ?p3" "currentSubcaseDepth ?p3 = currentSubcaseDepth p"
    using enter_moves [OF e] p2 moves_trans by blast+
  show ?case
  proof (cases "out' = Completes")
    case True
    then have "exec lane contexts rest ?p3 = Some (outcome, q)" using 5(3) e b by (auto simp: Let_def split: if_splits)
    then show ?thesis using 5(2) [OF e refl b] True p moves_trans by (fastforce simp: Let_def)
  next
    case False
    then show ?thesis using p 5(3) e b by (auto simp: Let_def split: if_splits)
  qed
qed (auto simp: moves_silent)

text \<open>The console and the place.\<close>

definition con_at :: "reporter_event list \<Rightarrow> place \<Rightarrow> console_state \<Rightarrow> bool" where
  "con_at es \<equiv> \<lambda>(stack, depth, leaf) con.
     currentSubcaseLevel con = depth \<and> depth \<le> length stack \<and>
     (\<exists>again. subcasesStack con = stack @ again \<and> (leaf \<or> again = [] \<and> depth = length stack)) \<and>
     list_all2 signature_eq (take depth stack) (open_subcases es) \<and>
     (\<exists>tc. con_tc con = Some tc \<and> named tc)"

lemma signature_eq_refl: "signature_eq s s"
  by (simp add: signature_eq_def)

lemma butlast_all2:
  assumes "list_all2 P (take d xs) ys" "0 < d" "d \<le> length xs"
  shows "list_all2 P (take (d - 1) xs) (butlast ys)"
proof -
  have "length ys = d" using list_all2_lengthD [OF assms(1)] assms(3) by simp
  then show ?thesis
    using list_all2_takeI [OF assms(1), of "d - 1"] assms(2) by (simp add: butlast_conv_take min_def)
qed

lemma con_at_step:
  assumes "con_at before pl con" "place_step e pl = Some pl'"
  shows "\<exists>t con'. con_event env e con = Some (t, con') \<and> con_at (before @ [e]) pl' con'"
proof -
  obtain stack depth leaf where pl: "pl = (stack, depth, leaf)" by (cases pl) auto
  have inv: "con_inv (Inside depth) con" using assms(1) pl by (auto simp: con_at_def con_inv_def)
  have stays: ?thesis if w: "writes (con_event env e con) con" and "pl' = pl" "\<And>opened. open_step e opened = opened"
  proof -
    obtain s con' where r: "con_event env e con = Some (s, con')" "same_place con con'"
      using w by (auto simp: writes_def)
    then show ?thesis using assms(1) that by (auto simp: con_at_def same_place_def open_subcases_def pl)
  qed
  show ?thesis
  proof (cases e)
    case (Subcase_start s)
    then show ?thesis
      using assms signature_eq_refl
      by (auto simp: pl con_at_def open_subcases_def take_Suc_conv_app_nth intro!: list_all2_appendI split: if_splits)
  next
    case Subcase_end
    then show ?thesis
      using assms butlast_all2 [of signature_eq depth stack "open_subcases before"]
      by (auto simp: pl con_at_def open_subcases_def level_down_def split: if_splits)
  qed (use assms(2) pl handlers_write [OF inv] stays in \<open>auto split: if_splits\<close>)
qed

lemma con_at_steps:
  "con_at before pl con \<Longrightarrow> place_steps es pl = Some pl' \<Longrightarrow>
     \<exists>t con'. calls_for (con_event env) es con = Some (t, con') \<and> con_at (before @ es) pl' con'"
proof (induction es arbitrary: before pl con)
  case (Cons e es)
  then obtain pl1 where pl1: "place_step e pl = Some pl1" "place_steps es pl1 = Some pl'"
    by (auto simp: bind_eq_Some_conv)
  obtain t con1 where "con_event env e con = Some (t, con1)" "con_at (before @ [e]) pl1 con1"
    using con_at_step [OF Cons.prems(1) pl1(1)] by blast
  then show ?case using Cons.IH [OF _ pl1(2)] by fastforce
qed simp

lemma con_at_shown:
  assumes "con_at es pl con"
  shows "shown_subcases con = Some (names_of (open_subcases es))"
proof -
  obtain stack depth leaf where pl: "pl = (stack, depth, leaf)" by (cases pl) auto
  have "names_of (take depth stack) = names_of (open_subcases es)"
    using assms unfolding pl con_at_def names_of_def
    by (auto simp: list_all2_conv_all_nth signature_eq_def strcmp_zero_iff intro!: nth_equalityI)
  then show ?thesis using assms by (auto simp: pl con_at_def shown_subcases_def)
qed

text \<open>C32. Whatever a test made of macros does, in each pass through it the console shows as the current
  subcases those that have been entered and not left, at every moment, although its own stack
  keeps the subcases that have been left, and a subcase that is entered again is put on it again.\<close>

theorem console_shows_open_subcases:
  assumes "program_test lane ss (start_pass p) = Some (outcome, q)"
    and "con_tc con = Some tc" "named tc" "subcasesStack con = []" "currentSubcaseLevel con = 0"
  shows "\<exists>es. reported q = reported p @ es \<and>
    (\<forall>before after. es = before @ after \<longrightarrow>
      (\<exists>text now. calls_for (con_event env) before con = Some (text, now) \<and>
         shown_subcases now = Some (names_of (open_subcases before))))"
proof -
  have "moves (start_pass p) q" using exec_moves assms(1) unfolding program_test_def by blast
  then obtain es where es: "reported q = reported p @ es" "place_steps es ([], 0, False) = Some (place q)"
    by (auto simp: moves_def place_def place_ok_def start_pass_def)
  have start: "con_at [] ([], 0, False) con"
    using assms(2-5) by (simp add: con_at_def open_subcases_def)
  have "\<exists>text now. calls_for (con_event env) before con = Some (text, now) \<and>
      shown_subcases now = Some (names_of (open_subcases before))" if split: "es = before @ after" for before after
  proof -
    obtain pl where "place_steps before ([], 0, False) = Some pl"
      using es(2) split by (auto simp: place_steps_append bind_eq_Some_conv)
    from con_at_steps [OF start this, of env]
    obtain t now where "calls_for (con_event env) before con = Some (t, now)" "con_at before pl now" by auto
    then show ?thesis using con_at_shown by blast
  qed
  then show ?thesis using es(1) by blast
qed

section \<open>Concrete runs\<close>

definition sample_console :: console_env where
  "sample_console = report_env.extend sample_env
     \<lparr>d_fixed = (\<lambda>d. show_int (uint d) @ ''.000000'')\<rparr>"

lemma sample_opt: "opt sample_console = sample_state"
  by (simp add: sample_console_def sample_env_def report_env.defs)

lemma sample_console_runs:
  "case run_context (\<lambda>_. False) (\<lambda>_. [sample_test]) sample_state of None \<Rightarrow> False
   | Some (code, s) \<Rightarrow> code = 0 \<and> \<not> o_no_exitcode (ctx s)"
  by code_simp

theorem console_report_written_witness:
  "\<exists>code s text. run_context (\<lambda>_. False) (\<lambda>_. [sample_test]) sample_state = Some (code, s) \<and>
     console_report sample_console (reported (ctx s)) = Some text"
proof -
  obtain code s where "run_context (\<lambda>_. False) (\<lambda>_. [sample_test]) sample_state = Some (code, s)"
    using sample_console_runs by (auto split: option.splits)
  then show ?thesis using console_report_written [of "\<lambda>_. [sample_test]"] sample_good by blast
qed

definition reentering :: "stmt list" where
  "reentering =
     (let outer = \<lparr>m_name = ''outer'', m_file = ''test.cpp'', m_line = 1\<rparr>;
          inner = \<lparr>m_name = ''inner'', m_file = ''test.cpp'', m_line = 2\<rparr>
      in [Subcase outer [Subcase inner []], Subcase outer [Message WARN ''test.cpp'' 4 ''again'']])"

definition at_start :: console_state where
  "at_start = new_console\<lparr>con_tc := Some (TestCaseData.truncate sample_test)\<rparr>"

lemma reentering_runs:
  "case program_test 0 reentering (start_pass sample_state) of None \<Rightarrow> False | Some (outcome, q) \<Rightarrow> outcome = Completes"
  by code_simp

theorem console_shows_open_subcases_witness:
  "\<exists>q es. program_test 0 reentering (start_pass sample_state) = Some (Completes, q) \<and>
     reported q = reported sample_state @ es \<and>
     (\<forall>before after. es = before @ after \<longrightarrow>
       (\<exists>text now. calls_for (con_event sample_console) before at_start = Some (text, now) \<and>
          shown_subcases now = Some (names_of (open_subcases before))))"
proof -
  obtain q where q: "program_test 0 reentering (start_pass sample_state) = Some (Completes, q)"
    using reentering_runs by (auto split: option.splits)
  have tc: "con_tc at_start = Some (TestCaseData.truncate sample_test)" "named (TestCaseData.truncate sample_test)"
      "subcasesStack at_start = []" "currentSubcaseLevel at_start = 0"
    using sample_good by (simp_all add: at_start_def new_console_def good_tests_def)
  show ?thesis using console_shows_open_subcases [OF q tc] q by blast
qed

end
