(* ===== verification/Doctest_Main.thy ===== *)
theory Doctest_Main
  imports Doctest_Console Doctest_Tests
begin

text \<open>
  The whole of the vendored test framework (\<open>external/doctest.h\<close>): test cases and reporters are
  registered, the command line is read, the reporters are chosen, the tests run, and each report of
  the run goes to each of the reporters, which write to one stream. The registries are ordered
  containers, for which the locale \<open>key_comparator\<close> gives the laws.
\<close>

section \<open>Ordered containers\<close>

text \<open>\<open>insert\<close> of \<open>std::set\<close> and \<open>std::map\<close>: an element that is equivalent to one
  already there is not inserted.\<close>

fun set_insert :: "('a \<Rightarrow> 'a \<Rightarrow> bool) \<Rightarrow> 'a \<Rightarrow> 'a list \<Rightarrow> 'a list" where
  "set_insert lt x [] = [x]"
| "set_insert lt x (y # ys) =
     (if lt x y then x # y # ys else if lt y x then y # set_insert lt x ys else y # ys)"

lemma split_snoc:
  "xs @ [x] = before @ z # after \<longleftrightarrow>
     after = [] \<and> before = xs \<and> z = x \<or> (\<exists>rest. after = rest @ [x] \<and> xs = before @ z # rest)"
  by (cases after rule: rev_cases) auto

context key_comparator
begin

definition ordered :: "'a list \<Rightarrow> bool" where
  "ordered xs \<longleftrightarrow> sorted_wrt (\<lambda>x y. key x < key y) xs"

lemma insert_keys: "ordered xs \<Longrightarrow> key ` set (set_insert cmp x xs) = insert (key x) (key ` set xs)"
proof (induction xs)
  case (Cons y ys)
  then show ?case using trichotomy [of x y] by (auto simp: ordered_def)
qed simp

lemma insert_elements:
  "ordered xs \<Longrightarrow> set (set_insert cmp x xs) = (if key x \<in> key ` set xs then set xs else insert x (set xs))"
proof (induction xs)
  case (Cons y ys)
  have "key x < key y \<Longrightarrow> key x \<notin> key ` set ys" using Cons.prems by (auto simp: ordered_def)
  then show ?case using Cons by (auto simp: ordered_def cmp_key)
qed simp

lemma insert_ordered: "ordered xs \<Longrightarrow> ordered (set_insert cmp x xs)"
proof (induction xs)
  case (Cons y ys)
  have tail: "ordered ys" "\<forall>z \<in> set ys. key y < key z" using Cons.prems by (simp_all add: ordered_def)
  consider "key x < key y" | "key x = key y" | "key y < key x" by force
  then show ?case
  proof cases
    case 1
    then show ?thesis using Cons.prems tail by (auto simp: ordered_def cmp_key)
  next
    case 2
    then show ?thesis using Cons.prems by (simp add: cmp_key)
  next
    case 3
    then show ?thesis
      using Cons.IH [OF tail(1)] tail insert_elements [OF tail(1), of x]
      by (auto simp: ordered_def cmp_key [of x y] cmp_key [of y x])
  qed
qed (simp add: ordered_def)

text \<open>The container after a sequence of insertions has the first element of each key, in order.\<close>

lemma inserted:
  "ordered (foldl (\<lambda>s x. set_insert cmp x s) [] xs) \<and>
   set (foldl (\<lambda>s x. set_insert cmp x s) [] xs) =
     {x. \<exists>before after. xs = before @ x # after \<and> key x \<notin> key ` set before}"
proof (induction xs rule: rev_induct)
  case (snoc x xs)
  let ?s = "foldl (\<lambda>s x. set_insert cmp x s) [] xs"
  have keys: "key ` set ?s = key ` set xs"
  proof -
    have "\<exists>y before after. xs = before @ y # after \<and> key y = key z \<and> key y \<notin> key ` set before"
      if "z \<in> set xs" for z
      using split_list_first_prop [of xs "\<lambda>y. key y = key z"] that by fastforce
    then show ?thesis using snoc by (fastforce simp: image_iff)
  qed
  have "{y. \<exists>before after. xs @ [x] = before @ y # after \<and> key y \<notin> key ` set before} =
      {y. \<exists>before after. xs = before @ y # after \<and> key y \<notin> key ` set before} \<union>
      (if key x \<in> key ` set xs then {} else {x})"
    by (auto simp: split_snoc)
  then show ?case using snoc insert_ordered insert_elements [of ?s x] keys by auto
qed (simp add: ordered_def)

end

section \<open>Registering\<close>

definition regTest :: "'f TestCase \<Rightarrow> 'f TestCase list \<Rightarrow> 'f TestCase list" where
  "regTest tc registered = set_insert TestCase_less (assign_TestCase tc) registered"

text \<open>Reporters have a priority and a name; here those that the header registers itself.\<close>

datatype creator = Make_xml | Make_junit | Make_console

type_synonym reporterMap = "((int \<times> string) \<times> creator) list"

definition reporter_less :: "(int \<times> string) \<times> creator \<Rightarrow> (int \<times> string) \<times> creator \<Rightarrow> bool" where
  "reporter_less a b \<longleftrightarrow>
     fst (fst a) < fst (fst b) \<or> fst (fst a) = fst (fst b) \<and> strcmp (snd (fst a)) (snd (fst b)) < 0"

definition registerReporterImpl ::
    "string \<Rightarrow> int \<Rightarrow> creator \<Rightarrow> bool \<Rightarrow> reporterMap \<times> reporterMap \<Rightarrow> reporterMap \<times> reporterMap" where
  "registerReporterImpl name priority c isReporter maps =
     (case maps of (rs, ls) \<Rightarrow>
        if isReporter then (set_insert reporter_less ((priority, name), c) rs, ls)
        else (rs, set_insert reporter_less ((priority, name), c) ls))"

interpretation by_priority: key_comparator reporter_less "\<lambda>r. (fst (fst r), map uchar (snd (fst r)))"
  by unfold_locales (auto simp: reporter_less_def strcmp_less less_prod_def')

definition builtin_reporters :: "reporterMap \<times> reporterMap" where
  "builtin_reporters =
     registerReporterImpl ''console'' 0 Make_console True
       (registerReporterImpl ''junit'' 0 Make_junit True
         (registerReporterImpl ''xml'' 0 Make_xml True ([], [])))"

section \<open>Choosing reporters and the stream\<close>

definition choose_reporters :: "reporterMap \<times> reporterMap \<Rightarrow> ContextState \<Rightarrow> creator list" where
  "choose_reporters maps p =
     (let used = map snd (filter (\<lambda>r. matchesAny (c_string (snd (fst r))) (filters p ! 8) False (o_case_sensitive p)) (fst maps))
      in foldl (\<lambda>used l. snd l # used) used (snd maps))"

text \<open>
  The stream that \<open>cout\<close> points to. The stream of a file is a variable of \<open>run\<close>, so after
  the run the pointer, which is not reset, dangles.
\<close>

datatype stream = Given_stream | Discarding | File_stream string | Standard_output | Dangling

definition stream_of :: "stream option \<Rightarrow> ContextState \<Rightarrow> stream" where
  "stream_of cout p =
     (case cout of
        Some st \<Rightarrow> st
      | None \<Rightarrow> if o_quiet p then Discarding else if o_out p \<noteq> [] then File_stream (o_out p) else Standard_output)"

fun is_file :: "stream \<Rightarrow> bool" where
  "is_file (File_stream _) \<longleftrightarrow> True"
| "is_file _ \<longleftrightarrow> False"

definition cout_after :: "stream \<Rightarrow> stream" where
  "cout_after st = (case st of File_stream _ \<Rightarrow> Dangling | _ \<Rightarrow> st)"

section \<open>Running reporters\<close>

text \<open>A reporter that runs; the writers here keep no text, and each step gives what it writes.\<close>

datatype running =
    Running_xml xml_state xml_writer
  | Running_junit junit_state xml_writer
  | Running_console console_state

fun create :: "creator \<Rightarrow> running" where
  "create Make_xml = Running_xml None new_writer"
| "create Make_junit = Running_junit new_junit new_writer"
| "create Make_console = Running_console new_console"

definition write_calls :: "xml_call list \<Rightarrow> xml_writer \<Rightarrow> (string \<times> xml_writer) option" where
  "write_calls cs w = map_option (\<lambda>w. (m_os w, w\<lparr>m_os := []\<rparr>)) (xml_steps cs w)"

fun tell :: "console_env \<Rightarrow> reporter_event \<Rightarrow> running \<Rightarrow> (string \<times> running) option" where
  "tell env e (Running_xml s w) =
     do { (cs, s) \<leftarrow> xml_event (report_env.truncate env) e s; (t, w) \<leftarrow> write_calls cs w; Some (t, Running_xml s w) }"
| "tell env e (Running_junit s w) =
     do { (cs, s) \<leftarrow> junit_event (report_env.truncate env) e s; (t, w) \<leftarrow> write_calls cs w; Some (t, Running_junit s w) }"
| "tell env e (Running_console s) =
     do { (t, s) \<leftarrow> con_event env e s; Some (t, Running_console s) }"

text \<open>Destruction: the writers end their open elements.\<close>

fun finish :: "running \<Rightarrow> string option" where
  "finish (Running_xml s w) = map_option m_os (close_all w)"
| "finish (Running_junit s w) = map_option m_os (close_all w)"
| "finish (Running_console s) = Some []"

text \<open>\<open>DOCTEST_ITERATE_THROUGH_REPORTERS\<close>, all reports of a run, and the end. A file is
  closed before the reporters are destroyed, and what they write then is lost.\<close>

fun tell_all :: "console_env \<Rightarrow> reporter_event \<Rightarrow> running list \<Rightarrow> (string \<times> running list) option" where
  "tell_all env e [] = Some ([], [])"
| "tell_all env e (r # rs) =
     do { (t, r) \<leftarrow> tell env e r; (ts, rs) \<leftarrow> tell_all env e rs; Some (t @ ts, r # rs) }"

fun finish_all :: "running list \<Rightarrow> string option" where
  "finish_all [] = Some []"
| "finish_all (r # rs) = do { t \<leftarrow> finish r; ts \<leftarrow> finish_all rs; Some (t @ ts) }"

fun tell_events :: "console_env \<Rightarrow> bool \<Rightarrow> reporter_event list \<Rightarrow> running list \<Rightarrow> string option" where
  "tell_events env closed [] rs =
     (if closed then map_option (\<lambda>t. []) (finish_all rs) else finish_all rs)"
| "tell_events env closed (e # es) rs =
     do { (t, rs) \<leftarrow> tell_all env e rs; ts \<leftarrow> tell_events env closed es rs; Some (t @ ts) }"

section \<open>The whole program\<close>

text \<open>\<open>Context::run\<close>: exit code, the stream written to, what is written, where \<open>cout\<close>
  points then, and the run. \<open>None\<close>: it does not end, or follows a pointer that leads nowhere.\<close>

definition Context_run ::
    "console_env \<Rightarrow> reporterMap \<times> reporterMap \<Rightarrow> (TestCaseData \<Rightarrow> bool) \<Rightarrow>
     (ContextState \<Rightarrow> test_function TestCase list) \<Rightarrow> stream option \<Rightarrow> ContextState \<Rightarrow>
     (int \<times> stream \<times> string \<times> stream \<times> run_state) option" where
  "Context_run env maps slow testArray cout p =
     do { st \<leftarrow> (if stream_of cout p = Dangling then None else Some (stream_of cout p));
          (code, s) \<leftarrow> run_context slow testArray p;
          txts \<leftarrow> tell_events (env\<lparr>opt := p\<rparr>) (is_file st) (reported (ctx s))
            (map create (choose_reporters maps (start_run p)));
          Some (code, st, txts, cout_after st, s) }"

text \<open>\<open>main\<close>; \<open>memory\<close> is what a new context finds there.\<close>

definition doctest_main ::
    "console_env \<Rightarrow> (((test_function TestCase \<Rightarrow> test_function TestCase \<Rightarrow> bool) \<Rightarrow>
       test_function TestCase list \<Rightarrow> test_function TestCase list)) \<Rightarrow> (32 word \<Rightarrow> nat \<Rightarrow> nat) \<Rightarrow>
     (TestCaseData \<Rightarrow> bool) \<Rightarrow> ContextState \<Rightarrow> test_function TestCase list \<Rightarrow> string list \<Rightarrow>
     (int \<times> stream \<times> string \<times> stream \<times> run_state) option" where
  "doctest_main env std_sort rand slow memory registered argv =
     Context_run env builtin_reporters slow
       (\<lambda>p. order_tests std_sort rand (o_order_by p) (o_rand_seed p) registered) None (make_Context memory argv)"

section \<open>The registered tests\<close>

lemma foldl_regTest:
  "foldl (\<lambda>rs tc. regTest tc rs) rs tcs = foldl (\<lambda>rs x. set_insert TestCase_less x rs) rs (map assign_TestCase tcs)"
  by (induction tcs arbitrary: rs) (simp_all add: regTest_def)

text \<open>C34. Whatever tests the macros register in whatever order, the registry is strictly ordered by line,
  name, file and template number, and of the tests that agree in all four it has just the first.\<close>

theorem registered_tests:
  "sorted_wrt (\<lambda>a b. identity_key a < identity_key b) (foldl (\<lambda>rs tc. regTest tc rs) [] tcs) \<and>
   set (foldl (\<lambda>rs tc. regTest tc rs) [] tcs) =
     {x. \<exists>before after. map assign_TestCase tcs = before @ x # after \<and> identity_key x \<notin> identity_key ` set before}"
  unfolding foldl_regTest using by_identity.inserted by (simp add: by_identity.ordered_def)

section \<open>One reporter\<close>

text \<open>What is written does not depend on what has been written.\<close>

definition written_before :: "string \<Rightarrow> xml_writer \<Rightarrow> xml_writer" where
  "written_before a w = w\<lparr>m_os := a @ m_os w\<rparr>"

lemma written_before_simps [simp]:
  "m_tagIsOpen (written_before a w) = m_tagIsOpen w" "m_needsNewline (written_before a w) = m_needsNewline w"
  "m_tags (written_before a w) = m_tags w" "m_indent (written_before a w) = m_indent w"
  "m_os (written_before a w) = a @ m_os w"
  "(written_before a w)\<lparr>m_tags := ts\<rparr> = written_before a (w\<lparr>m_tags := ts\<rparr>)"
  "(written_before a w)\<lparr>m_indent := i\<rparr> = written_before a (w\<lparr>m_indent := i\<rparr>)"
  "(written_before a w)\<lparr>m_tagIsOpen := b\<rparr> = written_before a (w\<lparr>m_tagIsOpen := b\<rparr>)"
  "(written_before a w)\<lparr>m_needsNewline := b\<rparr> = written_before a (w\<lparr>m_needsNewline := b\<rparr>)"
  "out t (written_before a w) = written_before a (out t w)"
  by (simp_all add: written_before_def out_def)

lemma ensure_before [simp]: "ensureTagClosed (written_before a w) = written_before a (ensureTagClosed w)"
  by (simp add: ensureTagClosed_def)

lemma newline_before [simp]: "newlineIfNecessary (written_before a w) = written_before a (newlineIfNecessary w)"
  by (simp add: newlineIfNecessary_def)

lemma end_before: "endElement (written_before a w) = map_option (written_before a) (endElement w)"
  by (simp add: endElement_def Let_def)

lemma step_before: "xml_step c (written_before a w) = map_option (written_before a) (xml_step c w)"
  by (cases c)
    (auto simp: writeDeclaration_def startElement_def end_before writeAttribute_def writeAttribute_bool_def
      writeText_def Let_def split: bind_split)

lemma steps_before: "xml_steps cs (written_before a w) = map_option (written_before a) (xml_steps cs w)"
  by (induction cs arbitrary: w) (auto simp: step_before split: bind_split)

lemma close_before: "close_all (written_before a w) = map_option (written_before a) (close_all w)"
proof (induction w rule: close_all.induct)
  case (1 w)
  then show ?case
    using end_before [of a w] by (subst (1 2) close_all.simps) (auto split: option.splits)
qed

text \<open>A writer that is fed the calls of one report after the other.\<close>

lemma write_calls_before:
  "write_calls cs w = Some (t, w') \<longleftrightarrow> xml_steps cs w = Some (written_before t w') \<and> m_os w' = []"
  by (auto simp: write_calls_def written_before_def)

lemma fed:
  fixes T :: "reporter_event list \<Rightarrow> 's \<Rightarrow> xml_writer \<Rightarrow> string option"
  assumes last: "\<And>s w. T [] s w = map_option m_os (close_all w)"
    and step: "\<And>e es s w. T (e # es) s w =
      do { (cs, s) \<leftarrow> handle e s; (t, w) \<leftarrow> write_calls cs w; ts \<leftarrow> T es s w; Some (t @ ts) }"
  shows "T es s w = do { (cs, s) \<leftarrow> calls_for handle es s; w \<leftarrow> xml_steps cs w; map_option m_os (close_all w) }"
proof (induction es arbitrary: s w)
  case Nil
  then show ?case by (simp add: last)
next
  case (Cons e es)
  show ?case
  proof (cases "handle e s")
    case None
    then show ?thesis by (simp add: step)
  next
    case (Some r)
    then obtain cs s1 where h: "handle e s = Some (cs, s1)" by (cases r) auto
    show ?thesis
    proof (cases "write_calls cs w")
      case None
      then have "xml_steps cs w = None" by (simp add: write_calls_def)
      then show ?thesis using None h by (auto simp: step xml_steps_append split: bind_split)
    next
      case (Some r)
      then obtain t w1 where w: "write_calls cs w = Some (t, w1)" by (cases r) auto
      then have "xml_steps cs w = Some (written_before t w1)" by (simp add: write_calls_before)
      then show ?thesis
        using h w Cons.IH [of s1 w1]
        by (cases "calls_for handle es s1")
          (auto simp: step xml_steps_append steps_before close_before split: bind_split)
    qed
  qed
qed

lemma xml_alone:
  "tell_events env False es [Running_xml s w] =
     do { (cs, s) \<leftarrow> calls_for (xml_event (report_env.truncate env)) es s; w \<leftarrow> xml_steps cs w; map_option m_os (close_all w) }"
  by (rule fed) (auto split: bind_split)

lemma junit_alone:
  "tell_events env False es [Running_junit s w] =
     do { (cs, s) \<leftarrow> calls_for (junit_event (report_env.truncate env)) es s; w \<leftarrow> xml_steps cs w; map_option m_os (close_all w) }"
  by (rule fed) (auto split: bind_split)

lemma console_alone: "tell_events env closed es [Running_console s] = map_option fst (calls_for (con_event env) es s)"
  by (induction es arbitrary: s) (auto split: bind_split)

fun report_alone :: "console_env \<Rightarrow> creator \<Rightarrow> reporter_event list \<Rightarrow> string option" where
  "report_alone env Make_xml es = xml_report (report_env.truncate env) es"
| "report_alone env Make_junit es = junit_report (report_env.truncate env) es"
| "report_alone env Make_console es = console_report env es"

text \<open>A reporter that is the only one writes to the stream just its own report.\<close>

theorem one_reporter: "tell_events env False es [create c] = report_alone env c es"
  by (cases c) (auto simp: xml_alone junit_alone console_alone xml_report_def junit_report_def console_report_def
      written_def split: bind_split)

section \<open>A run without arguments\<close>

lemma builtin_order:
  "builtin_reporters = ([((0, ''console''), Make_console), ((0, ''junit''), Make_junit), ((0, ''xml''), Make_xml)], [])"
  by code_simp

lemma only_console:
  assumes "filters p ! 8 = [''console'']"
  shows "choose_reporters builtin_reporters p = [Make_console]"
proof -
  have "list_all (\<lambda>cs. matchesAny ''console'' [''console''] False cs \<and> \<not> matchesAny ''junit'' [''console''] False cs \<and>
      \<not> matchesAny ''xml'' [''console''] False cs) [True, False]"
    by code_simp
  then have "matchesAny ''console'' [''console''] False cs" "\<not> matchesAny ''junit'' [''console''] False cs"
    "\<not> matchesAny ''xml'' [''console''] False cs" for cs
    by (cases cs; simp)+
  moreover have "c_string ''console'' = ''console''" "c_string ''junit'' = ''junit''" "c_string ''xml'' = ''xml''"
    by code_simp+
  ultimately show ?thesis using assms by (simp add: choose_reporters_def builtin_order)
qed

text \<open>An argument that is no option.\<close>

lemma not_an_option:
  assumes "arg = [] \<or> hd arg \<noteq> CHR ''-''"
  shows "parse_arg pat v arg = None"
  using assms by (auto simp: parse_arg_def Let_def split: option.splits)

lemma no_option:
  assumes "arg = [] \<or> hd arg \<noteq> CHR ''-''"
  shows "parseOption [arg] pat dflt = (False, dflt)" "\<not> parseFlag [arg] pat"
  using not_an_option [OF assms] by (simp_all add: parseOption_def parseFlag_def parseOptionImpl_def)

lemma plain_context:
  assumes "arg = [] \<or> hd arg \<noteq> CHR ''-''"
  shows "filters (make_Context p [arg]) = filters p" "o_out (make_Context p [arg]) = []"
    "\<not> o_quiet (make_Context p [arg])" "\<not> o_minimal (make_Context p [arg])"
    "\<not> only_asks (make_Context p [arg])" "\<not> query_mode (make_Context p [arg])"
  using no_option [OF assms]
  by (simp_all add: make_Context_def parseArgs_def parse_options_def parse_filters_def parse_queries_def
      clear_queries_def any_flag_def filter_options_def parseCommaSepArgs_def str_option_def bool_option_def
      parseIntOption_def only_asks_def query_mode_def Let_def)

lemma good_ordered:
  assumes "sorts std_sort" "good_tests registered"
  shows "good_tests (order_tests std_sort rand order_by seed registered)"
proof -
  have "set (order_tests std_sort rand order_by seed registered) = set registered"
    using order_tests_perm [OF assms(1)] by (metis set_mset_mset)
  then show ?thesis using assms(2) by (simp add: good_tests_def)
qed


text \<open>A concrete program.\<close>

definition empty_memory :: ContextState where
  "empty_memory = blank_state\<lparr>filters := replicate 9 []\<rparr>"

definition default_state :: ContextState where
  "default_state = empty_memory\<lparr>o_order_by := ''file'', o_last := 4294967295, o_subcase_filter_levels := 2147483647,
     o_gnu_file_line := True, o_binary_name := ''tests''\<rparr>"

lemma default_context: "make_Context empty_memory [''tests''] = default_state"
proof -
  have "''tests'' = [] \<or> hd ''tests'' \<noteq> CHR ''-''" by simp
  from no_option [OF this] show ?thesis
    by (simp add: make_Context_def parseArgs_def parse_options_def parse_filters_def parse_queries_def
        clear_queries_def any_flag_def filter_options_def parseCommaSepArgs_def str_option_def bool_option_def
        int_option_def parseIntOption_def default_state_def empty_memory_def blank_state_def Let_def)
qed

lemma program_runs:
  "case run_context (\<lambda>_. False) (\<lambda>p. order_tests insertion_sort (\<lambda>_ k. k) (o_order_by p) (o_rand_seed p) [sample_test])
      default_state of
     None \<Rightarrow> False | Some (code, s) \<Rightarrow> code = 0 \<and> \<not> o_no_exitcode (ctx s)"
  by code_simp


text \<open>After a run that has written to a file, another run of the same context follows a pointer to
  the stream of the first one, which is gone.\<close>

lemma second_run_dangles:
  assumes "Context_run env maps slow tests cout p = Some (code, File_stream f, txts, cout', s)"
  shows "Context_run env' maps' slow' tests' (Some cout') q = None"
  using assms by (auto simp: Context_run_def stream_of_def cout_after_def bind_eq_Some_conv split: if_splits)

end
