(* ===== verification/Doctest_Values.thy ===== *)
theory Doctest_Values
  imports Doctest_Assert
begin

text \<open>
  The values that assertions of the vendored test framework compare and print
  (\<open>external/doctest.h\<close>, \<open>Expression_lhs\<close>, \<open>ResultBuilder\<close>, \<open>toString\<close>): integers of the
  types of the language, texts and arrays. An integer is its type and its mathematical value; a
  comparison converts both operands to a common type first, by the rules of C++ on a platform where
  \<open>char\<close> is signed and \<open>long\<close> has 64 bits. Exceptions are translated to texts here, too.
\<close>

unbundle bit_operations_syntax

section \<open>Integers\<close>

datatype int_type =
    T_bool | T_char | T_schar | T_uchar | T_short | T_ushort | T_int | T_uint | T_long | T_ulong | T_llong | T_ullong

fun bits_of :: "int_type \<Rightarrow> nat" where
  "bits_of T_bool = 1"
| "bits_of T_char = 8" | "bits_of T_schar = 8" | "bits_of T_uchar = 8"
| "bits_of T_short = 16" | "bits_of T_ushort = 16"
| "bits_of T_int = 32" | "bits_of T_uint = 32"
| "bits_of _ = 64"

fun is_signed :: "int_type \<Rightarrow> bool" where
  "is_signed t \<longleftrightarrow> t \<in> {T_char, T_schar, T_short, T_int, T_long, T_llong}"

definition in_range :: "int_type \<Rightarrow> int \<Rightarrow> bool" where
  "in_range t i \<longleftrightarrow>
     (if is_signed t then - (2 ^ (bits_of t - 1)) \<le> i \<and> i < 2 ^ (bits_of t - 1) else 0 \<le> i \<and> i < 2 ^ bits_of t)"

text \<open>Conversion to an integer type other than \<open>bool\<close>.\<close>

definition convert :: "int_type \<Rightarrow> int \<Rightarrow> int" where
  "convert t i = (if is_signed t then signed_take_bit (bits_of t - 1) i else take_bit (bits_of t) i)"

text \<open>Integral promotion, and the usual arithmetic conversions.\<close>

definition promote :: "int_type \<Rightarrow> int_type" where
  "promote t = (if bits_of t < 32 then T_int else t)"

fun rank :: "int_type \<Rightarrow> nat" where
  "rank t = (if t \<in> {T_llong, T_ullong} then 2 else if t \<in> {T_long, T_ulong} then 1 else 0)"

fun to_unsigned :: "int_type \<Rightarrow> int_type" where
  "to_unsigned T_int = T_uint"
| "to_unsigned T_long = T_ulong"
| "to_unsigned T_llong = T_ullong"
| "to_unsigned t = t"

definition common_type :: "int_type \<Rightarrow> int_type \<Rightarrow> int_type" where
  "common_type a b =
     (let t = promote a; u = promote b
      in if is_signed t = is_signed u then (if rank t < rank u then u else t)
         else
           let s = (if is_signed t then t else u); n = (if is_signed t then u else t)
           in if rank s \<le> rank n then n else if bits_of n < bits_of s then s else to_unsigned s)"

section \<open>Values and their texts\<close>

datatype cvalue = Number int_type int | Text string | Array "cvalue list"

definition filldata_array :: "string list \<Rightarrow> string" where
  "filldata_array vs =
     ''['' @ concat (map (\<lambda>(k, v). (if k \<noteq> (0::nat) then '', '' else []) @ v) (enumerate 0 vs)) @ '']''"

text \<open>\<open>toString\<close>; a \<open>char\<close> is printed as a number.\<close>

fun toString :: "cvalue \<Rightarrow> string" where
  "toString (Number t i) = (if t = T_bool then (if i \<noteq> 0 then ''true'' else ''false'') else show_int i)"
| "toString (Text s) = s"
| "toString (Array vs) = filldata_array (map toString vs)"

definition stringifyBinaryExpr :: "cvalue \<Rightarrow> string \<Rightarrow> cvalue \<Rightarrow> string" where
  "stringifyBinaryExpr lhs op rhs = toString lhs @ op @ toString rhs"

section \<open>Comparisons\<close>

datatype comparison = EQ | NE | GT | LT | GE | LE

fun op_str :: "comparison \<Rightarrow> string" where
  "op_str EQ = '' == ''"
| "op_str NE = '' != ''"
| "op_str GT = '' >  ''"
| "op_str LT = '' <  ''"
| "op_str GE = '' >= ''"
| "op_str LE = '' <= ''"

fun compares :: "comparison \<Rightarrow> 'a::linorder \<Rightarrow> 'a \<Rightarrow> bool" where
  "compares EQ a b \<longleftrightarrow> a = b"
| "compares NE a b \<longleftrightarrow> a \<noteq> b"
| "compares GT a b \<longleftrightarrow> a > b"
| "compares LT a b \<longleftrightarrow> a < b"
| "compares GE a b \<longleftrightarrow> a \<ge> b"
| "compares LE a b \<longleftrightarrow> a \<le> b"

text \<open>The operators on values; \<open>None\<close>: such a comparison is not compiled.\<close>

fun relational :: "comparison \<Rightarrow> cvalue \<Rightarrow> cvalue \<Rightarrow> bool option" where
  "relational c (Number t i) (Number u j) =
     Some (compares c (convert (common_type t u) i) (convert (common_type t u) j))"
| "relational c (Text a) (Text b) = Some (compares c (map uchar a) (map uchar b))"
| "relational c _ _ = None"

text \<open>\<open>Expression_lhs::operator==\<close> and the others.\<close>

definition binary_expression ::
    "assertType \<Rightarrow> bool \<Rightarrow> comparison \<Rightarrow> cvalue \<Rightarrow> cvalue \<Rightarrow> (bool \<times> string) option" where
  "binary_expression at success c lhs rhs =
     map_option (\<lambda>res.
       let res = (if at AND is_false \<noteq> 0 then \<not> res else res)
       in if \<not> res \<or> success then (res, stringifyBinaryExpr lhs (op_str c) rhs) else (res, []))
     (relational c lhs rhs)"

text \<open>\<open>ResultBuilder::binary_assert\<close>, and \<open>unary_assert\<close> on something that is true or false.\<close>

definition binary_assert ::
    "bool \<Rightarrow> comparison \<Rightarrow> cvalue \<Rightarrow> cvalue \<Rightarrow> (bool \<times> string) option" where
  "binary_assert success c lhs rhs =
     map_option (\<lambda>res. (res, if \<not> res \<or> success then stringifyBinaryExpr lhs '', '' rhs else [])) (relational c lhs rhs)"

fun is_true :: "cvalue \<Rightarrow> bool option" where
  "is_true (Number t i) = Some (i \<noteq> 0)"
| "is_true _ = None"

definition unary_assert :: "assertType \<Rightarrow> bool \<Rightarrow> cvalue \<Rightarrow> (bool \<times> string) option" where
  "unary_assert at success val =
     map_option (\<lambda>v.
       let m_failed = \<not> v; m_failed = (if at AND is_false \<noteq> 0 then \<not> m_failed else m_failed)
       in (\<not> m_failed, if m_failed \<or> success then toString val else [])) (is_true val)"

text \<open>What is asserted, and how the macros evaluate it.\<close>

datatype expression = Plain cvalue | Compared comparison cvalue cvalue

fun kind_comparison :: "kind \<Rightarrow> comparison option" where
  "kind_comparison K_EQ = Some EQ"
| "kind_comparison K_NE = Some NE"
| "kind_comparison K_GT = Some GT"
| "kind_comparison K_LT = Some LT"
| "kind_comparison K_GE = Some GE"
| "kind_comparison K_LE = Some LE"
| "kind_comparison _ = None"

fun evaluate :: "level \<Rightarrow> kind \<Rightarrow> bool \<Rightarrow> expression \<Rightarrow> (bool \<times> string) option" where
  "evaluate l k success (Plain v) =
     (if k \<in> {K_normal, K_FALSE} then
        map_option (\<lambda>b. unary_result (DT l k) success b (toString v)) (is_true v)
      else if k \<in> {K_UNARY, K_UNARY_FALSE} then unary_assert (DT l k) success v
      else None)"
| "evaluate l k success (Compared c a b) =
     (if k \<in> {K_normal, K_FALSE} then binary_expression (DT l k) success c a b
      else if kind_comparison k = Some c then binary_assert success c a b
      else None)"

section \<open>Exceptions\<close>

text \<open>An exception: derived from \<open>std::exception\<close>, a text, or anything else.\<close>

datatype thrown = Std_exception string | Std_string string | C_string string | Other_exception nat

type_synonym translator = "thrown \<Rightarrow> string option"

text \<open>The registered translators are asked first, in the order in which they have been registered.\<close>

fun translate_by :: "translator list \<Rightarrow> thrown \<Rightarrow> string option" where
  "translate_by [] ex = None"
| "translate_by (t # rest) ex = (case t ex of Some res \<Rightarrow> Some res | None \<Rightarrow> translate_by rest ex)"

definition translateActiveException :: "translator list \<Rightarrow> thrown \<Rightarrow> string" where
  "translateActiveException translators ex =
     (case translate_by translators ex of
        Some res \<Rightarrow> res
      | None \<Rightarrow>
          (case ex of
             Std_exception what \<Rightarrow> c_string what
           | Std_string msg \<Rightarrow> c_string msg
           | C_string msg \<Rightarrow> c_string msg
           | Other_exception _ \<Rightarrow> ''unknown exception''))"

text \<open>Translators are told apart by their addresses.\<close>

definition registerExceptionTranslatorImpl ::
    "nat \<times> translator \<Rightarrow> (nat \<times> translator) list \<Rightarrow> (nat \<times> translator) list" where
  "registerExceptionTranslatorImpl et ets = (if fst et \<notin> fst ` set ets then ets @ [et] else ets)"

section \<open>Numbers and their common type\<close>

lemma show_int_inj: "show_int i = show_int j \<longleftrightarrow> i = j"
proof
  have minus: "show_digits n \<noteq> CHR ''-'' # s" if n: "0 \<le> n" for n s
  proof
    assume "show_digits n = CHR ''-'' # s"
    then obtain d where "d \<in> {0..<10}" "digit_char d = CHR ''-''" using show_digits_chars [OF n, of "CHR ''-''"] by auto
    moreover have "ord (CHR ''-'') = 45" by (simp add: ord_def)
    ultimately show False using ord_digit_char [of d] by auto
  qed
  assume "show_int i = show_int j"
  then have same: "(i < 0 \<longleftrightarrow> j < 0) \<and> show_digits \<bar>i\<bar> = show_digits \<bar>j\<bar>"
    using minus [of i] minus [of j] minus [of i, symmetric] minus [of j, symmetric]
    by (auto simp: show_int_def split: if_splits)
  then have "digits_value 10 (show_digits \<bar>i\<bar>) = digits_value 10 (show_digits \<bar>j\<bar>)" by simp
  then have "\<bar>i\<bar> = \<bar>j\<bar>" by simp
  then show "i = j" using same by linarith
qed simp

text \<open>A signed common type holds the values of both types, an unsigned one their non-negative values.\<close>

lemma signed_common:
  "is_signed (common_type t u) \<Longrightarrow> in_range t i \<or> in_range u i \<Longrightarrow> convert (common_type t u) i = i"
  by (cases t; cases u; auto simp: common_type_def promote_def in_range_def convert_def
      signed_take_bit_int_eq_self_iff)

lemma unsigned_common:
  "\<not> is_signed (common_type t u) \<Longrightarrow> in_range t i \<or> in_range u i \<Longrightarrow>
     - (2 ^ bits_of (common_type t u)) \<le> 2 * i \<and> i < 2 ^ bits_of (common_type t u)"
  by (cases t; cases u; auto simp: common_type_def promote_def in_range_def)

text \<open>Two different numbers become equal when one is negative and the common type is unsigned.\<close>

definition sign_lost :: "int_type \<Rightarrow> int_type \<Rightarrow> int \<Rightarrow> int \<Rightarrow> bool" where
  "sign_lost t u i j \<longleftrightarrow> \<not> is_signed (common_type t u) \<and> \<bar>i - j\<bar> = 2 ^ bits_of (common_type t u)"

lemma converted_equal:
  assumes "in_range t i" "in_range u j"
  shows "convert (common_type t u) i = convert (common_type t u) j \<longleftrightarrow> i = j \<or> sign_lost t u i j"
proof (cases "is_signed (common_type t u)")
  case True
  then show ?thesis using signed_common assms by (simp add: sign_lost_def del: is_signed.simps)
next
  case False
  let ?m = "2 ^ bits_of (common_type t u) :: int"
  have bounds: "- ?m \<le> 2 * i" "i < ?m" "- ?m \<le> 2 * j" "j < ?m"
    using unsigned_common [OF False] assms by blast+
  have "convert (common_type t u) i = convert (common_type t u) j \<longleftrightarrow> i mod ?m = j mod ?m"
    using False by (simp add: convert_def take_bit_eq_mod)
  also have "\<dots> \<longleftrightarrow> ?m dvd i - j" by (simp add: mod_eq_dvd_iff)
  also have "\<dots> \<longleftrightarrow> i = j \<or> \<bar>i - j\<bar> = ?m"
  proof
    assume "?m dvd i - j"
    then obtain k where k: "i - j = ?m * k" by blast
    have "\<bar>i - j\<bar> < 2 * ?m" using bounds by linarith
    then have "\<bar>k\<bar> < 2" using k by (simp add: abs_mult mult.commute)
    then have "k = 0 \<or> \<bar>k\<bar> = 1" by linarith
    then show "i = j \<or> \<bar>i - j\<bar> = ?m" using k by (auto simp: abs_mult)
  qed (metis abs_dvd_iff diff_self dvd_0_right dvd_refl dvd_abs_iff)
  finally show ?thesis using False by (simp add: sign_lost_def)
qed

lemma implement_value:
  assumes "assert_implement lane contexts (DT l k) file ln expr (Value passed decomp) p = (r, Some rb, q)"
    and "k \<notin> {K_THROWS, K_THROWS_AS, K_THROWS_WITH, K_THROWS_WITH_AS, K_NOTHROW}"
  shows "ad_failed rb = (\<not> passed) \<and> ad_decomp rb = decomp"
proof -
  let ?rb = "setResult passed decomp (make_AssertData (DT l k) file ln expr [] (Equals []) p)"
  have "verdict_of ?rb = (\<not> passed)"
    using assms(2) by (simp add: verdict_of_def flag_tests setResult_def make_AssertData_def)
  then have "fst (RB_log lane contexts ?rb p) = ?rb"
    by (simp add: RB_log_def setResult_def make_AssertData_def Let_def)
  then have "rb = ?rb"
    using assms(1) by (auto simp: assert_implement_def log_react_return_def split: prod.splits if_splits)
  then show ?thesis by (simp add: setResult_def)
qed

text \<open>C35. \<open>CHECK(a == b)\<close> on integers, of any types but \<open>bool\<close>, passes if and only if the numbers are
  equal or the comparison loses the sign of one of them; and when it fails, the report shows the two
  numbers, which are different.\<close>

theorem equality_shows_values:
  assumes "in_range t i" "in_range u j" "t \<noteq> T_bool" "u \<noteq> T_bool"
    and "evaluate l K_normal (o_success p) (Compared EQ (Number t i) (Number u j)) = Some (passed, decomp)"
    and "run_assert lane contexts l K_normal file ln expr ty msg (Value passed decomp) p = (r, Some rb, q)"
  shows "(\<not> ad_failed rb \<longleftrightarrow> i = j \<or> sign_lost t u i j) \<and>
    (ad_failed rb \<longrightarrow> ad_decomp rb = show_int i @ '' == '' @ show_int j \<and> show_int i \<noteq> show_int j)"
proof -
  have plain: "DT l K_normal AND is_false = 0" by (cases l) (simp_all add: DT_def assert_flags)
  have rb: "ad_failed rb = (\<not> passed)" "ad_decomp rb = decomp" using implement_value [of lane contexts l K_normal] assms(6) by simp_all
  have "passed \<longleftrightarrow> i = j \<or> sign_lost t u i j"
    using assms(5) plain converted_equal [OF assms(1,2)] by (auto simp: binary_expression_def Let_def split: if_splits)
  moreover have "\<not> passed \<Longrightarrow> decomp = show_int i @ '' == '' @ show_int j"
    using assms(3-5) plain by (auto simp: binary_expression_def stringifyBinaryExpr_def Let_def split: if_splits)
  ultimately show ?thesis using rb by (auto simp: show_int_inj)
qed

theorem equality_shows_values_witness:
  "\<exists>r rb q. run_assert 0 [] CHECK K_normal [] 1 [] [] (Equals []) (Value False ''3 == 4'') blank_state = (r, Some rb, q) \<and>
     ad_failed rb \<and> ad_decomp rb = ''3 == 4'' \<and> \<not> sign_lost T_int T_uint 3 4"
proof -
  have ev: "evaluate CHECK K_normal (o_success blank_state) (Compared EQ (Number T_int 3) (Number T_uint 4)) =
      Some (False, ''3 == 4'')"
    by code_simp
  have "\<exists>r rb q. run_assert 0 [] CHECK K_normal [] 1 [] [] (Equals []) (Value False ''3 == 4'') blank_state = (r, Some rb, q)"
    by (auto simp: macro_defs log_react_return_def split: prod.splits)
  then obtain r rb q where
    run: "run_assert 0 [] CHECK K_normal [] 1 [] [] (Equals []) (Value False ''3 == 4'') blank_state = (r, Some rb, q)"
    by blast
  have lost: "\<not> sign_lost T_int T_uint 3 4" by (simp add: sign_lost_def common_type_def promote_def)
  have shown: "show_int 3 @ '' == '' @ show_int 4 = ''3 == 4''" by code_simp
  show ?thesis
    using equality_shows_values [OF _ _ _ _ ev run] lost run shown by (auto simp: in_range_def)
qed

text \<open>A loss of sign.\<close>

lemma minus_one_equals_max: "evaluate CHECK K_normal True (Compared EQ (Number T_int (-1)) (Number T_uint 4294967295)) =
    Some (True, ''-1 == 4294967295'')"
  by code_simp

lemma relational_negated:
  "relational NE a b = map_option Not (relational EQ a b)"
  "relational GE a b = map_option Not (relational LT a b)"
  "relational LE a b = map_option Not (relational GT a b)"
  by (cases a; cases b; auto)+

end
