(* ===== verification/Doctest_Signals.thy ===== *)
theory Doctest_Signals
  imports Doctest_Reports
begin

text \<open>
  The signals of the vendored test framework (\<open>external/doctest.h\<close>,
  \<open>FatalConditionHandler\<close> on POSIX systems): while a test function runs, fatal signals are
  reported, and afterwards they have their former actions. How a debugger is detected is here, too. The actions and the stack of the process
  are a state; \<open>sigaction\<close> and \<open>sigaltstack\<close> are updates of it.
\<close>

section \<open>State\<close>

text \<open>An action is the handler of the framework, or anything else.\<close>

datatype sigaction = Handle_signal | Other_action nat

datatype sigstack = Alt_stack | Other_stack nat

definition signalDefs :: "(int \<times> string) list" where
  "signalDefs =
     [(2, ''SIGINT - Terminal interrupt signal''),
      (4, ''SIGILL - Illegal instruction signal''),
      (8, ''SIGFPE - Floating point error signal''),
      (11, ''SIGSEGV - Segmentation violation signal''),
      (15, ''SIGTERM - Termination request signal''),
      (6, ''SIGABRT - Abort (abnormal termination) signal'')]"

record signal_state =
  isSet :: bool
  oldSigActions :: "sigaction list"
  oldSigStack :: sigstack
  actions :: "int \<Rightarrow> sigaction"
  process_stack :: sigstack

section \<open>Operations\<close>

definition install :: "signal_state \<Rightarrow> signal_state" where
  "install st =
     (let st = st\<lparr>isSet := True\<rparr>; st = st\<lparr>oldSigStack := process_stack st, process_stack := Alt_stack\<rparr>
      in foldl (\<lambda>st i. let sig = fst (signalDefs ! i)
           in st\<lparr>oldSigActions := (oldSigActions st)[i := actions st sig], actions := (actions st)(sig := Handle_signal)\<rparr>)
         st [0..<length signalDefs])"

definition reset :: "signal_state \<Rightarrow> signal_state" where
  "reset st =
     (if isSet st then
        let st = foldl (\<lambda>st i. st\<lparr>actions := (actions st)(fst (signalDefs ! i) := oldSigActions st ! i)\<rparr>)
              st [0..<length signalDefs]
        in st\<lparr>process_stack := oldSigStack st, isSet := False\<rparr>
      else st)"

definition signal_name :: "int \<Rightarrow> string" where
  "signal_name sig = (case map_of signalDefs sig of Some name \<Rightarrow> name | None \<Rightarrow> ''<unknown signal>'')"

text \<open>\<open>handleSignal\<close>: the state, the context, and the action that the signal has when it is
  raised again.\<close>

definition handleSignal ::
    "bool \<Rightarrow> int \<Rightarrow> signal_state \<Rightarrow> ContextState \<Rightarrow> signal_state \<times> ContextState \<times> sigaction" where
  "handleSignal timed_out sig st p =
     (let name = signal_name sig; st = reset st; p = reportFatal timed_out name p in (st, p, actions st sig))"

text \<open>The try block of a pass: the handler is made, the test runs and may change actions; it is reset
  after the test or by the destructor, which does it again if there was no exception.\<close>

definition guarded :: "(signal_state \<Rightarrow> bool \<times> signal_state) \<Rightarrow> signal_state \<Rightarrow> signal_state" where
  "guarded test st =
     (let (throws, st) = test (install st); st = (if throws then st else reset st) in reset st)"

text \<open>Whether a debugger is attached, by the lines of \<open>/proc/self/status\<close>, if it can be read.\<close>

definition isDebuggerActive :: "string list option \<Rightarrow> bool" where
  "isDebuggerActive status =
     (let tracer = ''TracerPid:'' @ [CHR 0x09]
      in case find (\<lambda>l. take (length tracer) l = tracer) (case status of None \<Rightarrow> [] | Some ls \<Rightarrow> ls) of
           None \<Rightarrow> False
         | Some l \<Rightarrow> length l > length tracer \<and> l ! length tracer \<noteq> CHR ''0'')"

section \<open>The former actions come back\<close>

definition known :: "int \<Rightarrow> bool" where
  "known sig \<longleftrightarrow> sig \<in> fst ` set signalDefs"

text \<open>The static array has an entry for each signal.\<close>

definition array_ok :: "signal_state \<Rightarrow> bool" where
  "array_ok st \<longleftrightarrow> length (oldSigActions st) = length signalDefs"

lemma install_simps:
  assumes "array_ok st"
  shows "isSet (install st)" "oldSigStack (install st) = process_stack st" "process_stack (install st) = Alt_stack"
    "oldSigActions (install st) = map (\<lambda>d. actions st (fst d)) signalDefs"
    "actions (install st) = (\<lambda>sig. if known sig then Handle_signal else actions st sig)"
proof -
  obtain a b c d e f where old: "oldSigActions st = [a, b, c, d, e, f]"
    using assms by (auto simp: array_ok_def signalDefs_def length_Suc_conv numeral_eq_Suc)
  show "isSet (install st)" "oldSigStack (install st) = process_stack st" "process_stack (install st) = Alt_stack"
    "oldSigActions (install st) = map (\<lambda>d. actions st (fst d)) signalDefs"
    "actions (install st) = (\<lambda>sig. if known sig then Handle_signal else actions st sig)"
    using old by (auto simp: install_def Let_def known_def signalDefs_def upt_rec fun_eq_iff)
qed

lemma reset_simps:
  assumes "isSet st" "oldSigActions st = map (\<lambda>d. old (fst d)) signalDefs"
  shows "\<not> isSet (reset st)" "process_stack (reset st) = oldSigStack st" "array_ok (reset st)"
    "actions (reset st) = (\<lambda>sig. if known sig then old sig else actions st sig)"
  using assms by (auto simp: reset_def Let_def known_def array_ok_def signalDefs_def upt_rec fun_eq_iff)

lemma reset_twice: "\<not> isSet st \<Longrightarrow> reset st = st"
  by (simp add: reset_def)

text \<open>After a pass, whether the test has ended by an exception or not, the signals the framework handles
  have the actions they had before it, even if the test has changed them, and the stack is the former
  one. The test does not touch the variables of the handler.\<close>

theorem signals_restored:
  assumes "array_ok st" "test (install st) = (throws, st')"
    and "isSet st'" "oldSigActions st' = oldSigActions (install st)" "oldSigStack st' = oldSigStack (install st)"
  shows "process_stack (guarded test st) = process_stack st \<and> \<not> isSet (guarded test st) \<and> array_ok (guarded test st) \<and>
    actions (guarded test st) = (\<lambda>sig. if known sig then actions st sig else actions st' sig)"
proof -
  have "guarded test st = reset st'"
    using assms(2,3) reset_simps(1) [of st' "actions st"] assms(4) install_simps(4) [OF assms(1)] reset_twice
    by (simp add: guarded_def Let_def)
  then show ?thesis
    using reset_simps [of st' "actions st"] assms(3-5) install_simps [OF assms(1)] by simp
qed

text \<open>A fatal signal during a test is reported once, by its name: when it is raised again, it has its
  former action.\<close>

theorem signal_reported_once:
  assumes "array_ok st" "known sig" "handleSignal timed_out sig (install st) p = (st', q, act)"
  shows "act = actions st sig \<and> \<not> isSet st' \<and>
    (\<exists>name rest. (sig, name) \<in> set signalDefs \<and>
       reported q = reported p @ Test_case_exception name True (stringifiedContexts p) # rest)"
proof -
  obtain name where name: "map_of signalDefs sig = Some name"
    using assms(2) unfolding known_def by (metis not_None_eq map_of_eq_None_iff)
  then have "signal_name sig = name" "(sig, name) \<in> set signalDefs" by (simp_all add: signal_name_def map_of_SomeD)
  moreover have "act = actions st sig" "\<not> isSet st'"
    using assms(3) reset_simps [of "install st" "actions st"] install_simps [OF assms(1)] assms(2)
    by (auto simp: handleSignal_def Let_def)
  moreover have "q = reportFatal timed_out (signal_name sig) p" using assms(3) by (simp add: handleSignal_def Let_def)
  ultimately show ?thesis using reported_fatal [of timed_out name p] by auto
qed

text \<open>A process with its default actions.\<close>

definition default_signals :: signal_state where
  "default_signals =
     \<lparr>isSet = False, oldSigActions = replicate 6 (Other_action 0), oldSigStack = Other_stack 0,
      actions = (\<lambda>_. Other_action 0), process_stack = Other_stack 0\<rparr>"

lemma default_array: "array_ok default_signals"
  by (simp add: array_ok_def default_signals_def signalDefs_def)

theorem signals_restored_witness:
  "actions (guarded (\<lambda>st. (True, st\<lparr>actions := (actions st)(2 := Other_action 7)\<rparr>)) default_signals) 2 = Other_action 0"
proof -
  let ?test = "\<lambda>st. (True, st\<lparr>actions := (actions st)(2 := Other_action 7)\<rparr>)"
  have "known 2" by (simp add: known_def signalDefs_def)
  then have "actions (guarded ?test default_signals) 2 = actions default_signals 2"
    using signals_restored [where test = ?test, OF default_array refl] install_simps(1) [OF default_array] by simp
  then show ?thesis by (simp add: default_signals_def)
qed

theorem signal_reported_once_witness:
  "\<exists>st' q. handleSignal False 11 (install default_signals) sample_state = (st', q, Other_action 0) \<and> \<not> isSet st'"
proof -
  obtain st' q act where h: "handleSignal False 11 (install default_signals) sample_state = (st', q, act)"
    by (metis prod_cases3)
  have "known 11" by (simp add: known_def signalDefs_def)
  from signal_reported_once [OF default_array this h] h show ?thesis by (simp add: default_signals_def)
qed

end
