(* ===== verification/Spec2Isabelle.thy ===== *)
theory Spec2Isabelle
  imports Driver Decoder Printing Doctest_Main Doctest_Values Doctest_Signals
begin

text \<open>
  A model of the assembler and simulator of smol-gpu, a small SIMT processor with a RISC-V like
  instruction set. The program reads an assembly file, turns it into machine code and runs it on
  the Verilator model of the hardware. The C++ code is under \<open>src/sim\<close>: \<open>simlib\<close> (the
  instruction set, memories and the simulation loop) and \<open>aslib\<close> (lexer, parser, emitter).

  The path of a source line is: \<open>collect_tokens\<close> (lexer) gives tokens and errors,
  \<open>parse_line\<close> gives a line or errors, \<open>parse_program\<close> collects the lines into
  instructions, labels and block and warp counts, \<open>translate_to_binary\<close> encodes them.

  The theories, in the order of that path from the bottom up:

  \<^item> \<open>Prelude\<close>: names of the machine types (\<open>IData\<close> is a 32-bit word), the standard
    library's \<open>std::from_chars\<close> and number formatting.
  \<^item> \<open>Errors\<close> (\<open>simlib/error.hpp\<close>): error values; a failed \<open>assert_or_err\<close> is the left
    of a sum.
  \<^item> \<open>Isa\<close> (\<open>simlib/instructions.hpp\<close>): opcodes, functs, registers, mnemonics and the
    tables between them and strings.
  \<^item> \<open>Encoding\<close> (\<open>InstructionBits\<close> and the functions that build instructions): the
    locale \<open>instruction_field\<close> is the contract of a setter, interpreted on each of them.
  \<^item> \<open>Numbers\<close> (\<open>aslib/common.hpp\<close>, \<open>aslib/parser_utils.cpp\<close>): character classes,
    number literals, register names.
  \<^item> \<open>Lexer\<close> (\<open>aslib/token.hpp\<close>, \<open>aslib/lexer.*\<close>): the lexer is a column and the rest
    of the line. The token loop is a partial function: \<open>None\<close> is a loop that does not end. The
    locale \<open>iterator\<close> relates the loop to the reachable lexer states.
  \<^item> \<open>Parser\<close> (\<open>aslib/parser.*\<close>): the line parser. Exceptions and dereferences of empty
    optionals are outcomes. The locale \<open>reporting_parser\<close> says that a parsing function never
    crashes and reports one error exactly when it fails; \<open>format_parser\<close> extends it with the
    tokens that are accepted.
  \<^item> \<open>Program\<close> (\<open>as::parse_program\<close>): the loop over the lines and its specification.
  \<^item> \<open>Printing\<close>: printed lines (\<open>line_to_str\<close>) are lexed and parsed back.
  \<^item> \<open>Emitter\<close> (\<open>aslib/emitter.cpp\<close>): machine code, and how it relates to the operands.

  \<^item> \<open>Data_Reader\<close> (\<open>aslib/data_reader.cpp\<close>): initial contents of the data memory; a
    file is its text.
  \<^item> \<open>Memory\<close> (\<open>simlib/sim.hpp\<close>): the instruction and data memories, which talk to the
    hardware through arrays of ports, printing, and the simulation loop. The ports are a record,
    the pointers into them are indices or null, and \<open>Vgpu::eval\<close> is a parameter, a function on
    the ports and a hidden state: Verilator generates it at build time. A write through a null
    pointer is \<open>None\<close>.
  \<^item> \<open>Driver\<close> (\<open>sim/main.cpp\<close>): arguments, files, the program, the machine, and the exit
    code. The files are a partial function from names to texts.
  \<^item> \<open>Decoder\<close> (\<open>src/decoder.sv\<close>): the instruction decoder of the hardware, to state
    which instructions mean to the hardware what they mean to the assembler.

  The tests of the program run on the vendored header \<open>external/doctest.h\<close>, whose logic is
  modelled too:

  \<^item> \<open>Doctest_String\<close>: the class \<open>String\<close>, in whose object short texts lie and on whose
    heap block long ones do. Blocks are lists of bytes, an access outside of one is \<open>None\<close>,
    and fresh memory holds anything.
  \<^item> \<open>Doctest_Filter\<close>: the wildcard matcher, which backtracks, against globs; the hashes of
    subcases.
  \<^item> \<open>Doctest_Tests\<close>: test cases and the orders they run in. The locale \<open>key_comparator\<close>
    is what \<open>std::sort\<close> asks of a comparator; \<open>std::sort\<close> and \<open>std::rand\<close> are
    parameters.
  \<^item> \<open>Doctest_Context\<close>: options, statistics, the counters that are spread over lanes, and
    the verdict on a test case.
  \<^item> \<open>Doctest_Options\<close>: the command line.
  \<^item> \<open>Doctest_Run\<close>: subcases, the loop around a test function and the loop over all tests.
    A test function is a parameter, a function on the context. Instead of the reporters the context
    keeps the calls they get.
  \<^item> \<open>Doctest_Subcases\<close>: test functions that are trees of subcases, and the proof that each
    leaf of the tree is run once, as long as no two hashes collide; and that they may.
  \<^item> \<open>Doctest_Assert\<close>: assertions and messages, whether they hold, how they count and when they
    end a test.
  \<^item> \<open>Doctest_Reports\<close>: test functions made of the macros, and the order of the calls of a run.
  \<^item> \<open>Doctest_Xml\<close>, \<open>Doctest_Xml_Writer\<close>: the encoding of texts and the writer of XML.
  \<^item> \<open>Doctest_Reporters\<close>: the two reporters that write XML. The locale \<open>reporter\<close> says
    that a reporter keeps an invariant at each stage of a run and never fails; \<open>tag_reporter\<close>
    extends it, for these two: what they write for a call leads from one stage of the run to the
    next. With the order of the calls it follows that the report of a run is nested.
  \<^item> \<open>Doctest_Console\<close>: the reporter that writes to the console, another interpretation of
    \<open>reporter\<close>; its last line against the exit code, and the subcases it shows against those
    that are open.

  \<^item> \<open>Doctest_Values\<close>: the values that assertions compare, with the integer types of the
    language and their conversions, how a comparison is printed, and the translation of exceptions.
  \<^item> \<open>Doctest_Signals\<close>: the actions of fatal signals while a test runs, and after it.
  \<^item> \<open>Doctest_Main\<close>: the registries of tests and reporters, as ordered containers by the
    locale \<open>key_comparator\<close>; the choice of the reporters and of the stream; and the whole program
    of the tests, from its arguments to its output and its exit code.

  Loops that may not end are partial functions (\<open>collect_loop\<close> and \<open>test_loop\<close>); the
  simulation loop counts down the cycles the code allows, and every other loop has a measure. There
  is no fuel.

  Not modelled: what the driver writes to the error stream besides the text of an error, the unused
  \<open>num_type\<close> helpers on floating-point numbers, the tests themselves, the SystemVerilog
  modules other than the decoder, and the generated class \<open>Vgpu\<close>; of the test framework
  floating-point numbers and \<open>Approx\<close>, assertions outside of tests, the type traits that choose
  among overloads, clocks, locks, and the code for Windows.
\<close>

end
